theory Spec2Isabelle
  imports Main "HOL-Library.Signed_Division" "HOL-Library.Word"
begin

section \<open>Errors and machine arithmetic\<close>

text \<open>
  The C++ code has no recoverable errors. A failing \<open>CH_assert\<close> halts a debug build,
  an array index outside its bounds and a division by zero are undefined behaviour.
  Each of them is a branch of the model that returns an error value. The model is the
  debug build: assertions are checked where the source writes them.

  C++ \<open>int\<close> is 32 bits wide. A value of that type is an \<open>int\<close> here, and every
  \<open>+\<close>, \<open>-\<close> and \<open>*\<close> that the source does on \<open>int\<close> is followed by \<open>i32\<close>, which
  reduces the result to the representable range as two's-complement hardware does
  (signed overflow is undefined behaviour in C++; the model gives it the wrapped
  value). \<open>int32\<close> says that a value is representable. Division and remainder
  truncate towards zero (\<open>sdiv\<close>, \<open>smod\<close>). A pointer is a 64-bit address counted in
  elements: adding an \<open>int\<close> to a pointer is not wrapped.
\<close>

datatype error = AssertionFailed | OutOfRange | DivisionByZero

definition int32 :: "int \<Rightarrow> bool" where
  "int32 i \<longleftrightarrow> - 2147483648 \<le> i \<and> i < 2147483648"

definition i32 :: "int \<Rightarrow> int" where
  "i32 i = (i + 2147483648) mod 4294967296 - 2147483648"

section \<open>IntVect\<close>

text \<open>
  Modelled from the spec: \<open>Parameters.H\<close>, which defines \<open>g_SpaceDim\<close> and the
  macros \<open>D_TERM\<close>, \<open>D_DECL\<close>, \<open>D_EXPR\<close> and \<open>D_INVTERM\<close>, is not among the sources.
  The dimension is fixed at 3 (\<open>Box::grow(int)\<close> builds \<open>IntVect(1,1,1)\<close>);
  \<open>D_TERM(a,b,c)\<close> is \<open>a b c\<close> and \<open>D_INVTERM(a,b,c)\<close> is \<open>c b a\<close>.
\<close>

definition g_SpaceDim :: int where
  "g_SpaceDim = 3"

datatype IntVect = IntVect int int int

text \<open>An index that \<open>m_data[a_idx]\<close> may be given without leaving the array.\<close>

definition inRange :: "int \<Rightarrow> bool" where
  "inRange a_idx \<longleftrightarrow> 0 \<le> a_idx \<and> a_idx < g_SpaceDim"

text \<open>
  \<open>IntVect::operator[]\<close>, as a read and as an assignment. The operator checks
  nothing; outside \<open>inRange\<close> the result is left unspecified here and every caller in
  the model tests \<open>inRange\<close> before it indexes by a run-time direction.
\<close>

fun IntVect_get :: "IntVect \<Rightarrow> int \<Rightarrow> int" where
  "IntVect_get (IntVect i0 i1 i2) a_idx =
     (if a_idx = 0 then i0 else if a_idx = 1 then i1
      else if a_idx = 2 then i2 else undefined)"

fun IntVect_set :: "IntVect \<Rightarrow> int \<Rightarrow> int \<Rightarrow> IntVect" where
  "IntVect_set (IntVect i0 i1 i2) a_idx x =
     (if a_idx = 0 then IntVect x i1 i2 else if a_idx = 1 then IntVect i0 x i2
      else if a_idx = 2 then IntVect i0 i1 x else undefined)"

fun IntVect_neg :: "IntVect \<Rightarrow> IntVect" where
  "IntVect_neg (IntVect i0 i1 i2) = IntVect (i32 (- i0)) (i32 (- i1)) (i32 (- i2))"

fun IntVect_minus :: "IntVect \<Rightarrow> IntVect \<Rightarrow> IntVect" where
  "IntVect_minus (IntVect x0 x1 x2) (IntVect y0 y1 y2)
     = IntVect (i32 (x0 - y0)) (i32 (x1 - y1)) (i32 (x2 - y2))"

fun IntVect_le :: "IntVect \<Rightarrow> IntVect \<Rightarrow> bool" where
  "IntVect_le (IntVect x0 x1 x2) (IntVect y0 y1 y2) \<longleftrightarrow> x0 \<le> y0 \<and> x1 \<le> y1 \<and> x2 \<le> y2"

text \<open>\<open>IntVect::product\<close>: the loop \<open>temp_prod *= m_data[i]\<close>, from 1.\<close>

fun IntVect_product :: "IntVect \<Rightarrow> int" where
  "IntVect_product (IntVect i0 i1 i2) = i32 (i32 (i32 (1 * i0) * i1) * i2)"

section \<open>Box\<close>

record Box =
  m_lo :: IntVect
  m_hi :: IntVect

definition loVect :: "Box \<Rightarrow> int \<Rightarrow> int" where
  "loVect b a_dir = IntVect_get (m_lo b) a_dir"

definition hiVect :: "Box \<Rightarrow> int \<Rightarrow> int" where
  "hiVect b a_dir = IntVect_get (m_hi b) a_dir"

text \<open>\<open>Box::Box(a_lo, a_hi)\<close> and \<open>Box::define\<close>: the bounds must be ordered.\<close>

definition Box_define :: "IntVect \<Rightarrow> IntVect \<Rightarrow> error + Box" where
  "Box_define a_lo a_hi =
     (if IntVect_le a_lo a_hi then Inr \<lparr>m_lo = a_lo, m_hi = a_hi\<rparr> else Inl AssertionFailed)"

text \<open>
  \<open>Box::grow(a_i, a_dir)\<close>. The assertion is \<open>a_dir >= 0 && a_dir <= g_SpaceDim\<close>;
  the two assignments then index \<open>m_lo\<close> and \<open>m_hi\<close> with \<open>a_dir\<close>. The new
  bounds of \<open>grow\<close>, and of \<open>adjBox\<close> below, are sums and differences of the old
  bounds and the argument; they are written as integers, and what is stored is their
  image under \<open>i32\<close>.
\<close>

definition grow_assert :: "int \<Rightarrow> bool" where
  "grow_assert a_dir \<longleftrightarrow> a_dir \<ge> 0 \<and> a_dir \<le> g_SpaceDim"

definition Box_grow :: "int \<Rightarrow> int \<Rightarrow> Box \<Rightarrow> error + Box" where
  "Box_grow a_i a_dir b =
     (if \<not> grow_assert a_dir then Inl AssertionFailed
      else if \<not> inRange a_dir then Inl OutOfRange
      else Inr \<lparr>m_lo = IntVect_set (m_lo b) a_dir (loVect b a_dir - a_i),
                m_hi = IntVect_set (m_hi b) a_dir (hiVect b a_dir + a_i)\<rparr>)"

text \<open>\<open>Box::shift(a_i, a_dir)\<close>: no assertion, both bounds move.\<close>

definition Box_shift :: "int \<Rightarrow> int \<Rightarrow> Box \<Rightarrow> error + Box" where
  "Box_shift a_i a_dir b =
     (if \<not> inRange a_dir then Inl OutOfRange
      else Inr \<lparr>m_lo = IntVect_set (m_lo b) a_dir (i32 (loVect b a_dir + a_i)),
                m_hi = IntVect_set (m_hi b) a_dir (i32 (hiVect b a_dir + a_i))\<rparr>)"


definition Box_contains :: "Box \<Rightarrow> IntVect \<Rightarrow> bool" where
  "Box_contains b a_iv \<longleftrightarrow> IntVect_le (m_lo b) a_iv \<and> IntVect_le a_iv (m_hi b)"

text \<open>The expression \<open>m_hi[a_dir] - m_lo[a_dir] + 1\<close>, which the functions below share.\<close>

definition extent :: "Box \<Rightarrow> int \<Rightarrow> int" where
  "extent b a_dir = i32 (i32 (hiVect b a_dir - loVect b a_dir) + 1)"

definition Box_size :: "Box \<Rightarrow> int" where
  "Box_size b = i32 (i32 (extent b 0 * extent b 1) * extent b 2)"

definition Box_dimensions :: "Box \<Rightarrow> IntVect" where
  "Box_dimensions b = IntVect (extent b 0) (extent b 1) (extent b 2)"


text \<open>\<open>Box::getStride\<close>: axis 0 has stride 1, each later stride reads the one before.\<close>

definition Box_getStride :: "Box \<Rightarrow> IntVect" where
  "Box_getStride b =
     (let s0 = 1;
          s1 = i32 (s0 * extent b 0);
          s2 = i32 (s1 * extent b 1)
      in IntVect s0 s1 s2)"

text \<open>\<open>Box::vecToLin0\<close>: the stride of axis 0 is not read.\<close>

definition vecToLin0 :: "IntVect \<Rightarrow> IntVect \<Rightarrow> int" where
  "vecToLin0 a_vec a_stride =
     i32 (i32 (IntVect_get a_vec 0 + i32 (IntVect_get a_vec 1 * IntVect_get a_stride 1))
            + i32 (IntVect_get a_vec 2 * IntVect_get a_stride 2))"

definition Box_getOffset :: "Box \<Rightarrow> IntVect \<Rightarrow> int" where
  "Box_getOffset b a_stride = vecToLin0 (IntVect_neg (m_lo b)) a_stride"

text \<open>
  \<open>Box::linToVec(a_lin, a_stride, a_vec)\<close>: \<open>D_INVTERM\<close> runs the highest axis first.
  The result is the value left in \<open>a_vec\<close>, all three components of which are
  assigned.
\<close>

definition linToVec :: "Box \<Rightarrow> int \<Rightarrow> IntVect \<Rightarrow> error + IntVect" where
  "linToVec b a_lin a_stride =
     (if IntVect_get a_stride 2 = 0 then Inl DivisionByZero
      else let tmp2 = i32 (a_lin sdiv IntVect_get a_stride 2);
               v2 = i32 (tmp2 + loVect b 2);
               lin1 = i32 (a_lin - i32 (tmp2 * IntVect_get a_stride 2))
           in if IntVect_get a_stride 1 = 0 then Inl DivisionByZero
              else let tmp1 = i32 (lin1 sdiv IntVect_get a_stride 1);
                       v1 = i32 (tmp1 + loVect b 1);
                       lin' = i32 (lin1 - i32 (tmp1 * IntVect_get a_stride 1));
                       v0 = i32 (lin' + loVect b 0)
                   in Inr (IntVect v0 v1 v2))"

text \<open>\<open>Box::linToVec(a_lin, a_vec)\<close>: the strides are computed from the box.\<close>

definition linToVec_box :: "Box \<Rightarrow> int \<Rightarrow> error + IntVect" where
  "linToVec_box b a_lin = linToVec b a_lin (Box_getStride b)"

section \<open>The same quantities over the integers\<close>

text \<open>
  What the functions above compute when nothing wraps, as functions on the integers:
  the extents, strides and number of cells of a box, the linear index of a vector,
  the offset of a box, the vector of a linear index, the negation and difference of
  vectors, the product of the components, a box moved along an axis. The claims are
  stated for the functions of the source; these are what their results are compared
  with, and \<open>box_fits\<close> is the condition under which the two agree on a box: its
  bounds are representable and so is the number of its cells.
\<close>

fun negated :: "IntVect \<Rightarrow> IntVect" where
  "negated (IntVect i0 i1 i2) = IntVect (- i0) (- i1) (- i2)"

fun difference :: "IntVect \<Rightarrow> IntVect \<Rightarrow> IntVect" where
  "difference (IntVect x0 x1 x2) (IntVect y0 y1 y2) = IntVect (x0 - y0) (x1 - y1) (x2 - y2)"

fun product3 :: "IntVect \<Rightarrow> int" where
  "product3 (IntVect i0 i1 i2) = ((1 * i0) * i1) * i2"

definition cells :: "Box \<Rightarrow> int" where
  "cells b = (hiVect b 0 - loVect b 0 + 1) * (hiVect b 1 - loVect b 1 + 1)
                  * (hiVect b 2 - loVect b 2 + 1)"

definition extents :: "Box \<Rightarrow> IntVect" where
  "extents b = IntVect (hiVect b 0 - loVect b 0 + 1) (hiVect b 1 - loVect b 1 + 1)
                        (hiVect b 2 - loVect b 2 + 1)"

definition strides :: "Box \<Rightarrow> IntVect" where
  "strides b =
     (let s0 = 1;
          s1 = s0 * (hiVect b 0 - loVect b 0 + 1);
          s2 = s1 * (hiVect b 1 - loVect b 1 + 1)
      in IntVect s0 s1 s2)"

definition lin_of :: "IntVect \<Rightarrow> IntVect \<Rightarrow> int" where
  "lin_of a_vec a_stride =
     IntVect_get a_vec 0 + IntVect_get a_vec 1 * IntVect_get a_stride 1
       + IntVect_get a_vec 2 * IntVect_get a_stride 2"

definition offset_of :: "Box \<Rightarrow> IntVect \<Rightarrow> int" where
  "offset_of b a_stride = lin_of (negated (m_lo b)) a_stride"

definition unlin :: "Box \<Rightarrow> int \<Rightarrow> IntVect \<Rightarrow> error + IntVect" where
  "unlin b a_lin a_stride =
     (if IntVect_get a_stride 2 = 0 then Inl DivisionByZero
      else let tmp2 = a_lin sdiv IntVect_get a_stride 2;
               v2 = tmp2 + loVect b 2;
               lin1 = a_lin - tmp2 * IntVect_get a_stride 2
           in if IntVect_get a_stride 1 = 0 then Inl DivisionByZero
              else let tmp1 = lin1 sdiv IntVect_get a_stride 1;
                       v1 = tmp1 + loVect b 1;
                       lin' = lin1 - tmp1 * IntVect_get a_stride 1;
                       v0 = lin' + loVect b 0
                   in Inr (IntVect v0 v1 v2))"

definition moved :: "int \<Rightarrow> int \<Rightarrow> Box \<Rightarrow> Box" where
  "moved a_i a_dir b =
     \<lparr>m_lo = IntVect_set (m_lo b) a_dir (loVect b a_dir + a_i),
      m_hi = IntVect_set (m_hi b) a_dir (hiVect b a_dir + a_i)\<rparr>"

fun vec_fits :: "IntVect \<Rightarrow> bool" where
  "vec_fits (IntVect i0 i1 i2) \<longleftrightarrow> int32 i0 \<and> int32 i1 \<and> int32 i2"

definition box_fits :: "Box \<Rightarrow> bool" where
  "box_fits b \<longleftrightarrow> vec_fits (m_lo b) \<and> vec_fits (m_hi b) \<and> cells b < 2147483648"

section \<open>BaseFab\<close>

datatype AllocBy = AllocBy_none | AllocBy_array | AllocBy_alias

text \<open>
  The host array. \<open>m_data\<close> is the buffer it owns or aliases, as the list of its
  elements; an access outside the buffer is an error of the model.
\<close>

record 'a BaseFab =
  m_box :: Box
  m_stride :: IntVect
  m_ncomp :: int
  m_size :: int
  m_data :: "'a list"
  m_allocBy :: AllocBy

definition BaseFab_size :: "'a BaseFab \<Rightarrow> int" where
  "BaseFab_size fab = i32 (m_ncomp fab * m_size fab)"

text \<open>
  \<open>BaseFab::sizeBytes\<close> multiplies by \<open>sizeof(typeid(T).name())\<close>, the size of a
  \<open>const char*\<close>, which is the parameter \<open>sizeof_name\<close> (8 on the 64-bit platforms
  the library builds for). \<open>size_t\<close> is 64 bits wide; the \<open>int\<close> is converted to it.
\<close>

definition BaseFab_sizeBytes :: "nat \<Rightarrow> 'a BaseFab \<Rightarrow> 64 word" where
  "BaseFab_sizeBytes sizeof_name fab = word_of_int (BaseFab_size fab) * word_of_nat sizeof_name"

definition BaseFab_index :: "'a BaseFab \<Rightarrow> IntVect \<Rightarrow> error + int" where
  "BaseFab_index fab a_iv =
     (if \<not> Box_contains (m_box fab) a_iv then Inl AssertionFailed
      else let r = IntVect_minus a_iv (m_lo (m_box fab))
           in Inr (i32 (i32 (i32 (IntVect_get r 0 * IntVect_get (m_stride fab) 0)
                               + i32 (IntVect_get r 1 * IntVect_get (m_stride fab) 1))
                          + i32 (IntVect_get r 2 * IntVect_get (m_stride fab) 2))))"

text \<open>\<open>BaseFab::operator()\<close>, read: the element at \<open>a_icomp*m_size + index(a_iv)\<close>.\<close>

definition BaseFab_at :: "'a BaseFab \<Rightarrow> IntVect \<Rightarrow> int \<Rightarrow> error + 'a" where
  "BaseFab_at fab a_iv a_icomp =
     (case BaseFab_index fab a_iv of
        Inl e \<Rightarrow> Inl e
      | Inr i \<Rightarrow>
          (let off = i32 (i32 (a_icomp * m_size fab) + i)
           in if 0 \<le> off \<and> off < int (length (m_data fab)) then Inr (m_data fab ! nat off)
              else Inl OutOfRange))"

text \<open>
  The state \<open>BaseFab::define\<close> leaves behind. The bodies of \<open>BaseFab::define\<close> and
  \<open>BaseFab::setStride\<close> are not among the sources; the fields they set are taken as
  given, with the values \<open>CudaFab::setStride\<close> computes for the same box (a
  \<open>CudaFab\<close> built from a \<open>BaseFabData\<close> copies \<open>m_stride\<close> and \<open>m_size\<close> and
  indexes with them). The buffer has \<open>m_ncomp*m_size\<close> elements.
\<close>

definition BaseFab_defined :: "'a BaseFab \<Rightarrow> bool" where
  "BaseFab_defined fab \<longleftrightarrow>
     IntVect_le (m_lo (m_box fab)) (m_hi (m_box fab)) \<and>
     m_stride fab = Box_getStride (m_box fab) \<and>
     m_size fab = Box_size (m_box fab) \<and>
     0 \<le> m_ncomp fab \<and>
     int (length (m_data fab)) = m_ncomp fab * m_size fab"

section \<open>CudaFab\<close>

text \<open>
  The device view. \<open>m_data\<close> is a pointer into device memory, already moved by the
  offset of the box: it is modelled by the address it holds, counted in elements, and
  the memory by a store from addresses to elements.
\<close>

record CudaFab =
  m_box :: Box
  m_stride :: IntVect
  m_ncomp :: int
  m_size :: int
  m_data :: int

text \<open>\<open>CudaFab::setStride\<close>.\<close>

definition CudaFab_setStride :: "'z CudaFab_scheme \<Rightarrow> error + 'z CudaFab_scheme" where
  "CudaFab_setStride fab =
     (let lo = m_lo (m_box fab); hi = m_hi (m_box fab)
      in if \<not> IntVect_le lo hi then Inl AssertionFailed
         else let s0 = 1;
                  s1 = i32 (s0 * i32 (i32 (IntVect_get hi 0 - IntVect_get lo 0) + 1));
                  s2 = i32 (s1 * i32 (i32 (IntVect_get hi 1 - IntVect_get lo 1) + 1));
                  stride = IntVect s0 s1 s2
              in Inr (fab\<lparr>m_stride := stride,
                          m_size := i32 (IntVect_get stride (g_SpaceDim - 1)
                            * i32 (i32 (IntVect_get hi (g_SpaceDim - 1) - IntVect_get lo (g_SpaceDim - 1))
                                     + 1))\<rparr>))"

text \<open>\<open>CudaFab::define(a_alias, a_box, a_ncomp)\<close>.\<close>

definition CudaFab_define :: "int \<Rightarrow> Box \<Rightarrow> int \<Rightarrow> CudaFab \<Rightarrow> error + CudaFab" where
  "CudaFab_define a_alias a_box a_ncomp fab =
     (case CudaFab_setStride (fab\<lparr>m_box := a_box, m_ncomp := a_ncomp\<rparr>) of
        Inl e \<Rightarrow> Inl e
      | Inr fab1 \<Rightarrow> Inr (fab1\<lparr>m_data := a_alias + Box_getOffset (m_box fab1) (m_stride fab1)\<rparr>))"

definition CudaFab_size :: "'z CudaFab_scheme \<Rightarrow> int" where
  "CudaFab_size fab = i32 (m_ncomp fab * m_size fab)"

text \<open>\<open>CudaFab::sizeBytes\<close>: \<open>sizeof(T)\<close> is the parameter \<open>sizeof_T\<close>.\<close>

definition CudaFab_sizeBytes :: "nat \<Rightarrow> 'z CudaFab_scheme \<Rightarrow> 64 word" where
  "CudaFab_sizeBytes sizeof_T fab = word_of_int (CudaFab_size fab) * word_of_nat sizeof_T"

definition CudaFab_index :: "'z CudaFab_scheme \<Rightarrow> IntVect \<Rightarrow> error + int" where
  "CudaFab_index fab a_iv =
     (if \<not> Box_contains (m_box fab) a_iv then Inl AssertionFailed
      else Inr (i32 (i32 (IntVect_get a_iv 0 + i32 (IntVect_get a_iv 1 * IntVect_get (m_stride fab) 1))
                       + i32 (IntVect_get a_iv 2 * IntVect_get (m_stride fab) 2))))"

text \<open>
  \<open>CudaFab::operator()\<close>: the address of the element that
  \<open>m_data[a_icomp*m_size + index(a_iv)]\<close> names.
\<close>

definition CudaFab_ref :: "'z CudaFab_scheme \<Rightarrow> IntVect \<Rightarrow> int \<Rightarrow> error + int" where
  "CudaFab_ref fab a_iv a_icomp =
     (case CudaFab_index fab a_iv of
        Inl e \<Rightarrow> Inl e
      | Inr i \<Rightarrow> Inr (m_data fab + i32 (i32 (a_icomp * m_size fab) + i)))"

text \<open>
  \<open>CudaFab::operator()\<close>, read: the element of the store \<open>mem\<close> at that address.
\<close>

definition CudaFab_at :: "'z CudaFab_scheme \<Rightarrow> (int \<Rightarrow> 'a) \<Rightarrow> IntVect \<Rightarrow> int \<Rightarrow> error + 'a" where
  "CudaFab_at fab mem a_iv a_icomp =
     (case CudaFab_ref fab a_iv a_icomp of Inl e \<Rightarrow> Inl e | Inr s \<Rightarrow> Inr (mem s))"

text \<open>\<open>CudaFab::shift(a_i, a_dir)\<close>: the pointer loses the old offset and gains the new one.\<close>

definition CudaFab_shift :: "int \<Rightarrow> int \<Rightarrow> CudaFab \<Rightarrow> error + CudaFab" where
  "CudaFab_shift a_i a_dir fab =
     (let data1 = m_data fab - Box_getOffset (m_box fab) (m_stride fab)
      in case Box_shift a_i a_dir (m_box fab) of
           Inl e \<Rightarrow> Inl e
         | Inr box1 \<Rightarrow>
             Inr (fab\<lparr>m_box := box1, m_data := data1 + Box_getOffset box1 (m_stride fab)\<rparr>))"

text \<open>The view of a host array on the device, \<open>CudaFab::CudaFab(const BaseFabData&)\<close>,
  with \<open>device\<close> the address of the mirrored buffer.\<close>

definition CudaFab_of_BaseFab :: "int \<Rightarrow> 'a BaseFab \<Rightarrow> CudaFab" where
  "CudaFab_of_BaseFab device a_baseFab =
     \<lparr>m_box = BaseFab.m_box a_baseFab,
      m_stride = BaseFab.m_stride a_baseFab,
      m_ncomp = BaseFab.m_ncomp a_baseFab,
      m_size = BaseFab.m_size a_baseFab,
      m_data = device + Box_getOffset (BaseFab.m_box a_baseFab) (BaseFab.m_stride a_baseFab)\<rparr>"

section \<open>SlabFab\<close>

text \<open>
  The moving window. A thread block of \<open>blockDim\<close> lanes runs each member function;
  lane \<open>threadIdx\<close> is a number below \<open>blockDim\<close>. The object lives in shared
  memory, so its fields are one state for the whole block; the cached elements are in
  a store of their own (\<open>cmem\<close>), the source elements in another (\<open>smem\<close>) that
  the cache never writes. \<open>m_src\<close> is a pointer to a constant \<open>CudaFab\<close>: it is
  modelled by the descriptor it points to, which \<open>deref\<close> reads. \<open>m_pTable\<close> is the
  array of \<open>MxSz\<close> entries, \<open>MxSz\<close> being its length.
\<close>

datatype 'a const_ptr = ConstPtr (deref: 'a)

record SlabFab = CudaFab +
  m_pTable :: "int list"
  m_nrmDir :: int
  m_numPntSlab :: int
  m_numSubBox :: int
  m_compBegSrc :: int
  m_src :: "CudaFab const_ptr"

text \<open>
  What a call does: \<open>None\<close> when it does not return, \<open>Some (Inl e)\<close> when it
  halts with \<open>e\<close>, \<open>Some (Inr s)\<close> when it returns with state \<open>s\<close>.
\<close>

type_synonym 's outcome = "(error + 's) option"

text \<open>
  Between two barriers the lanes write disjoint places and read nothing another lane
  writes in that phase, so the phase is run lane after lane, lowest index first. The
  same iteration runs a \<open>for\<close> loop whose range is known when it starts; it stops
  at the first step that halts or does not return.
\<close>

fun foreach :: "('i \<Rightarrow> 's \<Rightarrow> 's outcome) \<Rightarrow> 'i list \<Rightarrow> 's \<Rightarrow> 's outcome" where
  "foreach f [] s = Some (Inr s)"
| "foreach f (x # xs) s =
     (case f x s of
        None \<Rightarrow> None
      | Some (Inl e) \<Rightarrow> Some (Inl e)
      | Some (Inr s') \<Rightarrow> foreach f xs s')"

text \<open>
  \<open>threadIdx.x\<close> and \<open>blockDim.x\<close> are \<open>unsigned int\<close>. Where the source compares
  one of them with an \<open>int\<close>, the \<open>int\<close> is converted to \<open>unsigned int\<close> first.
  The other way, \<open>blockDim.x\<close> passed as an \<open>int\<close> and \<open>threadIdx.x - a_idxThr0\<close>
  stored in an \<open>int\<close> go through \<open>i32\<close>.
\<close>

definition u32 :: "int \<Rightarrow> int" where
  "u32 i = i mod 4294967296"

text \<open>\<open>SlabFab::numSlab\<close>.\<close>

definition SlabFab_numSlab :: "SlabFab \<Rightarrow> error + int" where
  "SlabFab_numSlab sf =
     (if \<not> inRange (m_nrmDir sf) then Inl OutOfRange
      else Inr (IntVect_get (Box_dimensions (m_box sf)) (m_nrmDir sf)))"

text \<open>
  \<open>SlabFab::index\<close>: the component along \<open>m_nrmDir\<close> goes through the permutation
  table before the strides are applied.
\<close>

definition SlabFab_index :: "SlabFab \<Rightarrow> IntVect \<Rightarrow> error + int" where
  "SlabFab_index sf a_iv =
     (if \<not> Box_contains (m_box sf) a_iv then Inl AssertionFailed
      else if \<not> inRange (m_nrmDir sf) then Inl OutOfRange
      else let k = i32 (IntVect_get a_iv (m_nrmDir sf) - loVect (m_box sf) (m_nrmDir sf))
           in if \<not> (0 \<le> k \<and> k < int (length (m_pTable sf))) then Inl OutOfRange
              else let iv = IntVect_set a_iv (m_nrmDir sf) (m_pTable sf ! nat k)
                   in Inr (i32 (i32 (IntVect_get iv 0 + i32 (IntVect_get iv 1 * IntVect_get (m_stride sf) 1))
                                  + i32 (IntVect_get iv 2 * IntVect_get (m_stride sf) 2))))"

text \<open>\<open>SlabFab::operator()\<close>: the address of the cached element.\<close>

definition SlabFab_ref :: "SlabFab \<Rightarrow> IntVect \<Rightarrow> int \<Rightarrow> error + int" where
  "SlabFab_ref sf a_iv a_icomp =
     (case SlabFab_index sf a_iv of
        Inl e \<Rightarrow> Inl e
      | Inr i \<Rightarrow> Inr (m_data sf + i32 (i32 (a_icomp * m_size sf) + i)))"

text \<open>\<open>SlabFab::operator()\<close>, read: the cached element at that address.\<close>

definition SlabFab_at :: "SlabFab \<Rightarrow> (int \<Rightarrow> 'a) \<Rightarrow> IntVect \<Rightarrow> int \<Rightarrow> error + 'a" where
  "SlabFab_at sf cmem a_iv a_icomp =
     (case SlabFab_ref sf a_iv a_icomp of Inl e \<Rightarrow> Inl e | Inr d \<Rightarrow> Inr (cmem d))"

text \<open>
  \<open>SlabFab::shift(a_i)\<close>, the part one lane runs between the two barriers. \<open>nSlab\<close>
  was read before the first barrier. \<open>normalized\<close> is the value of the lane's own
  \<open>a_i\<close> after \<open>a_i += ((abs(a_i) - 1)/nSlab + 1)*nSlab\<close>. Inside the \<open>if\<close> the
  divisor \<open>nSlab\<close> is not 0.
\<close>

definition normalized :: "int \<Rightarrow> int \<Rightarrow> int" where
  "normalized a_i nSlab = i32 (a_i + i32 (i32 (i32 (i32 \<bar>a_i\<bar> - 1) sdiv nSlab + 1) * nSlab))"

definition shift_lane :: "int \<Rightarrow> int \<Rightarrow> nat \<Rightarrow> SlabFab \<Rightarrow> SlabFab outcome" where
  "shift_lane a_i nSlab threadIdx sf =
     (if int threadIdx < u32 nSlab then
        (case (if threadIdx = 0 then Box_shift a_i (m_nrmDir sf) (m_box sf) else Inr (m_box sf)) of
           Inl e \<Rightarrow> Some (Inl e)
         | Inr box1 \<Rightarrow>
             (let a_i' = normalized a_i nSlab
              in if \<not> threadIdx < length (m_pTable sf) then Some (Inl OutOfRange)
                 else Some (Inr (sf\<lparr>m_box := box1,
                        m_pTable := (m_pTable sf)[threadIdx :=
                          i32 (m_pTable sf ! threadIdx + a_i') smod nSlab]\<rparr>))))
      else Some (Inr sf))"

definition SlabFab_shift :: "nat \<Rightarrow> int \<Rightarrow> SlabFab \<Rightarrow> SlabFab outcome" where
  "SlabFab_shift blockDim a_i sf =
     (if a_i = 0 then Some (Inr sf)
      else case SlabFab_numSlab sf of
             Inl e \<Rightarrow> Some (Inl e)
           | Inr nSlab \<Rightarrow>
               if \<not> int blockDim \<ge> u32 nSlab then Some (Inl AssertionFailed)
               else foreach (shift_lane a_i nSlab) [0..<blockDim] sf)"

text \<open>\<open>SlabFab::selectLoadMethod\<close>.\<close>

definition selectLoadMethod :: "nat \<Rightarrow> int \<Rightarrow> SlabFab \<Rightarrow> error + SlabFab" where
  "selectLoadMethod blockDim a_numThr sf =
     (if int blockDim = u32 a_numThr \<and> int blockDim = u32 (m_numPntSlab sf) then
        Inr (sf\<lparr>m_numSubBox := - 3\<rparr>)
      else if m_numPntSlab sf \<le> a_numThr then
        Inr (sf\<lparr>m_numSubBox := - 2\<rparr>)
      else Inl AssertionFailed)"

text \<open>
  The component loop of \<open>loadSlab\<close>,
  \<open>for (iC = m_compBegSrc; iC != compEndSrc; ++iC) (*this)(a_vecThr, iC) = (*m_src)(a_vecThr, iC)\<close>.
  It ends only when \<open>iC\<close> meets \<open>compEndSrc\<close>.
\<close>

partial_function (option) loadComps ::
  "SlabFab \<Rightarrow> (int \<Rightarrow> 'a) \<Rightarrow> IntVect \<Rightarrow> int \<Rightarrow> int \<Rightarrow> (int \<Rightarrow> 'a) \<Rightarrow> (int \<Rightarrow> 'a) outcome" where
  "loadComps sf smem a_vecThr iC compEndSrc cmem =
     (if iC = compEndSrc then Some (Inr cmem)
      else case CudaFab_ref (deref (m_src sf)) a_vecThr iC of
             Inl e \<Rightarrow> Some (Inl e)
           | Inr s \<Rightarrow>
               (case SlabFab_ref sf a_vecThr iC of
                  Inl e \<Rightarrow> Some (Inl e)
                | Inr d \<Rightarrow> loadComps sf smem a_vecThr (i32 (iC + 1)) compEndSrc (cmem(d := smem s))))"

text \<open>\<open>SlabFab::loadSlab\<close>, as one lane runs it.\<close>

definition loadSlab_lane ::
  "nat \<Rightarrow> SlabFab \<Rightarrow> (int \<Rightarrow> 'a) \<Rightarrow> IntVect \<Rightarrow> int \<Rightarrow> int \<Rightarrow> nat \<Rightarrow> (int \<Rightarrow> 'a) \<Rightarrow> (int \<Rightarrow> 'a) outcome" where
  "loadSlab_lane blockDim sf smem a_vecThr a_idxThr0 a_numThr threadIdx cmem =
     (if \<not> m_numSubBox sf \<noteq> 0 then Some (Inl AssertionFailed)
      else if \<not> inRange (m_nrmDir sf) then Some (Inl OutOfRange)
      else if \<not> (IntVect_get a_vecThr (m_nrmDir sf) \<ge> loVect (m_box sf) (m_nrmDir sf) \<and>
                 IntVect_get a_vecThr (m_nrmDir sf) \<le> hiVect (m_box sf) (m_nrmDir sf))
        then Some (Inl AssertionFailed)
      else if \<not> u32 a_numThr \<le> int blockDim then Some (Inl AssertionFailed)
      else let compEndSrc = i32 (m_compBegSrc sf + m_ncomp sf)
           in if m_numSubBox sf = - 3 then
                (if \<not> int blockDim = u32 a_numThr then Some (Inl AssertionFailed)
                 else loadComps sf smem a_vecThr (m_compBegSrc sf) compEndSrc cmem)
              else if m_numSubBox sf = - 2 then
                (let idxThr = i32 (int threadIdx - a_idxThr0)
                 in if \<not> m_numPntSlab sf \<le> a_numThr then Some (Inl AssertionFailed)
                    else if idxThr \<ge> 0 \<and> idxThr < m_numPntSlab sf then
                      loadComps sf smem a_vecThr (m_compBegSrc sf) compEndSrc cmem
                    else Some (Inr cmem))
              else Some (Inr cmem))"

text \<open>
  \<open>loadSlab\<close> for the block: lane \<open>t\<close> passes its own vector \<open>a_vecThr t\<close>.
\<close>

definition SlabFab_loadSlab ::
  "nat \<Rightarrow> SlabFab \<Rightarrow> (int \<Rightarrow> 'a) \<Rightarrow> (nat \<Rightarrow> IntVect) \<Rightarrow> int \<Rightarrow> int \<Rightarrow> (int \<Rightarrow> 'a) \<Rightarrow> (int \<Rightarrow> 'a) outcome" where
  "SlabFab_loadSlab blockDim sf smem a_vecThr a_idxThr0 a_numThr cmem =
     foreach (\<lambda>t. loadSlab_lane blockDim sf smem (a_vecThr t) a_idxThr0 a_numThr t) [0..<blockDim] cmem"

text \<open>
  The loading loop that \<open>define\<close> and \<open>shift(a_i, a_vecThrLS)\<close> share:
  \<open>for (locND = locNDBeg; locND <= locNDEnd; ++locND)\<close>, in which every lane sets
  the normal component of its vector and calls \<open>loadSlab\<close>. The state is the lanes'
  vectors and the cache store. \<open>loadSlabs_body\<close> is one pass of the body; the loop
  ends when \<open>locND\<close> passes \<open>locNDEnd\<close>.
\<close>

definition setNrm :: "int \<Rightarrow> (nat \<Rightarrow> IntVect) \<Rightarrow> int \<Rightarrow> (nat \<Rightarrow> IntVect)" where
  "setNrm nrmDir a_vec locND = (\<lambda>t. IntVect_set (a_vec t) nrmDir locND)"

definition loadSlabs_body ::
  "nat \<Rightarrow> SlabFab \<Rightarrow> (int \<Rightarrow> 'a) \<Rightarrow> int \<Rightarrow> int
     \<Rightarrow> (nat \<Rightarrow> IntVect) \<times> (int \<Rightarrow> 'a) \<Rightarrow> ((nat \<Rightarrow> IntVect) \<times> (int \<Rightarrow> 'a)) outcome" where
  "loadSlabs_body blockDim sf smem a_numThr locND st =
     (case st of (a_vec, cmem) \<Rightarrow>
        if \<not> inRange (m_nrmDir sf) then Some (Inl OutOfRange)
        else let a_vec' = setNrm (m_nrmDir sf) a_vec locND
             in case SlabFab_loadSlab blockDim sf smem a_vec' 0 a_numThr cmem of
                  None \<Rightarrow> None
                | Some (Inl e) \<Rightarrow> Some (Inl e)
                | Some (Inr cmem') \<Rightarrow> Some (Inr (a_vec', cmem')))"

partial_function (option) loadSlabs ::
  "nat \<Rightarrow> SlabFab \<Rightarrow> (int \<Rightarrow> 'a) \<Rightarrow> int \<Rightarrow> int \<Rightarrow> int
     \<Rightarrow> (nat \<Rightarrow> IntVect) \<times> (int \<Rightarrow> 'a) \<Rightarrow> ((nat \<Rightarrow> IntVect) \<times> (int \<Rightarrow> 'a)) outcome" where
  "loadSlabs blockDim sf smem a_numThr locND locNDEnd st =
     (if locND \<le> locNDEnd then
        (case loadSlabs_body blockDim sf smem a_numThr locND st of
           None \<Rightarrow> None
         | Some (Inl e) \<Rightarrow> Some (Inl e)
         | Some (Inr st') \<Rightarrow> loadSlabs blockDim sf smem a_numThr (i32 (locND + 1)) locNDEnd st')
      else Some (Inr st))"

text \<open>\<open>SlabFab::shift(a_i, a_vecThrLS)\<close>.\<close>

definition SlabFab_shift_load ::
  "nat \<Rightarrow> int \<Rightarrow> (int \<Rightarrow> 'a) \<Rightarrow> SlabFab \<times> (nat \<Rightarrow> IntVect) \<times> (int \<Rightarrow> 'a)
     \<Rightarrow> (SlabFab \<times> (nat \<Rightarrow> IntVect) \<times> (int \<Rightarrow> 'a)) outcome" where
  "SlabFab_shift_load blockDim a_i smem st =
     (case st of (sf, a_vecThrLS, cmem) \<Rightarrow>
        if a_i = 0 then Some (Inr (sf, a_vecThrLS, cmem))
        else case SlabFab_shift blockDim a_i sf of
               None \<Rightarrow> None
             | Some (Inl e) \<Rightarrow> Some (Inl e)
             | Some (Inr sf1) \<Rightarrow>
                 if \<not> inRange (m_nrmDir sf1) then Some (Inl OutOfRange)
                 else let numSlabLoad = i32 \<bar>a_i\<bar>;
                          locNDBeg = (if a_i > 0
                                      then i32 (i32 (hiVect (m_box sf1) (m_nrmDir sf1) - numSlabLoad) + 1)
                                      else loVect (m_box sf1) (m_nrmDir sf1));
                          locNDEnd = (if a_i > 0 then hiVect (m_box sf1) (m_nrmDir sf1)
                                      else i32 (i32 (locNDBeg + numSlabLoad) - 1))
                      in case loadSlabs blockDim sf1 smem (i32 (int blockDim)) locNDBeg locNDEnd
                                (a_vecThrLS, cmem) of
                           None \<Rightarrow> None
                         | Some (Inl e) \<Rightarrow> Some (Inl e)
                         | Some (Inr (a_vec, cmem')) \<Rightarrow> Some (Inr (sf1, a_vec, cmem')))"

text \<open>
  \<open>SlabFab::define\<close>, the part lane 0 runs before the barrier. \<open>this\<close> is the object
  as it was; every field is assigned.
\<close>

definition define_thr0 ::
  "nat \<Rightarrow> SlabFab \<Rightarrow> int \<Rightarrow> Box \<Rightarrow> int \<Rightarrow> int \<Rightarrow> int \<Rightarrow> CudaFab \<Rightarrow> int \<Rightarrow> error + SlabFab" where
  "define_thr0 blockDim this a_alias a_box a_ncomp a_nrmDir a_compBegSrc a_src a_numThrLS =
     (case CudaFab_setStride (this\<lparr>m_box := a_box, m_ncomp := a_ncomp\<rparr>) of
        Inl e \<Rightarrow> Inl e
      | Inr sf1 \<Rightarrow>
          if \<not> inRange a_nrmDir then Inl OutOfRange
          else let lo = IntVect_set (m_lo a_box) a_nrmDir 0;
                   sf2 = sf1\<lparr>m_data := a_alias + vecToLin0 (IntVect_neg lo) (m_stride sf1),
                             m_pTable := map int [0..<length (m_pTable this)],
                             m_nrmDir := a_nrmDir\<rparr>;
                   dims = Box_dimensions a_box;
                   numSlab = IntVect_get dims a_nrmDir
               in if \<not> (numSlab > 1 \<and> numSlab \<le> int (length (m_pTable this))) then Inl AssertionFailed
                  else let sf3 = sf2\<lparr>m_numPntSlab := IntVect_product (IntVect_set dims a_nrmDir 1)\<rparr>
                       in if \<not> u32 a_numThrLS \<le> int blockDim then Inl AssertionFailed
                          else case selectLoadMethod blockDim a_numThrLS sf3 of
                                 Inl e \<Rightarrow> Inl e
                               | Inr sf4 \<Rightarrow>
                                   Inr (sf4\<lparr>m_compBegSrc := a_compBegSrc, m_src := ConstPtr a_src\<rparr>))"

text \<open>After the barrier a lane below \<open>m_numPntSlab\<close> sets its vector from its index.\<close>

definition define_vec_lane :: "SlabFab \<Rightarrow> nat \<Rightarrow> (nat \<Rightarrow> IntVect) \<Rightarrow> (nat \<Rightarrow> IntVect) outcome" where
  "define_vec_lane sf threadIdx a_vecLS =
     (if int threadIdx < u32 (m_numPntSlab sf) then
        (case linToVec_box (m_box sf) (i32 (int threadIdx)) of
           Inl e \<Rightarrow> Some (Inl e)
         | Inr v \<Rightarrow> Some (Inr (a_vecLS(threadIdx := v))))
      else Some (Inr a_vecLS))"

definition SlabFab_define ::
  "nat \<Rightarrow> SlabFab \<Rightarrow> int \<Rightarrow> Box \<Rightarrow> int \<Rightarrow> int \<Rightarrow> int \<Rightarrow> int \<Rightarrow> (nat \<Rightarrow> IntVect) \<Rightarrow> int \<Rightarrow> CudaFab \<Rightarrow> int
     \<Rightarrow> (int \<Rightarrow> 'a) \<Rightarrow> (int \<Rightarrow> 'a) \<Rightarrow> (SlabFab \<times> (nat \<Rightarrow> IntVect) \<times> (int \<Rightarrow> 'a)) outcome" where
  "SlabFab_define blockDim this a_alias a_box a_ncomp a_nrmDir a_locNDBeg a_locNDEnd a_vecLS
       a_compBegSrc a_src a_numThrLS smem cmem =
     (case define_thr0 blockDim this a_alias a_box a_ncomp a_nrmDir a_compBegSrc a_src a_numThrLS of
        Inl e \<Rightarrow> Some (Inl e)
      | Inr sf \<Rightarrow>
          (case foreach (define_vec_lane sf) [0..<blockDim] a_vecLS of
             None \<Rightarrow> None
           | Some (Inl e) \<Rightarrow> Some (Inl e)
           | Some (Inr a_vec1) \<Rightarrow>
               (case loadSlabs blockDim sf smem a_numThrLS a_locNDBeg a_locNDEnd (a_vec1, cmem) of
                  None \<Rightarrow> None
                | Some (Inl e) \<Rightarrow> Some (Inl e)
                | Some (Inr (a_vec2, cmem')) \<Rightarrow> Some (Inr (sf, a_vec2, cmem')))))"

section \<open>States of the window and what a load writes\<close>

text \<open>
  The states that \<open>define\<close> leaves and \<open>shift\<close> keeps: a valid normal axis, an
  ordered region with its strides and size, a depth between 2 and \<open>MxSz\<close>, a slab
  point count that is the product of the other two extents, one of the two loaders,
  and a table whose first \<open>numSlab\<close> entries send the normal coordinate \<open>j\<close> to
  \<open>(j + phase) mod numSlab\<close>. The extents, strides, size and point count are the
  integers; they are what the source computes when the region satisfies \<open>box_fits\<close>.
\<close>

definition depth :: "SlabFab \<Rightarrow> int" where
  "depth sf = IntVect_get (extents (m_box sf)) (m_nrmDir sf)"

definition phase :: "SlabFab \<Rightarrow> int" where
  "phase sf = m_pTable sf ! 0 - loVect (m_box sf) (m_nrmDir sf)"

definition window_ok :: "SlabFab \<Rightarrow> bool" where
  "window_ok sf \<longleftrightarrow>
     inRange (m_nrmDir sf) \<and>
     IntVect_le (m_lo (m_box sf)) (m_hi (m_box sf)) \<and>
     m_stride sf = strides (m_box sf) \<and>
     m_size sf = cells (m_box sf) \<and>
     1 < depth sf \<and> depth sf \<le> int (length (m_pTable sf)) \<and>
     list_all (\<lambda>i. m_pTable sf ! i
                  = (loVect (m_box sf) (m_nrmDir sf) + int i + phase sf) mod depth sf)
       [0..<nat (depth sf)] \<and>
     m_numPntSlab sf = product3 (IntVect_set (extents (m_box sf)) (m_nrmDir sf) 1)"

definition SlabFab_inv :: "SlabFab \<Rightarrow> bool" where
  "SlabFab_inv sf \<longleftrightarrow> window_ok sf \<and> (m_numSubBox sf = - 3 \<or> m_numSubBox sf = - 2)"

text \<open>
  The value of \<open>a_i + ((abs(a_i) - 1)/nSlab + 1)*nSlab\<close> over the integers; what the
  lanes of \<open>shift(a_i)\<close> leave in the table after lanes \<open>0..k-1\<close> have run when
  that value is the one they add, and the state after the whole call.
\<close>

definition normal_shift :: "int \<Rightarrow> int \<Rightarrow> int" where
  "normal_shift a_i nSlab = a_i + ((\<bar>a_i\<bar> - 1) sdiv nSlab + 1) * nSlab"

definition rotated :: "int \<Rightarrow> int \<Rightarrow> nat \<Rightarrow> int list \<Rightarrow> int list" where
  "rotated a_i nSlab k T =
     map (\<lambda>i. if i < k \<and> int i < nSlab then (T ! i + normal_shift a_i nSlab) smod nSlab else T ! i)
       [0..<length T]"

definition shifted :: "int \<Rightarrow> SlabFab \<Rightarrow> SlabFab" where
  "shifted a_i sf =
     sf\<lparr>m_box := \<lparr>m_lo = IntVect_set (m_lo (m_box sf)) (m_nrmDir sf)
                            (loVect (m_box sf) (m_nrmDir sf) + a_i),
                   m_hi = IntVect_set (m_hi (m_box sf)) (m_nrmDir sf)
                            (hiVect (m_box sf) (m_nrmDir sf) + a_i)\<rparr>,
        m_pTable := rotated a_i (depth sf) (nat (depth sf)) (m_pTable sf)\<rparr>"

text \<open>
  A shift that the arithmetic of \<open>shift(a_i)\<close> and of the loading loop can carry:
  \<open>a_i\<close> and \<open>abs(a_i)\<close> are representable, the operand \<open>m_pTable[t] + a_i\<close> of the
  table update does not pass the largest \<open>int\<close>, the moved bounds are representable,
  and the loop counter can pass the last slab. A list of shifts of which each one fits
  the window the ones before it have left.
\<close>

definition shift_fits :: "int \<Rightarrow> SlabFab \<Rightarrow> bool" where
  "shift_fits a_i sf \<longleftrightarrow>
     - 2147483648 < a_i \<and> a_i < 2147483648 \<and>
     normal_shift a_i (depth sf) + depth sf \<le> 2147483648 \<and>
     - 2147483648 \<le> loVect (m_box sf) (m_nrmDir sf) + a_i \<and>
     hiVect (m_box sf) (m_nrmDir sf) + a_i < 2147483647"

fun all_shifts_fit :: "SlabFab \<Rightarrow> int list \<Rightarrow> bool" where
  "all_shifts_fit sf [] \<longleftrightarrow> True"
| "all_shifts_fit sf (a_i # shifts) \<longleftrightarrow>
     (if a_i = 0 then all_shifts_fit sf shifts
      else shift_fits a_i sf \<and> all_shifts_fit (shifted a_i sf) shifts)"

text \<open>
  Where a point of the window is stored, as a zero-based coordinate: relative to the
  low corner along the two axes of the slab, the slot of the table along the normal
  axis. It is a point of the zero-based box of the same extents.
\<close>

definition storage_vec :: "SlabFab \<Rightarrow> IntVect \<Rightarrow> IntVect" where
  "storage_vec sf a_iv =
     IntVect_set (difference a_iv (m_lo (m_box sf))) (m_nrmDir sf)
       (m_pTable sf ! nat (IntVect_get a_iv (m_nrmDir sf) - loVect (m_box sf) (m_nrmDir sf)))"

definition zero_box :: "Box \<Rightarrow> Box" where
  "zero_box b = \<lparr>m_lo = IntVect 0 0 0, m_hi = difference (m_hi b) (m_lo b)\<rparr>"

text \<open>The loader fits a block of \<open>blockDim\<close> lanes, as \<open>selectLoadMethod\<close> chose it.\<close>

definition loader_fits :: "nat \<Rightarrow> SlabFab \<Rightarrow> bool" where
  "loader_fits blockDim sf \<longleftrightarrow>
     blockDim < 2147483648 \<and>
     (if m_numSubBox sf = - 3 then int blockDim = m_numPntSlab sf
      else m_numPntSlab sf \<le> int blockDim)"

text \<open>
  The lanes that copy in \<open>loadSlab\<close>: all of them with the exact-fit loader, those
  with \<open>0 \<le> idxThr < m_numPntSlab\<close> with the over-provisioned one.
\<close>

definition copies :: "SlabFab \<Rightarrow> int \<Rightarrow> nat \<Rightarrow> bool" where
  "copies sf a_idxThr0 threadIdx \<longleftrightarrow>
     m_numSubBox sf = - 3 \<or>
     (m_numSubBox sf = - 2 \<and> i32 (int threadIdx - a_idxThr0) \<ge> 0
        \<and> i32 (int threadIdx - a_idxThr0) < m_numPntSlab sf)"

text \<open>
  What the loading loop needs of the lanes' vectors: for every normal coordinate of
  \<open>locNDs\<close>, the vector of a copying lane, with that normal coordinate, is a point of
  the window and of the source region (\<open>index\<close> asserts both).
\<close>

definition lanes_in :: "nat \<Rightarrow> SlabFab \<Rightarrow> (nat \<Rightarrow> IntVect) \<Rightarrow> int list \<Rightarrow> bool" where
  "lanes_in blockDim sf a_vec locNDs \<longleftrightarrow>
     list_all (\<lambda>t. list_all (\<lambda>locND.
         copies sf 0 t \<longrightarrow>
           Box_contains (m_box sf) (IntVect_set (a_vec t) (m_nrmDir sf) locND) \<and>
           Box_contains (m_box (deref (m_src sf))) (IntVect_set (a_vec t) (m_nrmDir sf) locND))
        locNDs) [0..<blockDim]"

text \<open>
  The normal coordinates that \<open>shift(a_i, a_vecThrLS)\<close> loads, written with the
  bounds of the window before the shift, and the normal coordinates of the slabs
  that leave the window.
\<close>

definition exposed :: "int \<Rightarrow> SlabFab \<Rightarrow> int list" where
  "exposed a_i sf =
     (if a_i > 0 then [hiVect (m_box sf) (m_nrmDir sf) + 1..hiVect (m_box sf) (m_nrmDir sf) + a_i]
      else [loVect (m_box sf) (m_nrmDir sf) + a_i..loVect (m_box sf) (m_nrmDir sf) - 1])"

definition evicted :: "int \<Rightarrow> SlabFab \<Rightarrow> int list" where
  "evicted a_i sf =
     (if a_i > 0 then [loVect (m_box sf) (m_nrmDir sf)..loVect (m_box sf) (m_nrmDir sf) + a_i - 1]
      else [hiVect (m_box sf) (m_nrmDir sf) + a_i + 1..hiVect (m_box sf) (m_nrmDir sf)])"

text \<open>
  The cache agrees with the source at the points the copying lanes name on the
  slabs \<open>locNDs\<close>, for the components a load copies.
\<close>

definition coherent_on ::
  "nat \<Rightarrow> SlabFab \<Rightarrow> (int \<Rightarrow> 'a) \<Rightarrow> (int \<Rightarrow> 'a) \<Rightarrow> (nat \<Rightarrow> IntVect) \<Rightarrow> int list \<Rightarrow> bool" where
  "coherent_on blockDim sf smem cmem a_vec locNDs \<longleftrightarrow>
     list_all (\<lambda>t. list_all (\<lambda>locND. list_all (\<lambda>c.
         copies sf 0 t \<longrightarrow>
           (case (SlabFab_ref sf (IntVect_set (a_vec t) (m_nrmDir sf) locND) c,
                  CudaFab_ref (deref (m_src sf)) (IntVect_set (a_vec t) (m_nrmDir sf) locND) c) of
              (Inr d, Inr s) \<Rightarrow> cmem d = smem s
            | _ \<Rightarrow> False))
        [m_compBegSrc sf..m_compBegSrc sf + m_ncomp sf - 1]) locNDs) [0..<blockDim]"

text \<open>A list of stores, applied first to last.\<close>

definition apply_writes :: "(int \<times> 'a) list \<Rightarrow> (int \<Rightarrow> 'a) \<Rightarrow> (int \<Rightarrow> 'a)" where
  "apply_writes ws cmem = fold (\<lambda>w m. m(fst w := snd w)) ws cmem"

text \<open>
  The address of a cached element and of a source element over the integers, which
  \<open>SlabFab_ref\<close> and \<open>CudaFab_ref\<close> compute when they pass their checks and the
  element offset is representable. \<open>refs_fit\<close> is a condition for that on the
  components a load copies: the first and the one-past-last component are
  representable, and so are the element offsets of the first and of the last element
  of those components, in the cache and in the source (whose strides and size are
  not negative).
\<close>

definition cache_addr :: "SlabFab \<Rightarrow> IntVect \<Rightarrow> int \<Rightarrow> int" where
  "cache_addr sf a_iv a_icomp =
     (let iv = IntVect_set a_iv (m_nrmDir sf)
                 (m_pTable sf ! nat (IntVect_get a_iv (m_nrmDir sf) - loVect (m_box sf) (m_nrmDir sf)))
      in m_data sf + (a_icomp * m_size sf + lin_of iv (m_stride sf)))"

definition src_addr :: "CudaFab \<Rightarrow> IntVect \<Rightarrow> int \<Rightarrow> int" where
  "src_addr fab a_iv a_icomp = m_data fab + (a_icomp * m_size fab + lin_of a_iv (m_stride fab))"

definition refs_fit :: "SlabFab \<Rightarrow> bool" where
  "refs_fit sf \<longleftrightarrow>
     (let cb = m_compBegSrc sf; ce = m_compBegSrc sf + m_ncomp sf;
          base = lin_of (IntVect_set (m_lo (m_box sf)) (m_nrmDir sf) 0) (m_stride sf);
          src = deref (m_src sf)
      in int32 cb \<and> int32 ce \<and>
         int32 (cb * m_size sf + base) \<and> int32 (ce * m_size sf + base - 1) \<and>
         0 \<le> IntVect_get (m_stride src) 1 \<and> 0 \<le> IntVect_get (m_stride src) 2 \<and> 0 \<le> m_size src \<and>
         int32 (cb * m_size src + lin_of (m_lo (m_box src)) (m_stride src)) \<and>
         int32 ((ce - 1) * m_size src + lin_of (m_hi (m_box src)) (m_stride src)))"

text \<open>The stores of one lane in \<open>loadSlab\<close>, of the block, and of the loading loop.\<close>

definition lane_writes :: "SlabFab \<Rightarrow> (int \<Rightarrow> 'a) \<Rightarrow> IntVect \<Rightarrow> (int \<times> 'a) list" where
  "lane_writes sf smem a_vecThr =
     map (\<lambda>c. (cache_addr sf a_vecThr c, smem (src_addr (deref (m_src sf)) a_vecThr c)))
       [m_compBegSrc sf..m_compBegSrc sf + m_ncomp sf - 1]"

definition block_writes ::
  "nat \<Rightarrow> SlabFab \<Rightarrow> (int \<Rightarrow> 'a) \<Rightarrow> (nat \<Rightarrow> IntVect) \<Rightarrow> int \<Rightarrow> (int \<times> 'a) list" where
  "block_writes blockDim sf smem a_vecThr a_idxThr0 =
     concat (map (\<lambda>t. if copies sf a_idxThr0 t then lane_writes sf smem (a_vecThr t) else [])
               [0..<blockDim])"

definition slabs_writes ::
  "nat \<Rightarrow> SlabFab \<Rightarrow> (int \<Rightarrow> 'a) \<Rightarrow> (nat \<Rightarrow> IntVect) \<Rightarrow> int list \<Rightarrow> (int \<times> 'a) list" where
  "slabs_writes blockDim sf smem a_vec locNDs =
     concat (map (\<lambda>locND. block_writes blockDim sf smem (setNrm (m_nrmDir sf) a_vec locND) 0) locNDs)"

text \<open>
  The fields lane 0 of \<open>define\<close> has assigned when it calls \<open>selectLoadMethod\<close>,
  for a region that satisfies \<open>box_fits\<close>.
\<close>

definition define_state :: "SlabFab \<Rightarrow> int \<Rightarrow> Box \<Rightarrow> int \<Rightarrow> int \<Rightarrow> SlabFab" where
  "define_state this a_alias a_box a_ncomp a_nrmDir =
     this\<lparr>m_box := a_box, m_ncomp := a_ncomp, m_stride := strides a_box, m_size := cells a_box,
          m_data := a_alias + vecToLin0 (IntVect_neg (IntVect_set (m_lo a_box) a_nrmDir 0)) (strides a_box),
          m_pTable := map int [0..<length (m_pTable this)],
          m_nrmDir := a_nrmDir,
          m_numPntSlab := product3 (IntVect_set (extents a_box) a_nrmDir 1)\<rparr>"

section \<open>Concrete inputs\<close>

text \<open>The region \<open>[(0,0,0),(3,3,3)]\<close> and the host array of scenario A: one component,
  filled with \<open>0..63\<close> in the order of the buffer.\<close>

definition boxA :: Box where
  "boxA = \<lparr>m_lo = IntVect 0 0 0, m_hi = IntVect 3 3 3\<rparr>"

definition scenarioA :: "int BaseFab" where
  "scenarioA = \<lparr>BaseFab.m_box = boxA, BaseFab.m_stride = IntVect 1 4 16,
     BaseFab.m_ncomp = 1, BaseFab.m_size = 64,
     BaseFab.m_data = map int [0..<64], BaseFab.m_allocBy = AllocBy_array\<rparr>"

text \<open>A host array of one cell and one component.\<close>

definition oneCell :: "int BaseFab" where
  "oneCell = \<lparr>BaseFab.m_box = \<lparr>m_lo = IntVect 0 0 0, m_hi = IntVect 0 0 0\<rparr>,
     BaseFab.m_stride = IntVect 1 1 1, BaseFab.m_ncomp = 1, BaseFab.m_size = 1,
     BaseFab.m_data = [0], BaseFab.m_allocBy = AllocBy_array\<rparr>"

text \<open>
  Scenario B. A window object before \<open>define\<close>, with \<open>MxSz = 6\<close> and no field set
  to anything useful; a source of one component on \<open>[(0,0,0),(1,0,7)]\<close> at address 0;
  the window region \<open>[(0,0,0),(1,0,3)]\<close>, four slabs of two points along axis 2. The
  source store holds \<open>a + 100\<close> at address \<open>a\<close>. \<open>sfB\<close> is the window that
  \<open>define\<close> makes of them for a block of 4 lanes, \<open>vecB\<close> a choice of the lanes'
  vectors: lanes 0 and 1 name the two points of a slab.
\<close>

definition this0 :: SlabFab where
  "this0 = \<lparr>m_box = \<lparr>m_lo = IntVect 1 1 1, m_hi = IntVect 0 0 0\<rparr>, m_stride = IntVect 0 0 0,
     m_ncomp = 0, m_size = 0, m_data = 0, m_pTable = [0, 0, 0, 0, 0, 0], m_nrmDir = 0,
     m_numPntSlab = 0, m_numSubBox = 0, m_compBegSrc = 0,
     m_src = ConstPtr \<lparr>m_box = \<lparr>m_lo = IntVect 1 1 1, m_hi = IntVect 0 0 0\<rparr>, m_stride = IntVect 0 0 0,
     m_ncomp = 0, m_size = 0, m_data = 0\<rparr>\<rparr>"

definition srcB :: CudaFab where
  "srcB = \<lparr>m_box = \<lparr>m_lo = IntVect 0 0 0, m_hi = IntVect 1 0 7\<rparr>, m_stride = IntVect 1 2 2,
     m_ncomp = 1, m_size = 16, m_data = 0\<rparr>"

definition winB :: Box where
  "winB = \<lparr>m_lo = IntVect 0 0 0, m_hi = IntVect 1 0 3\<rparr>"

definition sfB :: SlabFab where
  "sfB = \<lparr>m_box = winB, m_stride = IntVect 1 2 2, m_ncomp = 1, m_size = 8, m_data = 0,
     m_pTable = [0, 1, 2, 3, 4, 5], m_nrmDir = 2, m_numPntSlab = 2, m_numSubBox = - 2,
     m_compBegSrc = 0, m_src = ConstPtr srcB\<rparr>"

definition vecB :: "nat \<Rightarrow> IntVect" where
  "vecB t = IntVect (int t) 0 0"

definition memB :: "int \<Rightarrow> int" where
  "memB a = a + 100"

text \<open>
  \<open>define\<close> in scenario B for a block of 4 lanes, loading the slabs
  \<open>a_locNDBeg..3\<close> into a cache store that holds \<open>-1\<close> everywhere.
\<close>

definition defineB :: "int \<Rightarrow> (SlabFab \<times> (nat \<Rightarrow> IntVect) \<times> (int \<Rightarrow> int)) outcome" where
  "defineB a_locNDBeg =
     SlabFab_define 4 this0 0 winB 1 2 a_locNDBeg 3 (\<lambda>_. IntVect 0 0 0) 0 srcB 4 memB (\<lambda>_. - 1)"

text \<open>
  Scenario C. The window region \<open>[(0,0,0),(1,0,1)]\<close> with normal axis 0: two slabs of
  two points, \<open>(x,0,0)\<close> and \<open>(x,0,1)\<close>. The source is on \<open>[(0,0,0),(3,0,1)]\<close>.
  \<open>define\<close> runs in a block of 2 lanes and loads both slabs into a cache store that
  holds \<open>-1\<close> everywhere.
\<close>

definition winC :: Box where
  "winC = \<lparr>m_lo = IntVect 0 0 0, m_hi = IntVect 1 0 1\<rparr>"

definition srcC :: CudaFab where
  "srcC = \<lparr>m_box = \<lparr>m_lo = IntVect 0 0 0, m_hi = IntVect 3 0 1\<rparr>, m_stride = IntVect 1 4 4,
     m_ncomp = 1, m_size = 8, m_data = 0\<rparr>"

definition defineC :: "(SlabFab \<times> (nat \<Rightarrow> IntVect) \<times> (int \<Rightarrow> int)) outcome" where
  "defineC =
     SlabFab_define 2 this0 0 winC 1 0 0 1 (\<lambda>_. IntVect 0 0 0) 0 srcC 2 memB (\<lambda>_. - 1)"

section \<open>Arithmetic\<close>

lemma IntVect_obtain: obtains i0 i1 i2 where "v = IntVect i0 i1 i2"
  by (cases v) blast

lemma inRange_cases: "inRange d \<Longrightarrow> d = 0 \<or> d = 1 \<or> d = 2"
  by (auto simp: inRange_def g_SpaceDim_def)

lemma sdiv_nonneg: "0 \<le> a \<Longrightarrow> 0 < b \<Longrightarrow> a sdiv b = a div (b::int)"
  by (simp add: signed_divide_int_def sgn_if)

lemma smod_nonneg: "0 \<le> a \<Longrightarrow> 0 < b \<Longrightarrow> a smod b = a mod (b::int)"
  by (simp add: signed_modulo_int_def sgn_if)

lemma digit_div:
  fixes a b d :: int
  assumes "0 \<le> a" "a < d"
  shows "(a + b * d) div d = b"
  using assms by (simp add: div_pos_pos_trivial)

lemma int_div_less:
  fixes n k d :: int
  assumes "0 < k" "n < d * k"
  shows "n div k < d"
proof -
  have "n div k * k + n mod k = n" by simp
  moreover have "0 \<le> n mod k" using assms(1) by simp
  ultimately have "n div k * k < d * k" using assms(2) by linarith
  then show ?thesis using assms(1) by (simp add: mult_less_cancel_right)
qed

lemma two_digits_less:
  fixes a b d e :: int
  assumes "a < d" "0 \<le> b" "b < e" "0 < d"
  shows "a + b * d < d * e"
proof -
  have "b + 1 \<le> e" using assms by simp
  then have "(b + 1) * d \<le> e * d" using assms by (simp add: mult_right_mono)
  then show ?thesis using assms by (simp add: algebra_simps)
qed

section \<open>Wrapped arithmetic\<close>

text \<open>
  \<open>i32\<close> is the identity on the representable values and commutes with \<open>+\<close>, \<open>-\<close>
  and \<open>*\<close>: a nest of wrapped operations is the wrap of the integer expression.
\<close>

lemma i32_id: "int32 x \<Longrightarrow> i32 x = x"
  by (simp add: i32_def int32_def)

lemma int32_i32: "int32 (i32 x)"
proof -
  have "0 \<le> (x + 2147483648) mod 4294967296" "(x + 2147483648) mod 4294967296 < 4294967296"
    by simp_all
  then show ?thesis unfolding i32_def int32_def by linarith
qed

lemma i32_mod: "i32 a mod 4294967296 = a mod 4294967296"
proof -
  have "i32 a mod 4294967296 = (a + 2147483648 - 2147483648) mod 4294967296"
    unfolding i32_def by (rule mod_diff_left_eq)
  then show ?thesis by simp
qed

lemma i32_cong: "a mod 4294967296 = b mod 4294967296 \<Longrightarrow> i32 a = i32 b"
proof -
  assume "a mod 4294967296 = b mod 4294967296"
  then have "(a + 2147483648) mod 4294967296 = (b + 2147483648) mod 4294967296"
    by (rule mod_add_cong) simp
  then show ?thesis by (simp add: i32_def)
qed

lemma i32_i32: "i32 (i32 a) = i32 a"
  by (rule i32_cong) (rule i32_mod)

lemma i32_add_left: "i32 (i32 a + b) = i32 (a + b)"
  by (rule i32_cong) (rule mod_add_cong[OF i32_mod refl])

lemma i32_add_right: "i32 (a + i32 b) = i32 (a + b)"
  by (rule i32_cong) (rule mod_add_cong[OF refl i32_mod])

lemma i32_diff_left: "i32 (i32 a - b) = i32 (a - b)"
  by (rule i32_cong) (rule mod_diff_cong[OF i32_mod refl])

lemma i32_diff_right: "i32 (a - i32 b) = i32 (a - b)"
  by (rule i32_cong) (rule mod_diff_cong[OF refl i32_mod])

lemma i32_mult_left: "i32 (i32 a * b) = i32 (a * b)"
  by (rule i32_cong) (rule mod_mult_cong[OF i32_mod refl])

lemma i32_mult_right: "i32 (a * i32 b) = i32 (a * b)"
  by (rule i32_cong) (rule mod_mult_cong[OF refl i32_mod])

lemma i32_minus: "i32 (- i32 a) = i32 (- a)"
  using i32_diff_right[of 0 a] by simp

lemmas i32_simps = i32_i32 i32_add_left i32_add_right i32_diff_left i32_diff_right
  i32_mult_left i32_mult_right i32_minus

lemma i32_eq: "int32 e \<Longrightarrow> x = e \<Longrightarrow> i32 x = e"
  by (simp add: i32_id)

lemma int32_between: "int32 l \<Longrightarrow> int32 h \<Longrightarrow> l \<le> x \<Longrightarrow> x \<le> h \<Longrightarrow> int32 x"
  by (simp add: int32_def)

section \<open>Linear indices of a box\<close>

text \<open>The linear index of a point relative to the low corner lies in \<open>[0, size)\<close>.\<close>

lemma rel_lin_range:
  assumes le: "IntVect_le (m_lo b) (m_hi b)" and c: "Box_contains b v"
  shows "0 \<le> lin_of (difference v (m_lo b)) (strides b)
       \<and> lin_of (difference v (m_lo b)) (strides b) < cells b"
proof -
  obtain l0 l1 l2 where lo: "m_lo b = IntVect l0 l1 l2" by (rule IntVect_obtain)
  obtain h0 h1 h2 where hi: "m_hi b = IntVect h0 h1 h2" by (rule IntVect_obtain)
  obtain v0 v1 v2 where v: "v = IntVect v0 v1 v2" by (rule IntVect_obtain)
  define d0 where "d0 = h0 - l0 + 1"
  define d1 where "d1 = h1 - l1 + 1"
  define d2 where "d2 = h2 - l2 + 1"
  define a0 where "a0 = v0 - l0"
  define a1 where "a1 = v1 - l1"
  define a2 where "a2 = v2 - l2"
  have pos: "0 < d0" "0 < d1" "0 < d2" using le lo hi by (simp_all add: d0_def d1_def d2_def)
  have rng: "0 \<le> a0" "a0 < d0" "0 \<le> a1" "a1 < d1" "0 \<le> a2" "a2 < d2"
    using c by (simp_all add: Box_contains_def lo hi v a0_def a1_def a2_def d0_def d1_def d2_def)
  have lin: "lin_of (difference v (m_lo b)) (strides b) = a0 + a1 * d0 + a2 * (d0 * d1)"
    by (simp add: lin_of_def strides_def hiVect_def loVect_def lo hi v
        a0_def a1_def a2_def d0_def d1_def Let_def)
  have sz: "cells b = d0 * d1 * d2"
    by (simp add: cells_def hiVect_def loVect_def lo hi d0_def d1_def d2_def)
  have r: "a0 + a1 * d0 < d0 * d1" using rng pos by (simp add: two_digits_less)
  have "0 < d0 * d1" using pos by simp
  then have up: "(a0 + a1 * d0) + a2 * (d0 * d1) < (d0 * d1) * d2"
    using r rng by (simp add: two_digits_less)
  have "0 \<le> a1 * d0" "0 \<le> a2 * (d0 * d1)" using rng pos by simp_all
  then have "0 \<le> a0 + a1 * d0 + a2 * (d0 * d1)" using rng by linarith
  then show ?thesis using up lin sz by simp
qed

lemma lin0_plus_offset:
  "lin_of v (strides b) + offset_of b (strides b)
     = lin_of (difference v (m_lo b)) (strides b)"
proof -
  obtain l0 l1 l2 where lo: "m_lo b = IntVect l0 l1 l2" by (rule IntVect_obtain)
  obtain v0 v1 v2 where v: "v = IntVect v0 v1 v2" by (rule IntVect_obtain)
  obtain s0 s1 s2 where s: "strides b = IntVect s0 s1 s2" by (rule IntVect_obtain)
  show ?thesis by (simp add: lin_of_def offset_of_def lo v s algebra_simps)
qed

text \<open>\<open>unlin\<close> of an index in \<open>[0, size)\<close> is a point of the box with that index.\<close>

lemma unlin_in_box:
  assumes le: "IntVect_le (m_lo b) (m_hi b)" and n: "0 \<le> n" "n < cells b"
  shows "\<exists>v. unlin b n (strides b) = Inr v \<and> Box_contains b v \<and>
             lin_of v (strides b) + offset_of b (strides b) = n"
proof -
  obtain l0 l1 l2 where lo: "m_lo b = IntVect l0 l1 l2" by (rule IntVect_obtain)
  obtain h0 h1 h2 where hi: "m_hi b = IntVect h0 h1 h2" by (rule IntVect_obtain)
  define d0 where "d0 = h0 - l0 + 1"
  define d1 where "d1 = h1 - l1 + 1"
  define d2 where "d2 = h2 - l2 + 1"
  have pos: "0 < d0" "0 < d1" "0 < d2" using le lo hi by (simp_all add: d0_def d1_def d2_def)
  have pos01: "0 < d0 * d1" using pos by simp
  have sz: "cells b = d0 * d1 * d2"
    by (simp add: cells_def hiVect_def loVect_def lo hi d0_def d1_def d2_def)
  have str: "strides b = IntVect 1 d0 (d0 * d1)"
    by (simp add: strides_def hiVect_def loVect_def lo hi d0_def d1_def Let_def)
  define q2 where "q2 = n div (d0 * d1)"
  define r where "r = n mod (d0 * d1)"
  define q1 where "q1 = r div d0"
  define r0 where "r0 = r mod d0"
  have nq: "n = r + q2 * (d0 * d1)" unfolding q2_def r_def by (rule mod_div_mult_eq[symmetric])
  have rq: "r = r0 + q1 * d0" unfolding q1_def r0_def by (rule mod_div_mult_eq[symmetric])
  have r_rng: "0 \<le> r" "r < d0 * d1" using pos01 by (simp_all add: r_def)
  have "n < d2 * (d0 * d1)" using n sz by (simp add: mult.commute)
  then have q2_rng: "0 \<le> q2" "q2 < d2"
    using n pos01 by (simp_all add: q2_def pos_imp_zdiv_nonneg_iff int_div_less)
  have q1_rng: "0 \<le> q1" "q1 < d1"
    using r_rng pos by (simp_all add: q1_def pos_imp_zdiv_nonneg_iff int_div_less mult.commute)
  have r0_rng: "0 \<le> r0" "r0 < d0" using pos by (simp_all add: r0_def)
  have s2: "n sdiv (d0 * d1) = q2" using n pos01 by (simp add: sdiv_nonneg q2_def)
  have lin1: "n - q2 * (d0 * d1) = r" using nq by simp
  have s1: "r sdiv d0 = q1" using r_rng pos by (simp add: sdiv_nonneg q1_def)
  have lin0: "r - q1 * d0 = r0" using rq by simp
  have res: "unlin b n (strides b) = Inr (IntVect (r0 + l0) (q1 + l1) (q2 + l2))"
    using pos pos01 by (simp add: unlin_def str Let_def s2 lin1 s1 lin0 loVect_def lo)
  have cont: "Box_contains b (IntVect (r0 + l0) (q1 + l1) (q2 + l2))"
    using q2_rng q1_rng r0_rng by (simp add: Box_contains_def lo hi d0_def d1_def d2_def)
  have rt: "lin_of (IntVect (r0 + l0) (q1 + l1) (q2 + l2)) (strides b)
                 + offset_of b (strides b) = n"
    by (simp add: lin_of_def offset_of_def str lo nq rq algebra_simps)
  show ?thesis using res cont rt by blast
qed

text \<open>\<open>unlin\<close> undoes \<open>lin_of\<close> plus the offset on the points of the box.\<close>

lemma unlin_of_lin:
  assumes le: "IntVect_le (m_lo b) (m_hi b)" and c: "Box_contains b v"
  shows "unlin b (lin_of v (strides b) + offset_of b (strides b))
           (strides b) = Inr v"
proof -
  obtain l0 l1 l2 where lo: "m_lo b = IntVect l0 l1 l2" by (rule IntVect_obtain)
  obtain h0 h1 h2 where hi: "m_hi b = IntVect h0 h1 h2" by (rule IntVect_obtain)
  obtain v0 v1 v2 where v: "v = IntVect v0 v1 v2" by (rule IntVect_obtain)
  define d0 where "d0 = h0 - l0 + 1"
  define d1 where "d1 = h1 - l1 + 1"
  define a0 where "a0 = v0 - l0"
  define a1 where "a1 = v1 - l1"
  define a2 where "a2 = v2 - l2"
  have pos: "0 < d0" "0 < d1" using le lo hi by (simp_all add: d0_def d1_def)
  have pos01: "0 < d0 * d1" using pos by simp
  have rng: "0 \<le> a0" "a0 < d0" "0 \<le> a1" "a1 < d1" "0 \<le> a2"
    using c by (simp_all add: Box_contains_def lo hi v a0_def a1_def a2_def d0_def d1_def)
  have str: "strides b = IntVect 1 d0 (d0 * d1)"
    by (simp add: strides_def hiVect_def loVect_def lo hi d0_def d1_def Let_def)
  define r where "r = a0 + a1 * d0"
  have r_rng: "0 \<le> r" "r < d0 * d1" using rng pos by (simp_all add: r_def two_digits_less)
  define n where "n = r + a2 * (d0 * d1)"
  have n_eq: "lin_of v (strides b) + offset_of b (strides b) = n"
    by (simp add: lin_of_def offset_of_def str lo v n_def r_def a0_def a1_def a2_def
        algebra_simps)
  have n0: "0 \<le> n" using r_rng rng pos01 by (simp add: n_def)
  have q2: "n div (d0 * d1) = a2" unfolding n_def using r_rng by (rule digit_div)
  have q1: "r div d0 = a1" unfolding r_def using rng(1,2) by (rule digit_div)
  have s2: "n sdiv (d0 * d1) = a2" using n0 pos01 q2 by (simp add: sdiv_nonneg)
  have lin1: "n - a2 * (d0 * d1) = r" by (simp add: n_def)
  have s1: "r sdiv d0 = a1" using r_rng pos q1 by (simp add: sdiv_nonneg)
  have lin0: "r - a1 * d0 = a0" by (simp add: r_def)
  have veq: "v = IntVect (a0 + l0) (a1 + l1) (a2 + l2)" by (simp add: v a0_def a1_def a2_def)
  have "unlin b n (strides b) = Inr (IntVect (a0 + l0) (a1 + l1) (a2 + l2))"
    using pos pos01 by (simp add: unlin_def str Let_def s2 lin1 s1 lin0 loVect_def lo)
  then show ?thesis using veq n_eq by simp
qed

section \<open>Boxes whose arithmetic does not wrap\<close>

text \<open>
  On an ordered box with a representable number of cells the functions of the source
  compute the extents, the strides and the size; \<open>vecToLin0\<close> and \<open>getOffset\<close> always
  compute the wrap of the integer index.
\<close>

lemma extents_pos:
  assumes le: "IntVect_le (m_lo b) (m_hi b)"
  shows "1 \<le> hiVect b 0 - loVect b 0 + 1" "1 \<le> hiVect b 1 - loVect b 1 + 1"
    "1 \<le> hiVect b 2 - loVect b 2 + 1"
proof -
  obtain l0 l1 l2 where lo: "m_lo b = IntVect l0 l1 l2" by (rule IntVect_obtain)
  obtain h0 h1 h2 where hi: "m_hi b = IntVect h0 h1 h2" by (rule IntVect_obtain)
  show "1 \<le> hiVect b 0 - loVect b 0 + 1" "1 \<le> hiVect b 1 - loVect b 1 + 1"
    "1 \<le> hiVect b 2 - loVect b 2 + 1"
    using le by (simp_all add: lo hi hiVect_def loVect_def)
qed

lemma prod_le_left:
  fixes a b :: int
  assumes "1 \<le> a" "1 \<le> b"
  shows "a \<le> a * b" "b \<le> a * b" "1 \<le> a * b"
proof -
  show "a \<le> a * b" using mult_left_mono[of 1 b a] assms by simp
  show "b \<le> a * b" using mult_right_mono[of 1 a b] assms by simp
  then show "1 \<le> a * b" using assms by linarith
qed

lemma extents_small:
  assumes le: "IntVect_le (m_lo b) (m_hi b)" and sz: "cells b < 2147483648"
  shows "hiVect b 0 - loVect b 0 + 1 < 2147483648" "hiVect b 1 - loVect b 1 + 1 < 2147483648"
    "hiVect b 2 - loVect b 2 + 1 < 2147483648"
    "(hiVect b 0 - loVect b 0 + 1) * (hiVect b 1 - loVect b 1 + 1) < 2147483648"
proof -
  define d0 where "d0 = hiVect b 0 - loVect b 0 + 1"
  define d1 where "d1 = hiVect b 1 - loVect b 1 + 1"
  define d2 where "d2 = hiVect b 2 - loVect b 2 + 1"
  have p: "1 \<le> d0" "1 \<le> d1" "1 \<le> d2" using extents_pos[OF le] by (simp_all add: d0_def d1_def d2_def)
  have c: "d0 * d1 * d2 < 2147483648" using sz by (simp add: cells_def d0_def d1_def d2_def)
  have p01: "1 \<le> d0 * d1" using p by (simp add: prod_le_left)
  have a: "d0 * d1 \<le> d0 * d1 * d2" "d2 \<le> d0 * d1 * d2" using prod_le_left[OF p01 p(3)] by simp_all
  have b: "d0 \<le> d0 * d1" "d1 \<le> d0 * d1" using prod_le_left[OF p(1,2)] by simp_all
  show "hiVect b 0 - loVect b 0 + 1 < 2147483648" "hiVect b 1 - loVect b 1 + 1 < 2147483648"
    "hiVect b 2 - loVect b 2 + 1 < 2147483648"
    "(hiVect b 0 - loVect b 0 + 1) * (hiVect b 1 - loVect b 1 + 1) < 2147483648"
    using a b c unfolding d0_def[symmetric] d1_def[symmetric] d2_def[symmetric] by linarith+
qed

lemma extent_exact:
  assumes le: "IntVect_le (m_lo b) (m_hi b)" and sz: "cells b < 2147483648"
  shows "extent b 0 = hiVect b 0 - loVect b 0 + 1" "extent b 1 = hiVect b 1 - loVect b 1 + 1"
    "extent b 2 = hiVect b 2 - loVect b 2 + 1"
  using extents_pos[OF le] extents_small[OF le sz]
  by (simp_all add: extent_def i32_simps i32_id int32_def)

lemma Box_exact:
  assumes le: "IntVect_le (m_lo b) (m_hi b)" and sz: "cells b < 2147483648"
  shows "Box_dimensions b = extents b" "Box_getStride b = strides b" "Box_size b = cells b"
proof -
  note e = extent_exact[OF le sz]
  note p = extents_pos[OF le]
  note s = extents_small[OF le sz]
  have p01: "1 \<le> (hiVect b 0 - loVect b 0 + 1) * (hiVect b 1 - loVect b 1 + 1)"
    using p by (simp add: prod_le_left)
  have c: "1 \<le> cells b" unfolding cells_def using prod_le_left(3)[OF p01 p(3)] .
  show "Box_dimensions b = extents b" by (simp add: Box_dimensions_def extents_def e)
  have i0: "int32 (hiVect b 0 - loVect b 0 + 1)" using p s by (simp add: int32_def)
  have i1: "int32 ((hiVect b 0 - loVect b 0 + 1) * (hiVect b 1 - loVect b 1 + 1))"
    using p01 s by (simp add: int32_def)
  show "Box_getStride b = strides b"
    by (simp add: Box_getStride_def strides_def e Let_def i32_id[OF i0] i32_id[OF i1])
  have i2: "int32 (cells b)" using c sz by (simp add: int32_def)
  show "Box_size b = cells b"
    using i2 by (simp add: Box_size_def e i32_id[OF i1] i32_id cells_def)
qed

lemma vecToLin0_wrap: "vecToLin0 v s = i32 (lin_of v s)"
  by (simp add: vecToLin0_def lin_of_def i32_simps)

lemma Box_getOffset_wrap: "Box_getOffset b s = i32 (offset_of b s)"
proof -
  obtain l0 l1 l2 where lo: "m_lo b = IntVect l0 l1 l2" by (rule IntVect_obtain)
  show ?thesis
    by (simp add: Box_getOffset_def offset_of_def vecToLin0_def lin_of_def lo i32_simps)
qed

lemma contained_fits:
  assumes f: "box_fits b" and c: "Box_contains b v" and d: "inRange d"
  shows "int32 (IntVect_get v d)"
proof -
  obtain l0 l1 l2 where lo: "m_lo b = IntVect l0 l1 l2" by (rule IntVect_obtain)
  obtain h0 h1 h2 where hi: "m_hi b = IntVect h0 h1 h2" by (rule IntVect_obtain)
  obtain v0 v1 v2 where v: "v = IntVect v0 v1 v2" by (rule IntVect_obtain)
  from d have "d = 0 \<or> d = 1 \<or> d = 2" by (rule inRange_cases)
  then show ?thesis using f c by (auto simp: box_fits_def Box_contains_def lo hi v int32_def)
qed

text \<open>\<open>linToVec\<close> of an index in \<open>[0, size)\<close> is what it is over the integers.\<close>

lemma linToVec_unlin:
  assumes le: "IntVect_le (m_lo b) (m_hi b)" and f: "box_fits b" and n: "0 \<le> n" "n < cells b"
  shows "linToVec b n (strides b) = unlin b n (strides b)"
proof -
  obtain l0 l1 l2 where lo: "m_lo b = IntVect l0 l1 l2" by (rule IntVect_obtain)
  obtain h0 h1 h2 where hi: "m_hi b = IntVect h0 h1 h2" by (rule IntVect_obtain)
  define d0 where "d0 = h0 - l0 + 1"
  define d1 where "d1 = h1 - l1 + 1"
  define d2 where "d2 = h2 - l2 + 1"
  have pos: "0 < d0" "0 < d1" "0 < d2" using le lo hi by (simp_all add: d0_def d1_def d2_def)
  have pos01: "0 < d0 * d1" using pos by simp
  have sz: "cells b = d0 * d1 * d2"
    by (simp add: cells_def hiVect_def loVect_def lo hi d0_def d1_def d2_def)
  have str: "strides b = IntVect 1 d0 (d0 * d1)"
    by (simp add: strides_def hiVect_def loVect_def lo hi d0_def d1_def Let_def)
  have big: "cells b < 2147483648" using f by (simp add: box_fits_def)
  have lh: "int32 l0" "int32 l1" "int32 l2" "int32 h0" "int32 h1" "int32 h2"
    using f by (simp_all add: box_fits_def lo hi)
  define q2 where "q2 = n div (d0 * d1)"
  define r where "r = n mod (d0 * d1)"
  define q1 where "q1 = r div d0"
  define r0 where "r0 = r mod d0"
  have nq: "n = r + q2 * (d0 * d1)" unfolding q2_def r_def by (rule mod_div_mult_eq[symmetric])
  have rq: "r = r0 + q1 * d0" unfolding q1_def r0_def by (rule mod_div_mult_eq[symmetric])
  have r_rng: "0 \<le> r" "r < d0 * d1" using pos01 by (simp_all add: r_def)
  have "n < d2 * (d0 * d1)" using n sz by (simp add: mult.commute)
  then have q2_rng: "0 \<le> q2" "q2 < d2"
    using n pos01 by (simp_all add: q2_def pos_imp_zdiv_nonneg_iff int_div_less)
  have q1_rng: "0 \<le> q1" "q1 < d1"
    using r_rng pos by (simp_all add: q1_def pos_imp_zdiv_nonneg_iff int_div_less mult.commute)
  have r0_rng: "0 \<le> r0" "r0 < d0" using pos by (simp_all add: r0_def)
  have s2: "n sdiv (d0 * d1) = q2" using n pos01 by (simp add: sdiv_nonneg q2_def)
  have lin1: "n - q2 * (d0 * d1) = r" using nq by simp
  have s1: "r sdiv d0 = q1" using r_rng pos by (simp add: sdiv_nonneg q1_def)
  have lin0: "r - q1 * d0 = r0" using rq by simp
  have nb: "n < 2147483648" using n big by simp
  have rle: "r \<le> n" unfolding r_def using n(1) pos01 by (simp add: zmod_le_nonneg_dividend)
  have r0le: "r0 \<le> r" unfolding r0_def using r_rng(1) pos by (simp add: zmod_le_nonneg_dividend)
  have "q2 * 1 \<le> q2 * (d0 * d1)" using q2_rng(1) pos01 by (intro mult_left_mono) simp_all
  then have q2le: "q2 \<le> n" using nq r_rng(1) by simp
  have "q1 * 1 \<le> q1 * d0" using q1_rng(1) pos(1) by (intro mult_left_mono) simp_all
  then have q1le: "q1 \<le> r" using rq r0_rng(1) by simp
  have w2: "i32 q2 = q2" using q2_rng q2le nb by (intro i32_id) (simp add: int32_def)
  have v2: "i32 (q2 + l2) = q2 + l2" using q2_rng lh by (intro i32_id) (simp add: int32_def d2_def)
  have wr: "i32 r = r" using r_rng rle nb by (intro i32_id) (simp add: int32_def)
  have w1: "i32 q1 = q1" using q1_rng q1le rle nb by (intro i32_id) (simp add: int32_def)
  have v1: "i32 (q1 + l1) = q1 + l1" using q1_rng lh by (intro i32_id) (simp add: int32_def d1_def)
  have wr0: "i32 r0 = r0" using r0_rng r0le rle nb by (intro i32_id) (simp add: int32_def)
  have v0: "i32 (r0 + l0) = r0 + l0" using r0_rng lh by (intro i32_id) (simp add: int32_def d0_def)
  have "linToVec b n (strides b) = Inr (IntVect (r0 + l0) (q1 + l1) (q2 + l2))"
    using pos pos01
    by (simp add: linToVec_def str Let_def s2 w2 i32_simps lin1 wr s1 w1 lin0 wr0 v0 v1 v2 loVect_def lo)
  moreover have "unlin b n (strides b) = Inr (IntVect (r0 + l0) (q1 + l1) (q2 + l2))"
    using pos pos01 by (simp add: unlin_def str Let_def s2 lin1 s1 lin0 loVect_def lo)
  ultimately show ?thesis by simp
qed

section \<open>Claims about Box\<close>

text \<open>
  C1. In a region with \<open>lo \<le> hi\<close> whose bounds and number of cells are representable,
  \<open>linToVec\<close> turns every flat index \<open>n\<close> of \<open>[0, size)\<close> into a point of the region
  from which \<open>vecToLin0\<close>, with the region's strides and the offset of its low corner
  added, gives \<open>n\<close> again; and for every point of the region, \<open>linToVec\<close> of its flat
  index is the point. The functions are those of the source, with 32-bit arithmetic.
\<close>

theorem linToVec_vecToLin0_roundtrip:
  assumes "IntVect_le (m_lo b) (m_hi b)" and "box_fits b"
  shows "(\<forall>n. 0 \<le> n \<and> n < Box_size b \<longrightarrow>
            (\<exists>v. linToVec b n (Box_getStride b) = Inr v \<and> Box_contains b v \<and>
                 i32 (vecToLin0 v (Box_getStride b) + Box_getOffset b (Box_getStride b)) = n)) \<and>
         (\<forall>v. Box_contains b v \<longrightarrow>
            0 \<le> i32 (vecToLin0 v (Box_getStride b) + Box_getOffset b (Box_getStride b)) \<and>
            i32 (vecToLin0 v (Box_getStride b) + Box_getOffset b (Box_getStride b)) < Box_size b \<and>
            linToVec b (i32 (vecToLin0 v (Box_getStride b) + Box_getOffset b (Box_getStride b)))
              (Box_getStride b) = Inr v)"
proof -
  note le = assms(1)
  have sz: "cells b < 2147483648" using assms(2) by (simp add: box_fits_def)
  note ex = Box_exact[OF le sz]
  have w: "i32 (vecToLin0 v (strides b) + Box_getOffset b (strides b))
             = i32 (lin_of (difference v (m_lo b)) (strides b))" for v
    by (simp add: vecToLin0_wrap Box_getOffset_wrap i32_simps lin0_plus_offset)
  have a: "\<exists>v. linToVec b n (strides b) = Inr v \<and> Box_contains b v \<and>
                 i32 (vecToLin0 v (strides b) + Box_getOffset b (strides b)) = n"
    if n: "0 \<le> n" "n < cells b" for n
  proof -
    obtain v where v: "unlin b n (strides b) = Inr v" "Box_contains b v"
       "lin_of v (strides b) + offset_of b (strides b) = n"
      using unlin_in_box[OF le n] by blast
    have "int32 n" using n sz by (simp add: int32_def)
    then have "i32 (vecToLin0 v (strides b) + Box_getOffset b (strides b)) = n"
      using v(3) by (simp add: vecToLin0_wrap Box_getOffset_wrap i32_simps i32_id)
    then show ?thesis using v linToVec_unlin[OF le assms(2) n] by simp
  qed
  have b: "0 \<le> i32 (vecToLin0 v (strides b) + Box_getOffset b (strides b)) \<and>
            i32 (vecToLin0 v (strides b) + Box_getOffset b (strides b)) < cells b \<and>
            linToVec b (i32 (vecToLin0 v (strides b) + Box_getOffset b (strides b)))
              (strides b) = Inr v"
    if c: "Box_contains b v" for v
  proof -
    note r = rel_lin_range[OF le c]
    have "int32 (lin_of (difference v (m_lo b)) (strides b))" using r sz by (simp add: int32_def)
    then have e: "i32 (vecToLin0 v (strides b) + Box_getOffset b (strides b))
                   = lin_of v (strides b) + offset_of b (strides b)"
      by (simp add: w i32_id lin0_plus_offset)
    have r': "0 \<le> lin_of v (strides b) + offset_of b (strides b)"
         "lin_of v (strides b) + offset_of b (strides b) < cells b"
      using r by (simp_all add: lin0_plus_offset)
    show ?thesis
      unfolding e using r' linToVec_unlin[OF le assms(2) r'] unlin_of_lin[OF le c] by simp
  qed
  show ?thesis unfolding ex using a b by blast
qed

theorem linToVec_vecToLin0_roundtrip_witness:
  "IntVect_le (m_lo boxA) (m_hi boxA) \<and> box_fits boxA \<and>
   (\<exists>v. linToVec boxA 6 (Box_getStride boxA) = Inr v \<and> Box_contains boxA v \<and>
        i32 (vecToLin0 v (Box_getStride boxA) + Box_getOffset boxA (Box_getStride boxA)) = 6) \<and>
   linToVec boxA (i32 (vecToLin0 (IntVect 2 1 0) (Box_getStride boxA)
       + Box_getOffset boxA (Box_getStride boxA))) (Box_getStride boxA) = Inr (IntVect 2 1 0)"
proof -
  have h: "IntVect_le (m_lo boxA) (m_hi boxA)" by (simp add: boxA_def)
  have f: "box_fits boxA" by (simp add: boxA_def box_fits_def cells_def hiVect_def loVect_def int32_def)
  have n: "(0::int) \<le> 6 \<and> 6 < Box_size boxA"
    by (simp add: boxA_def Box_size_def extent_def hiVect_def loVect_def i32_def)
  have c: "Box_contains boxA (IntVect 2 1 0)" by (simp add: boxA_def Box_contains_def)
  show ?thesis using h f n c linToVec_vecToLin0_roundtrip [OF h f] by blast
qed



text \<open>
  C10. The claim is that the assertion of \<open>Box::grow(i, dir)\<close> lets through only
  \<open>0 \<le> dir < g_SpaceDim\<close>. The assertion is \<open>dir \<le> g_SpaceDim\<close>: it lets
  \<open>dir = g_SpaceDim\<close> through, and \<open>m_lo[dir]\<close> is then outside the vector.
\<close>

theorem grow_assert_admits_g_SpaceDim:
  "grow_assert g_SpaceDim \<and> \<not> inRange g_SpaceDim \<and> Box_grow a_i g_SpaceDim b = Inl OutOfRange"
  by (simp add: grow_assert_def inRange_def Box_grow_def g_SpaceDim_def)

section \<open>Claims about BaseFab and CudaFab\<close>

lemma vecToLin0_minus_wrap: "vecToLin0 (IntVect_minus v w) s = i32 (lin_of (difference v w) s)"
proof -
  obtain v0 v1 v2 where v: "v = IntVect v0 v1 v2" by (rule IntVect_obtain)
  obtain w0 w1 w2 where w: "w = IntVect w0 w1 w2" by (rule IntVect_obtain)
  show ?thesis by (simp add: v w vecToLin0_def lin_of_def i32_simps)
qed

lemma BaseFab_fields:
  assumes d: "BaseFab_defined fab" and ic: "0 \<le> a_icomp" "a_icomp < BaseFab.m_ncomp fab"
      and f: "BaseFab.m_ncomp fab * cells (BaseFab.m_box fab) < 2147483648"
  shows "cells (BaseFab.m_box fab) < 2147483648"
    "BaseFab.m_stride fab = strides (BaseFab.m_box fab)"
    "BaseFab.m_size fab = cells (BaseFab.m_box fab)"
    "Box_getStride (BaseFab.m_box fab) = strides (BaseFab.m_box fab)"
    "Box_size (BaseFab.m_box fab) = cells (BaseFab.m_box fab)"
proof -
  have le: "IntVect_le (m_lo (BaseFab.m_box fab)) (m_hi (BaseFab.m_box fab))"
    using d by (simp add: BaseFab_defined_def)
  note p = extents_pos[OF le]
  have p01: "1 \<le> (hiVect (BaseFab.m_box fab) 0 - loVect (BaseFab.m_box fab) 0 + 1)
                  * (hiVect (BaseFab.m_box fab) 1 - loVect (BaseFab.m_box fab) 1 + 1)"
    using p by (simp add: prod_le_left)
  have c1: "1 \<le> cells (BaseFab.m_box fab)" unfolding cells_def using prod_le_left(3)[OF p01 p(3)] .
  have n1: "1 \<le> BaseFab.m_ncomp fab" using ic by simp
  have "cells (BaseFab.m_box fab) \<le> BaseFab.m_ncomp fab * cells (BaseFab.m_box fab)"
    using prod_le_left(2)[OF n1 c1] .
  then show sz: "cells (BaseFab.m_box fab) < 2147483648" using f by simp
  note ex = Box_exact[OF le sz]
  show "Box_getStride (BaseFab.m_box fab) = strides (BaseFab.m_box fab)"
    "Box_size (BaseFab.m_box fab) = cells (BaseFab.m_box fab)" by (rule ex)+
  show "BaseFab.m_stride fab = strides (BaseFab.m_box fab)"
    "BaseFab.m_size fab = cells (BaseFab.m_box fab)"
    using d ex by (simp_all add: BaseFab_defined_def)
qed

lemma BaseFab_index_rel:
  assumes d: "BaseFab_defined fab" and c: "Box_contains (BaseFab.m_box fab) a_iv"
      and ic: "0 \<le> a_icomp" "a_icomp < BaseFab.m_ncomp fab"
      and f: "BaseFab.m_ncomp fab * cells (BaseFab.m_box fab) < 2147483648"
  shows "BaseFab_index fab a_iv =
     Inr (lin_of (difference a_iv (m_lo (BaseFab.m_box fab))) (strides (BaseFab.m_box fab)))"
proof -
  obtain v0 v1 v2 where v: "a_iv = IntVect v0 v1 v2" by (rule IntVect_obtain)
  obtain l0 l1 l2 where lo: "m_lo (BaseFab.m_box fab) = IntVect l0 l1 l2" by (rule IntVect_obtain)
  obtain s0 s1 s2 where s: "strides (BaseFab.m_box fab) = IntVect s0 s1 s2"
    by (rule IntVect_obtain)
  have s0: "s0 = 1" using s by (simp add: strides_def Let_def)
  note fl = BaseFab_fields[OF d ic f]
  have le: "IntVect_le (m_lo (BaseFab.m_box fab)) (m_hi (BaseFab.m_box fab))"
    using d by (simp add: BaseFab_defined_def)
  note r = rel_lin_range[OF le c]
  have i: "int32 (lin_of (difference a_iv (m_lo (BaseFab.m_box fab))) (strides (BaseFab.m_box fab)))"
    using r fl(1) by (simp add: int32_def)
  have "BaseFab_index fab a_iv
          = Inr (i32 (lin_of (difference a_iv (m_lo (BaseFab.m_box fab))) (strides (BaseFab.m_box fab))))"
  proof -
    have "BaseFab_index fab a_iv
            = Inr (i32 (i32 (i32 (i32 (v0 - l0) * 1) + i32 (i32 (v1 - l1) * s1)) + i32 (i32 (v2 - l2) * s2)))"
      using c by (simp add: BaseFab_index_def Let_def fl(2) v lo s s0)
    then show ?thesis by (simp add: v lo s lin_of_def i32_simps)
  qed
  then show ?thesis using i by (simp add: i32_id)
qed

lemma BaseFab_at_offset:
  assumes d: "BaseFab_defined fab" and c: "Box_contains (BaseFab.m_box fab) a_iv"
      and ic: "0 \<le> a_icomp" "a_icomp < BaseFab.m_ncomp fab"
      and f: "BaseFab.m_ncomp fab * cells (BaseFab.m_box fab) < 2147483648"
  shows "BaseFab_at fab a_iv a_icomp =
          Inr (BaseFab.m_data fab ! nat (a_icomp * cells (BaseFab.m_box fab)
            + lin_of (difference a_iv (m_lo (BaseFab.m_box fab)))
                (strides (BaseFab.m_box fab))))"
proof -
  define i where "i = lin_of (difference a_iv (m_lo (BaseFab.m_box fab)))
                        (strides (BaseFab.m_box fab))"
  define sz where "sz = cells (BaseFab.m_box fab)"
  note fl = BaseFab_fields[OF d ic f]
  have le: "IntVect_le (m_lo (BaseFab.m_box fab)) (m_hi (BaseFab.m_box fab))"
    using d by (simp add: BaseFab_defined_def)
  have rng: "0 \<le> i" "i < sz" using rel_lin_range[OF le c] by (simp_all add: i_def sz_def)
  have msz: "BaseFab.m_size fab = sz" using fl(3) by (simp add: sz_def)
  have len: "int (length (BaseFab.m_data fab)) = BaseFab.m_ncomp fab * sz"
    using d msz by (simp add: BaseFab_defined_def)
  have "a_icomp + 1 \<le> BaseFab.m_ncomp fab" using ic by simp
  then have "(a_icomp + 1) * sz \<le> BaseFab.m_ncomp fab * sz" using rng by (simp add: mult_right_mono)
  then have up: "a_icomp * sz + i < BaseFab.m_ncomp fab * sz" using rng by (simp add: algebra_simps)
  have "0 \<le> a_icomp * sz" using ic rng by simp
  then have low: "0 \<le> a_icomp * sz + i" using rng by simp
  have "int32 (a_icomp * sz + i)" using low up f by (simp add: int32_def sz_def)
  then have w: "i32 (i32 (a_icomp * sz) + i) = a_icomp * sz + i" by (simp add: i32_simps i32_id)
  show ?thesis
    using low up
    by (simp add: BaseFab_at_def BaseFab_index_rel[OF d c ic f] msz len Let_def
        i_def[symmetric] sz_def[symmetric] w)
qed

text \<open>
  C8. In a host array whose fields are those of its region and whose number of
  elements is representable, for a coordinate of the region and a component in range,
  \<open>operator()\<close> reads the buffer at \<open>component * region.size() + index\<close>, \<open>index\<close>
  being the linear index of the coordinate relative to the low corner with the
  region's strides (axis 0 fastest). In scenario A, \<open>at((2,1,0), 0)\<close> is 6.
\<close>

theorem BaseFab_at_flat_offset:
  assumes "BaseFab_defined fab" "Box_contains (BaseFab.m_box fab) a_iv"
      and "0 \<le> a_icomp" "a_icomp < BaseFab.m_ncomp fab"
      and "BaseFab.m_ncomp fab * cells (BaseFab.m_box fab) < 2147483648"
  shows "BaseFab_at fab a_iv a_icomp =
          Inr (BaseFab.m_data fab ! nat (a_icomp * Box_size (BaseFab.m_box fab)
            + vecToLin0 (IntVect_minus a_iv (m_lo (BaseFab.m_box fab)))
                (Box_getStride (BaseFab.m_box fab))))
         \<and> BaseFab_defined scenarioA \<and> BaseFab_at scenarioA (IntVect 2 1 0) 0 = Inr 6"
proof -
  have a: "BaseFab_defined scenarioA"
    by (simp add: BaseFab_defined_def scenarioA_def boxA_def Box_getStride_def Box_size_def
        extent_def i32_def hiVect_def loVect_def)
  have b: "BaseFab_at scenarioA (IntVect 2 1 0) 0 = Inr 6"
    by (simp add: BaseFab_at_def BaseFab_index_def scenarioA_def boxA_def Box_contains_def i32_def)
  note fl = BaseFab_fields[OF assms(1,3,4,5)]
  have le: "IntVect_le (m_lo (BaseFab.m_box fab)) (m_hi (BaseFab.m_box fab))"
    using assms(1) by (simp add: BaseFab_defined_def)
  have "int32 (lin_of (difference a_iv (m_lo (BaseFab.m_box fab))) (strides (BaseFab.m_box fab)))"
    using rel_lin_range[OF le assms(2)] fl(1) by (simp add: int32_def)
  then have "vecToLin0 (IntVect_minus a_iv (m_lo (BaseFab.m_box fab))) (Box_getStride (BaseFab.m_box fab))
           = lin_of (difference a_iv (m_lo (BaseFab.m_box fab))) (strides (BaseFab.m_box fab))"
    by (simp add: fl(4) vecToLin0_minus_wrap i32_id)
  then show ?thesis using BaseFab_at_offset [OF assms] a b by (simp add: fl(5))
qed

theorem BaseFab_at_flat_offset_witness:
  "BaseFab_defined scenarioA \<and> Box_contains (BaseFab.m_box scenarioA) (IntVect 3 2 1) \<and>
   (0::int) \<le> 0 \<and> 0 < BaseFab.m_ncomp scenarioA \<and>
   BaseFab.m_ncomp scenarioA * cells (BaseFab.m_box scenarioA) < 2147483648 \<and>
   BaseFab_at scenarioA (IntVect 3 2 1) 0 = Inr (BaseFab.m_data scenarioA ! 27)"
proof -
  have d: "BaseFab_defined scenarioA"
    by (simp add: BaseFab_defined_def scenarioA_def boxA_def Box_getStride_def Box_size_def
        extent_def i32_def hiVect_def loVect_def)
  have c: "Box_contains (BaseFab.m_box scenarioA) (IntVect 3 2 1)"
    by (simp add: scenarioA_def boxA_def Box_contains_def)
  have i: "(0::int) \<le> 0" "0 < BaseFab.m_ncomp scenarioA" by (simp_all add: scenarioA_def)
  have f: "BaseFab.m_ncomp scenarioA * cells (BaseFab.m_box scenarioA) < 2147483648"
    by (simp add: scenarioA_def boxA_def cells_def hiVect_def loVect_def)
  have o: "nat (0 * Box_size (BaseFab.m_box scenarioA)
            + vecToLin0 (IntVect_minus (IntVect 3 2 1) (m_lo (BaseFab.m_box scenarioA)))
                (Box_getStride (BaseFab.m_box scenarioA))) = 27"
    by (simp add: scenarioA_def boxA_def vecToLin0_def Box_getStride_def extent_def i32_def
        hiVect_def loVect_def)
  show ?thesis using BaseFab_at_flat_offset [OF d c i f] d c i f o by simp
qed

text \<open>
  C9. The claim is that \<open>BaseFab<T>::sizeBytes()\<close> and \<open>CudaFab<T>::sizeBytes()\<close>
  agree on \<open>ncomp * boxSize * sizeof(T)\<close>. The host function multiplies by the size
  of a pointer instead of \<open>sizeof(T)\<close>: for a 4-byte element type and a one-cell array
  it answers 8 where the device view answers 4.
\<close>

theorem sizeBytes_differ:
  "BaseFab_defined oneCell \<and> BaseFab_sizeBytes 8 oneCell = 8 \<and>
   CudaFab_sizeBytes 4 (CudaFab_of_BaseFab device oneCell) = 4"
  by (simp add: BaseFab_defined_def BaseFab_sizeBytes_def CudaFab_sizeBytes_def
      CudaFab_of_BaseFab_def oneCell_def BaseFab_size_def CudaFab_size_def
      Box_getStride_def Box_size_def extent_def i32_def hiVect_def loVect_def)

text \<open>
  The address \<open>CudaFab_ref\<close> computes for a point of the region: the pointer moved by
  the wrap of the element offset.
\<close>

lemma CudaFab_ref_wrap:
  assumes "Box_contains (m_box fab) p"
  shows "CudaFab_ref fab p a_icomp
           = Inr (m_data fab + i32 (a_icomp * m_size fab + lin_of p (m_stride fab)))"
  using assms by (simp add: CudaFab_ref_def CudaFab_index_def lin_of_def i32_simps)

lemma moved_contains:
  assumes d: "inRange a_dir" and c: "Box_contains b p"
  shows "Box_contains (moved n a_dir b) (IntVect_set p a_dir (IntVect_get p a_dir + n))"
proof -
  obtain l0 l1 l2 where lo: "m_lo b = IntVect l0 l1 l2" by (rule IntVect_obtain)
  obtain h0 h1 h2 where hi: "m_hi b = IntVect h0 h1 h2" by (rule IntVect_obtain)
  obtain p0 p1 p2 where p: "p = IntVect p0 p1 p2" by (rule IntVect_obtain)
  from d have "a_dir = 0 \<or> a_dir = 1 \<or> a_dir = 2" by (rule inRange_cases)
  then show ?thesis using c
    by (auto simp: moved_def Box_contains_def loVect_def hiVect_def lo hi p)
qed

lemma moved_offset:
  assumes d: "inRange a_dir"
  shows "offset_of (moved n a_dir b) s + lin_of (IntVect_set p a_dir (IntVect_get p a_dir + n)) s
           = offset_of b s + lin_of p s"
proof -
  obtain l0 l1 l2 where lo: "m_lo b = IntVect l0 l1 l2" by (rule IntVect_obtain)
  obtain p0 p1 p2 where p: "p = IntVect p0 p1 p2" by (rule IntVect_obtain)
  from d have "a_dir = 0 \<or> a_dir = 1 \<or> a_dir = 2" by (rule inRange_cases)
  then show ?thesis
    by (auto simp: moved_def offset_of_def lin_of_def loVect_def lo p algebra_simps)
qed

lemma Box_shift_moved:
  assumes d: "inRange a_dir" and f: "int32 (loVect b a_dir + n)" "int32 (hiVect b a_dir + n)"
  shows "Box_shift n a_dir b = Inr (moved n a_dir b)"
  using d f by (simp add: Box_shift_def moved_def i32_id)

text \<open>
  C5. \<open>CudaFab::shift(n, axis)\<close> moves both bounds of the region by \<open>n\<close> along the
  axis, takes the old offset from the data pointer and adds the new one, and leaves
  strides, component count and size as they were; a point \<open>p\<close> of the old region and
  the point \<open>p + n e\<close> of the new one name the same address. This is so when the
  moved bounds, the two offsets and the element offsets of the two points are
  representable.
\<close>

theorem CudaFab_shift_moves_no_data:
  assumes d: "inRange a_dir" and c: "Box_contains (m_box fab) p"
      and b: "int32 (loVect (m_box fab) a_dir + n)" "int32 (hiVect (m_box fab) a_dir + n)"
      and o: "int32 (offset_of (m_box fab) (m_stride fab))"
             "int32 (offset_of (moved n a_dir (m_box fab)) (m_stride fab))"
      and e: "int32 (a_icomp * m_size fab + lin_of p (m_stride fab))"
             "int32 (a_icomp * m_size fab
                       + lin_of (IntVect_set p a_dir (IntVect_get p a_dir + n)) (m_stride fab))"
  shows "\<exists>fab' a. CudaFab_shift n a_dir fab = Inr fab' \<and>
     m_box fab' = moved n a_dir (m_box fab) \<and>
     m_data fab' = m_data fab - Box_getOffset (m_box fab) (m_stride fab)
                     + Box_getOffset (m_box fab') (m_stride fab) \<and>
     m_stride fab' = m_stride fab \<and> m_ncomp fab' = m_ncomp fab \<and> m_size fab' = m_size fab \<and>
     CudaFab_ref fab p a_icomp = Inr a \<and>
     CudaFab_ref fab' (IntVect_set p a_dir (IntVect_get p a_dir + n)) a_icomp = Inr a"
proof -
  define p' where "p' = IntVect_set p a_dir (IntVect_get p a_dir + n)"
  define box' where "box' = moved n a_dir (m_box fab)"
  define fab' where "fab' = fab\<lparr>m_box := box',
     m_data := m_data fab - Box_getOffset (m_box fab) (m_stride fab) + Box_getOffset box' (m_stride fab)\<rparr>"
  have run: "CudaFab_shift n a_dir fab = Inr fab'"
    by (simp add: CudaFab_shift_def Box_shift_moved[OF d b] fab'_def box'_def Let_def)
  have c': "Box_contains (m_box fab') p'"
    unfolding p'_def using moved_contains[OF d c] by (simp add: fab'_def box'_def)
  have o1: "Box_getOffset (m_box fab) (m_stride fab) = offset_of (m_box fab) (m_stride fab)"
    using o(1) by (simp add: Box_getOffset_wrap i32_id)
  have o2: "Box_getOffset box' (m_stride fab) = offset_of box' (m_stride fab)"
    using o(2) by (simp add: Box_getOffset_wrap i32_id box'_def)
  have r1: "CudaFab_ref fab p a_icomp
              = Inr (m_data fab + (a_icomp * m_size fab + lin_of p (m_stride fab)))"
    using CudaFab_ref_wrap[OF c] e(1) by (simp add: i32_id)
  have r2: "CudaFab_ref fab' p' a_icomp
              = Inr (m_data fab' + (a_icomp * m_size fab + lin_of p' (m_stride fab)))"
    using CudaFab_ref_wrap[OF c', of a_icomp] e(2) by (simp add: i32_id fab'_def p'_def)
  have k: "offset_of box' (m_stride fab) + lin_of p' (m_stride fab)
             = offset_of (m_box fab) (m_stride fab) + lin_of p (m_stride fab)"
    unfolding box'_def p'_def by (rule moved_offset[OF d])
  have same: "m_data fab' + (a_icomp * m_size fab + lin_of p' (m_stride fab))
                = m_data fab + (a_icomp * m_size fab + lin_of p (m_stride fab))"
    using k by (simp add: fab'_def o1 o2)
  show ?thesis
    apply (rule exI[of _ fab'])
    apply (rule exI[of _ "m_data fab + (a_icomp * m_size fab + lin_of p (m_stride fab))"])
    apply (intro conjI)
           apply (rule run)
          apply (simp add: fab'_def box'_def)
         apply (simp add: fab'_def)
        apply (simp add: fab'_def)
       apply (simp add: fab'_def)
      apply (simp add: fab'_def)
     apply (rule r1)
    apply (simp only: r2[unfolded p'_def] same[unfolded p'_def])
    done
qed

theorem CudaFab_shift_moves_no_data_witness:
  "inRange 2 \<and> Box_contains (m_box (CudaFab_of_BaseFab 1000 scenarioA)) (IntVect 2 1 0) \<and>
   (\<exists>fab'. CudaFab_shift 5 2 (CudaFab_of_BaseFab 1000 scenarioA) = Inr fab' \<and>
      CudaFab_ref (CudaFab_of_BaseFab 1000 scenarioA) (IntVect 2 1 0) 0 = Inr 1006 \<and>
      CudaFab_ref fab' (IntVect 2 1 5) 0 = Inr 1006)"
proof -
  define fab where "fab = CudaFab_of_BaseFab 1000 scenarioA"
  have fl: "m_box fab = boxA" "m_stride fab = IntVect 1 4 16" "m_size fab = 64"
    by (simp_all add: fab_def CudaFab_of_BaseFab_def scenarioA_def)
  have d: "inRange 2" by (simp add: inRange_def g_SpaceDim_def)
  have c: "Box_contains (m_box fab) (IntVect 2 1 0)"
    by (simp add: fl boxA_def Box_contains_def)
  have b: "int32 (loVect (m_box fab) 2 + 5)" "int32 (hiVect (m_box fab) 2 + 5)"
    by (simp_all add: fl boxA_def loVect_def hiVect_def int32_def)
  have o: "int32 (offset_of (m_box fab) (m_stride fab))"
          "int32 (offset_of (moved 5 2 (m_box fab)) (m_stride fab))"
    by (simp_all add: fl boxA_def offset_of_def moved_def lin_of_def loVect_def int32_def)
  have e: "int32 (0 * m_size fab + lin_of (IntVect 2 1 0) (m_stride fab))"
          "int32 (0 * m_size fab
                    + lin_of (IntVect_set (IntVect 2 1 0) 2 (IntVect_get (IntVect 2 1 0) 2 + 5)) (m_stride fab))"
    by (simp_all add: fl lin_of_def int32_def)
  have r: "CudaFab_ref fab (IntVect 2 1 0) 0 = Inr 1006"
    by (simp add: fab_def CudaFab_ref_def CudaFab_index_def CudaFab_of_BaseFab_def scenarioA_def boxA_def
        Box_contains_def Box_getOffset_def vecToLin0_def i32_def)
  show ?thesis
    using CudaFab_shift_moves_no_data [OF d c b o e] d c r unfolding fab_def by auto
qed

section \<open>The lanes of shift\<close>

text \<open>
  Running a list of steps, the operand of the table update, and the table after the
  first \<open>k\<close> lanes of \<open>shift(a_i)\<close> have run.
\<close>

lemma foreach_append:
  "foreach f (xs @ ys) s =
     (case foreach f xs s of None \<Rightarrow> None | Some (Inl e) \<Rightarrow> Some (Inl e)
      | Some (Inr s') \<Rightarrow> foreach f ys s')"
  by (induction xs arbitrary: s) (auto split: option.splits sum.splits)

lemma foreach_fold:
  assumes "\<And>x s. x \<in> set xs \<Longrightarrow> P s \<Longrightarrow> f x s = Some (Inr (g x s)) \<and> P (g x s)" and "P s"
  shows "foreach f xs s = Some (Inr (fold g xs s)) \<and> P (fold g xs s)"
  using assms by (induction xs arbitrary: s) auto

lemma u32_id: "0 \<le> i \<Longrightarrow> i < 4294967296 \<Longrightarrow> u32 i = i"
  by (simp add: u32_def)

lemma normal_shift_mod:
  assumes "0 < n"
  shows "normal_shift a n mod n = a mod n"
  by (simp add: normal_shift_def)

lemma normal_shift_nonneg:
  assumes n: "0 < n" and a: "a \<noteq> 0"
  shows "0 \<le> normal_shift a n"
proof -
  define m where "m = \<bar>a\<bar> - 1"
  have m0: "0 \<le> m" using a by (simp add: m_def)
  then have q: "m sdiv n = m div n" using n by (simp add: sdiv_nonneg)
  have e: "m div n * n + m mod n = m" by simp
  have l: "m mod n < n" using n by simp
  have "m + 1 \<le> m div n * n + n" using e l by linarith
  then have "\<bar>a\<bar> \<le> (m div n + 1) * n" by (simp add: m_def algebra_simps)
  then have "0 \<le> a + (m div n + 1) * n" by linarith
  then show ?thesis using q by (simp add: normal_shift_def m_def)
qed

lemma normalized_exact:
  assumes n: "0 < n" and a: "a \<noteq> 0" "- 2147483648 < a" "a < 2147483648"
      and f: "normal_shift a n < 2147483648"
  shows "normalized a n = normal_shift a n"
proof -
  define m where "m = \<bar>a\<bar> - 1"
  have m0: "0 \<le> m" "m < 2147483647" unfolding m_def using a by linarith+
  have q: "m sdiv n = m div n" using n m0 by (simp add: sdiv_nonneg)
  have q0: "0 \<le> m div n" using m0 n by (simp add: pos_imp_zdiv_nonneg_iff)
  have "m div n * 1 \<le> m div n * n" using q0 n by (intro mult_left_mono) simp_all
  moreover have "m div n * n + m mod n = m" by simp
  moreover have "0 \<le> m mod n" using n by simp
  ultimately have q1: "m div n \<le> m" by linarith
  have "int32 \<bar>a\<bar>" unfolding int32_def using a by linarith
  then have w1: "i32 \<bar>a\<bar> = \<bar>a\<bar>" by (rule i32_id)
  have w2: "i32 (\<bar>a\<bar> - 1) = m" using m0 unfolding m_def by (intro i32_id) (simp add: int32_def)
  have w3: "i32 (m div n + 1) = m div n + 1" using q0 q1 m0 by (intro i32_id) (simp add: int32_def)
  have "int32 (normal_shift a n)" using normal_shift_nonneg[OF n a(1)] f by (simp add: int32_def)
  then have w4: "i32 (a + (m div n + 1) * n) = normal_shift a n"
    by (simp add: normal_shift_def m_def[symmetric] q i32_id)
  have "normalized a n = i32 (a + i32 ((m div n + 1) * n))"
    by (simp add: normalized_def w1 w2 q w3)
  then show ?thesis using w4 by (simp add: i32_simps)
qed

lemma rotated_0: "rotated a n 0 T = T"
  by (simp add: rotated_def map_nth)

lemma rotated_length: "length (rotated a n k T) = length T"
  by (simp add: rotated_def)

lemma rotated_nth:
  "i < length T \<Longrightarrow> rotated a n k T ! i =
     (if i < k \<and> int i < n then (T ! i + normal_shift a n) smod n else T ! i)"
  by (simp add: rotated_def)

lemma rotated_Suc:
  assumes "k < length T" "int k < n"
  shows "(rotated a n k T)[k := (rotated a n k T ! k + normal_shift a n) smod n] = rotated a n (Suc k) T"
proof (rule nth_equalityI)
  show "length ((rotated a n k T)[k := (rotated a n k T ! k + normal_shift a n) smod n])
          = length (rotated a n (Suc k) T)" by (simp add: rotated_length)
next
  fix i assume "i < length ((rotated a n k T)[k := (rotated a n k T ! k + normal_shift a n) smod n])"
  then have i: "i < length T" by (simp add: rotated_length)
  show "(rotated a n k T)[k := (rotated a n k T ! k + normal_shift a n) smod n] ! i
          = rotated a n (Suc k) T ! i"
    using i assms by (simp add: nth_list_update rotated_length rotated_nth less_Suc_eq)
qed

lemma rotated_Suc_skip:
  assumes "\<not> int k < n"
  shows "rotated a n (Suc k) T = rotated a n k T"
  using assms by (auto simp: rotated_def less_Suc_eq)

lemma shift_lanes:
  assumes d: "inRange (m_nrmDir sf)" and n: "0 \<le> n" "n \<le> int (length (m_pTable sf))" "n < 4294967296"
      and b: "Box_shift a (m_nrmDir sf) (m_box sf) = Inr box1"
      and nz: "normalized a n = normal_shift a n"
      and op: "\<And>t. int t < n \<Longrightarrow> int32 (m_pTable sf ! t + normal_shift a n)"
  shows "foreach (shift_lane a n) [0..<k] sf =
           Some (Inr (sf\<lparr>m_box := (if 0 < k \<and> 0 < n then box1 else m_box sf),
                         m_pTable := rotated a n k (m_pTable sf)\<rparr>))"
proof (induction k)
  case 0
  then show ?case by (simp add: rotated_0)
next
  case (Suc k)
  define sk where "sk = sf\<lparr>m_box := (if 0 < k \<and> 0 < n then box1 else m_box sf),
                         m_pTable := rotated a n k (m_pTable sf)\<rparr>"
  have u: "u32 n = n" using n by (simp add: u32_id)
  have step: "foreach (shift_lane a n) [0..<Suc k] sf = foreach (shift_lane a n) [k] sk"
    using Suc by (simp add: foreach_append sk_def)
  show ?case
  proof (cases "int k < n")
    case True
    then have kl: "k < length (m_pTable sf)" using n by simp
    have "rotated a n k (m_pTable sf) ! k = m_pTable sf ! k" using kl by (simp add: rotated_nth)
    then have e: "i32 (rotated a n k (m_pTable sf) ! k + normalized a n)
                    = rotated a n k (m_pTable sf) ! k + normal_shift a n"
      using op[OF True] by (simp add: nz i32_id)
    have "shift_lane a n k sk = Some (Inr (sf\<lparr>m_box := box1,
                         m_pTable := rotated a n (Suc k) (m_pTable sf)\<rparr>))"
      using True kl b d e
      by (cases "k = 0") (simp_all add: shift_lane_def u sk_def rotated_length rotated_Suc Let_def)
    then show ?thesis unfolding step using True by simp
  next
    case False
    then have "shift_lane a n k sk = Some (Inr sk)" by (simp add: shift_lane_def u)
    then show ?thesis unfolding step using False by (auto simp add: sk_def rotated_Suc_skip)
  qed
qed

section \<open>shift keeps the window\<close>

text \<open>
  \<open>shift(a_i)\<close> returns the state \<open>shifted a_i\<close>: the region moved, its extents,
  strides and size kept, the table rotated with the phase moved by \<open>a_i\<close>.
\<close>

lemma shifted_geometry:
  assumes d: "inRange (m_nrmDir sf)"
  shows "extents (m_box (shifted a sf)) = extents (m_box sf)"
    and "strides (m_box (shifted a sf)) = strides (m_box sf)"
    and "cells (m_box (shifted a sf)) = cells (m_box sf)"
    and "IntVect_le (m_lo (m_box (shifted a sf))) (m_hi (m_box (shifted a sf)))
           = IntVect_le (m_lo (m_box sf)) (m_hi (m_box sf))"
    and "loVect (m_box (shifted a sf)) (m_nrmDir sf) = loVect (m_box sf) (m_nrmDir sf) + a"
    and "hiVect (m_box (shifted a sf)) (m_nrmDir sf) = hiVect (m_box sf) (m_nrmDir sf) + a"
    and "depth (shifted a sf) = depth sf"
proof -
  obtain l0 l1 l2 where lo: "m_lo (m_box sf) = IntVect l0 l1 l2" by (rule IntVect_obtain)
  obtain h0 h1 h2 where hi: "m_hi (m_box sf) = IntVect h0 h1 h2" by (rule IntVect_obtain)
  from d have c: "m_nrmDir sf = 0 \<or> m_nrmDir sf = 1 \<or> m_nrmDir sf = 2" by (rule inRange_cases)
  show "extents (m_box (shifted a sf)) = extents (m_box sf)"
    using c by (auto simp: shifted_def extents_def hiVect_def loVect_def lo hi)
  show "strides (m_box (shifted a sf)) = strides (m_box sf)"
    using c by (auto simp: shifted_def strides_def hiVect_def loVect_def lo hi)
  show "cells (m_box (shifted a sf)) = cells (m_box sf)"
    using c by (auto simp: shifted_def cells_def hiVect_def loVect_def lo hi)
  show "IntVect_le (m_lo (m_box (shifted a sf))) (m_hi (m_box (shifted a sf)))
           = IntVect_le (m_lo (m_box sf)) (m_hi (m_box sf))"
    using c by (auto simp: shifted_def hiVect_def loVect_def lo hi)
  show "loVect (m_box (shifted a sf)) (m_nrmDir sf) = loVect (m_box sf) (m_nrmDir sf) + a"
    using c by (auto simp: shifted_def hiVect_def loVect_def lo hi)
  show "hiVect (m_box (shifted a sf)) (m_nrmDir sf) = hiVect (m_box sf) (m_nrmDir sf) + a"
    using c by (auto simp: shifted_def hiVect_def loVect_def lo hi)
  show "depth (shifted a sf) = depth sf"
    using c by (auto simp: shifted_def depth_def extents_def hiVect_def loVect_def lo hi)
qed

lemma depth_hi_lo:
  assumes d: "inRange (m_nrmDir sf)"
  shows "depth sf = hiVect (m_box sf) (m_nrmDir sf) - loVect (m_box sf) (m_nrmDir sf) + 1"
  using inRange_cases[OF d] by (auto simp: depth_def extents_def)

lemma inv_table:
  assumes "SlabFab_inv sf" "i < nat (depth sf)"
  shows "m_pTable sf ! i = (loVect (m_box sf) (m_nrmDir sf) + int i + phase sf) mod depth sf"
  using assms by (simp add: SlabFab_inv_def window_ok_def list_all_iff)

lemma shifted_table_nth:
  assumes inv: "SlabFab_inv sf" and a: "a \<noteq> 0" and i: "i < nat (depth sf)"
  shows "m_pTable (shifted a sf) ! i
           = (loVect (m_box sf) (m_nrmDir sf) + int i + phase sf + a) mod depth sf"
proof -
  define n where "n = depth sf"
  have n: "1 < n" "n \<le> int (length (m_pTable sf))" using inv by (simp_all add: SlabFab_inv_def window_ok_def n_def)
  have il: "i < length (m_pTable sf)" using i n by (simp add: n_def)
  have t: "m_pTable sf ! i = (loVect (m_box sf) (m_nrmDir sf) + int i + phase sf) mod n"
    using inv_table[OF inv i] by (simp add: n_def)
  have t0: "0 \<le> m_pTable sf ! i" using t n by simp
  have nn: "0 \<le> normal_shift a n" using n a by (simp add: normal_shift_nonneg)
  have ii: "int i < depth sf" using i by simp
  have "m_pTable (shifted a sf) ! i = (m_pTable sf ! i + normal_shift a n) smod n"
    using il i ii by (simp add: shifted_def rotated_nth n_def)
  also have "\<dots> = (m_pTable sf ! i + normal_shift a n) mod n"
    using t0 nn n by (simp add: smod_nonneg)
  also have "\<dots> = (m_pTable sf ! i + normal_shift a n mod n) mod n"
    by (simp add: mod_add_right_eq)
  also have "\<dots> = (m_pTable sf ! i + a) mod n"
    using n by (simp add: normal_shift_mod mod_add_right_eq)
  also have "\<dots> = (loVect (m_box sf) (m_nrmDir sf) + int i + phase sf + a) mod n"
    by (simp add: t mod_add_left_eq)
  finally show ?thesis by (simp add: n_def)
qed

lemma shifted_phase:
  assumes inv: "SlabFab_inv sf" and a: "a \<noteq> 0"
  shows "phase (shifted a sf) mod depth sf = phase sf mod depth sf"
proof -
  have d: "inRange (m_nrmDir sf)" using inv by (simp add: SlabFab_inv_def window_ok_def)
  have n: "1 < depth sf" using inv by (simp add: SlabFab_inv_def window_ok_def)
  then have i0: "0 < nat (depth sf)" by simp
  have nd: "m_nrmDir (shifted a sf) = m_nrmDir sf" by (simp add: shifted_def)
  have "phase (shifted a sf) = (loVect (m_box sf) (m_nrmDir sf) + phase sf + a) mod depth sf
           - (loVect (m_box sf) (m_nrmDir sf) + a)"
    using shifted_table_nth[OF inv a i0] shifted_geometry(5)[OF d, of a]
    by (simp add: phase_def[of "shifted a sf"] nd)
  then have "phase (shifted a sf) mod depth sf
         = ((loVect (m_box sf) (m_nrmDir sf) + phase sf + a) mod depth sf
           - (loVect (m_box sf) (m_nrmDir sf) + a)) mod depth sf" by simp
  also have "\<dots> = ((loVect (m_box sf) (m_nrmDir sf) + phase sf + a)
           - (loVect (m_box sf) (m_nrmDir sf) + a)) mod depth sf"
    by (simp add: mod_diff_left_eq)
  finally show ?thesis by simp
qed

lemma shifted_inv:
  assumes inv: "SlabFab_inv sf" and a: "a \<noteq> 0"
  shows "SlabFab_inv (shifted a sf)"
proof -
  have d: "inRange (m_nrmDir sf)" using inv by (simp add: SlabFab_inv_def window_ok_def)
  have nd: "m_nrmDir (shifted a sf) = m_nrmDir sf" by (simp add: shifted_def)
  have len: "length (m_pTable (shifted a sf)) = length (m_pTable sf)"
    by (simp add: shifted_def rotated_length)
  have tab: "list_all (\<lambda>i. m_pTable (shifted a sf) ! i
                  = (loVect (m_box (shifted a sf)) (m_nrmDir (shifted a sf)) + int i + phase (shifted a sf))
                      mod depth (shifted a sf))
       [0..<nat (depth (shifted a sf))]"
    unfolding list_all_iff
  proof
    fix i assume "i \<in> set [0..<nat (depth (shifted a sf))]"
    then have i: "i < nat (depth sf)" using shifted_geometry(7)[OF d] by simp
    have "(loVect (m_box sf) (m_nrmDir sf) + a + int i + phase (shifted a sf)) mod depth sf
         = (loVect (m_box sf) (m_nrmDir sf) + a + int i + phase (shifted a sf) mod depth sf) mod depth sf"
      by (simp add: mod_add_right_eq)
    also have "\<dots> = (loVect (m_box sf) (m_nrmDir sf) + a + int i + phase sf mod depth sf) mod depth sf"
      by (simp add: shifted_phase[OF inv a])
    also have "\<dots> = (loVect (m_box sf) (m_nrmDir sf) + a + int i + phase sf) mod depth sf"
      by (rule mod_add_right_eq)
    also have "\<dots> = (loVect (m_box sf) (m_nrmDir sf) + int i + phase sf + a) mod depth sf"
      by (simp add: algebra_simps)
    finally show "m_pTable (shifted a sf) ! i
                  = (loVect (m_box (shifted a sf)) (m_nrmDir (shifted a sf)) + int i + phase (shifted a sf))
                      mod depth (shifted a sf)"
      using shifted_table_nth[OF inv a i] shifted_geometry(5,7)[OF d, of a] by (simp add: nd)
  qed
  have rest: "m_stride (shifted a sf) = m_stride sf" "m_size (shifted a sf) = m_size sf"
     "m_numPntSlab (shifted a sf) = m_numPntSlab sf" "m_numSubBox (shifted a sf) = m_numSubBox sf"

    by (simp_all add: shifted_def)
  show ?thesis
    unfolding SlabFab_inv_def window_ok_def
    using inv tab shifted_geometry[OF d, of a]
    by (simp add: nd len rest SlabFab_inv_def window_ok_def)
qed

lemma numSlab_depth:
  assumes d: "inRange (m_nrmDir sf)" and n: "0 \<le> depth sf" "depth sf < 2147483648"
  shows "SlabFab_numSlab sf = Inr (depth sf)"
proof -
  have e: "depth sf = hiVect (m_box sf) (m_nrmDir sf) - loVect (m_box sf) (m_nrmDir sf) + 1"
    by (rule depth_hi_lo[OF d])
  have "int32 (depth sf)" using n by (simp add: int32_def)
  then have "extent (m_box sf) (m_nrmDir sf) = depth sf"
    unfolding e by (simp add: extent_def i32_simps i32_id)
  moreover have "IntVect_get (Box_dimensions (m_box sf)) (m_nrmDir sf) = extent (m_box sf) (m_nrmDir sf)"
    using inRange_cases[OF d] by (auto simp: Box_dimensions_def)
  ultimately show ?thesis using d by (simp add: SlabFab_numSlab_def)
qed

lemma shift_fits_moved:
  assumes inv: "SlabFab_inv sf" and f: "shift_fits a sf"
  shows "int32 (loVect (m_box sf) (m_nrmDir sf) + a)" "int32 (hiVect (m_box sf) (m_nrmDir sf) + a)"
proof -
  have d: "inRange (m_nrmDir sf)" and n: "1 < depth sf"
    using inv by (simp_all add: SlabFab_inv_def window_ok_def)
  have "loVect (m_box sf) (m_nrmDir sf) \<le> hiVect (m_box sf) (m_nrmDir sf)"
    using n depth_hi_lo[OF d] by simp
  then show "int32 (loVect (m_box sf) (m_nrmDir sf) + a)" "int32 (hiVect (m_box sf) (m_nrmDir sf) + a)"
    using f by (simp_all add: shift_fits_def int32_def)
qed

lemma shift_ok:
  assumes inv: "SlabFab_inv sf" and a: "a \<noteq> 0" and bd: "depth sf \<le> int blockDim" "blockDim < 2147483648"
      and f: "shift_fits a sf"
  shows "SlabFab_shift blockDim a sf = Some (Inr (shifted a sf))"
proof -
  have d: "inRange (m_nrmDir sf)" using inv by (simp add: SlabFab_inv_def window_ok_def)
  have n: "1 < depth sf" "depth sf \<le> int (length (m_pTable sf))" using inv by (simp_all add: SlabFab_inv_def window_ok_def)
  have n32: "depth sf < 4294967296" using bd by simp
  have u: "u32 (depth sf) = depth sf" using n n32 by (simp add: u32_id)
  have ns: "SlabFab_numSlab sf = Inr (depth sf)" using n bd by (intro numSlab_depth[OF d]) simp_all
  have b: "Box_shift a (m_nrmDir sf) (m_box sf) = Inr (m_box (shifted a sf))"
    using d shift_fits_moved[OF inv f] by (simp add: Box_shift_def shifted_def i32_id)
  have nb: "normal_shift a (depth sf) < 2147483648" using f n by (simp add: shift_fits_def)
  have nz: "normalized a (depth sf) = normal_shift a (depth sf)"
    using f n nb by (intro normalized_exact a) (simp_all add: shift_fits_def)
  have op: "int32 (m_pTable sf ! t + normal_shift a (depth sf))" if t: "int t < depth sf" for t
  proof -
    have "t < nat (depth sf)" using t by simp
    then have "m_pTable sf ! t = (loVect (m_box sf) (m_nrmDir sf) + int t + phase sf) mod depth sf"
      by (rule inv_table[OF inv])
    then have "0 \<le> m_pTable sf ! t" "m_pTable sf ! t < depth sf" using n by simp_all
    moreover have "0 \<le> normal_shift a (depth sf)" using n a by (simp add: normal_shift_nonneg)
    ultimately show ?thesis using f by (simp add: shift_fits_def int32_def)
  qed
  have r: "rotated a (depth sf) blockDim (m_pTable sf) = rotated a (depth sf) (nat (depth sf)) (m_pTable sf)"
    using bd by (auto simp: rotated_def)
  have bpos: "0 < blockDim" using n bd by simp
  have "foreach (shift_lane a (depth sf)) [0..<blockDim] sf = Some (Inr (shifted a sf))"
    using shift_lanes[OF d _ n(2) n32 b nz op, of blockDim] n bpos
    by (simp add: r shifted_def)
  then show ?thesis using a bd by (simp add: SlabFab_shift_def ns u)
qed

section \<open>define makes a window\<close>

text \<open>
  When lane 0 of \<open>define\<close> passes every check, the state is a window with the
  identity table; a table of the window is a bijection of \<open>{0..<numSlab}\<close>; and
  every sequence of shifts that the 32-bit arithmetic carries keeps the window.
\<close>

lemma setStride_ok:
  assumes le: "IntVect_le (m_lo (m_box fab)) (m_hi (m_box fab))" and sz: "cells (m_box fab) < 2147483648"
  shows "CudaFab_setStride fab
           = Inr (fab\<lparr>m_stride := strides (m_box fab), m_size := cells (m_box fab)\<rparr>)"
proof -
  obtain l0 l1 l2 where lo: "m_lo (m_box fab) = IntVect l0 l1 l2" by (rule IntVect_obtain)
  obtain h0 h1 h2 where hi: "m_hi (m_box fab) = IntVect h0 h1 h2" by (rule IntVect_obtain)
  have "CudaFab_setStride fab
          = Inr (fab\<lparr>m_stride := IntVect 1 (i32 (1 * extent (m_box fab) 0))
                                     (i32 (i32 (1 * extent (m_box fab) 0) * extent (m_box fab) 1)),
                      m_size := i32 (i32 (i32 (1 * extent (m_box fab) 0) * extent (m_box fab) 1)
                                       * extent (m_box fab) 2)\<rparr>)"
    using le
    by (simp add: CudaFab_setStride_def Let_def extent_def hiVect_def loVect_def lo hi g_SpaceDim_def)
  moreover have "IntVect 1 (i32 (1 * extent (m_box fab) 0))
                   (i32 (i32 (1 * extent (m_box fab) 0) * extent (m_box fab) 1)) = Box_getStride (m_box fab)"
    by (simp add: Box_getStride_def Let_def)
  moreover have "i32 (i32 (i32 (1 * extent (m_box fab) 0) * extent (m_box fab) 1) * extent (m_box fab) 2)
                   = Box_size (m_box fab)"
    by (simp add: Box_size_def i32_simps)
  ultimately show ?thesis using Box_exact[OF le sz] by simp
qed

lemma setStride_fail:
  assumes "\<not> IntVect_le (m_lo (m_box fab)) (m_hi (m_box fab))"
  shows "CudaFab_setStride fab = Inl AssertionFailed"
  using assms by (simp add: CudaFab_setStride_def Let_def)

lemma selectLoadMethod_cases:
  assumes "selectLoadMethod blockDim a_numThr sf = Inr sf'"
  shows "sf' = sf\<lparr>m_numSubBox := - 3\<rparr> \<or> sf' = sf\<lparr>m_numSubBox := - 2\<rparr>"
  using assms by (auto simp: selectLoadMethod_def split: if_splits)

lemma product3_exact:
  assumes le: "IntVect_le (m_lo b) (m_hi b)" and sz: "cells b < 2147483648" and d: "inRange d"
  shows "IntVect_product (IntVect_set (extents b) d 1) = product3 (IntVect_set (extents b) d 1)"
proof -
  define d0 where "d0 = hiVect b 0 - loVect b 0 + 1"
  define d1 where "d1 = hiVect b 1 - loVect b 1 + 1"
  define d2 where "d2 = hiVect b 2 - loVect b 2 + 1"
  have p: "1 \<le> d0" "1 \<le> d1" "1 \<le> d2" using extents_pos[OF le] by (simp_all add: d0_def d1_def d2_def)
  have c: "d0 * d1 * d2 < 2147483648" using sz by (simp add: cells_def d0_def d1_def d2_def)
  have p01: "1 \<le> d0 * d1" using p by (simp add: prod_le_left)
  have a: "d0 * d1 \<le> d0 * d1 * d2" using prod_le_left[OF p01 p(3)] by simp
  have p02: "1 \<le> d0 * d2" and p12: "1 \<le> d1 * d2" using p by (simp_all add: prod_le_left)
  have "d0 * d2 \<le> d0 * d2 * d1" using prod_le_left(1)[OF p02 p(2)] .
  then have b02: "d0 * d2 \<le> d0 * d1 * d2" by (simp add: mult.commute mult.left_commute)
  have "d1 * d2 \<le> d1 * d2 * d0" using prod_le_left(1)[OF p12 p(1)] .
  then have b12: "d1 * d2 \<le> d0 * d1 * d2" by (simp add: mult.commute mult.left_commute)
  have i: "int32 (d0 * d1)" "int32 (d0 * d2)" "int32 (d1 * d2)"
    using p01 p02 p12 a b02 b12 c by (simp_all add: int32_def)
  from d have "d = 0 \<or> d = 1 \<or> d = 2" by (rule inRange_cases)
  then show ?thesis
    using i by (auto simp: extents_def d0_def[symmetric] d1_def[symmetric] d2_def[symmetric] i32_simps i32_id)
qed

lemma define_thr0_unfold:
  assumes "define_thr0 blockDim this a_alias a_box a_ncomp a_nrmDir a_compBegSrc a_src a_numThrLS = Inr sf0"
      and sz: "cells a_box < 2147483648"
  shows "IntVect_le (m_lo a_box) (m_hi a_box)" and "inRange a_nrmDir"
    and "1 < IntVect_get (extents a_box) a_nrmDir"
    and "IntVect_get (extents a_box) a_nrmDir \<le> int (length (m_pTable this))"
    and "u32 a_numThrLS \<le> int blockDim"
    and "\<exists>sf4. selectLoadMethod blockDim a_numThrLS (define_state this a_alias a_box a_ncomp a_nrmDir) = Inr sf4
           \<and> sf0 = sf4\<lparr>m_compBegSrc := a_compBegSrc, m_src := ConstPtr a_src\<rparr>"
proof -
  show le: "IntVect_le (m_lo a_box) (m_hi a_box)"
  proof (rule ccontr)
    assume "\<not> IntVect_le (m_lo a_box) (m_hi a_box)"
    then have "define_thr0 blockDim this a_alias a_box a_ncomp a_nrmDir a_compBegSrc a_src a_numThrLS
                 = Inl AssertionFailed"
      by (simp add: define_thr0_def setStride_fail)
    then show False using assms by simp
  qed
  have ss: "CudaFab_setStride (this\<lparr>m_box := a_box, m_ncomp := a_ncomp\<rparr>)
          = Inr (this\<lparr>m_box := a_box, m_ncomp := a_ncomp, m_stride := strides a_box, m_size := cells a_box\<rparr>)"
    using le sz by (simp add: setStride_ok)
  show d: "inRange a_nrmDir"
  proof (rule ccontr)
    assume "\<not> inRange a_nrmDir"
    then have "define_thr0 blockDim this a_alias a_box a_ncomp a_nrmDir a_compBegSrc a_src a_numThrLS
                 = Inl OutOfRange"
      by (simp add: define_thr0_def ss)
    then show False using assms by simp
  qed
  show n: "1 < IntVect_get (extents a_box) a_nrmDir"
  proof (rule ccontr)
    assume "\<not> 1 < IntVect_get (extents a_box) a_nrmDir"
    then have "define_thr0 blockDim this a_alias a_box a_ncomp a_nrmDir a_compBegSrc a_src a_numThrLS
                 = Inl AssertionFailed"
      using d le by (simp add: define_thr0_def ss Let_def Box_exact[OF _ sz])
    then show False using assms by simp
  qed
  show n2: "IntVect_get (extents a_box) a_nrmDir \<le> int (length (m_pTable this))"
  proof (rule ccontr)
    assume "\<not> IntVect_get (extents a_box) a_nrmDir \<le> int (length (m_pTable this))"
    then have "define_thr0 blockDim this a_alias a_box a_ncomp a_nrmDir a_compBegSrc a_src a_numThrLS
                 = Inl AssertionFailed"
      using d le by (simp add: define_thr0_def ss Let_def Box_exact[OF _ sz])
    then show False using assms by simp
  qed
  show t: "u32 a_numThrLS \<le> int blockDim"
  proof (rule ccontr)
    assume "\<not> u32 a_numThrLS \<le> int blockDim"
    then have "define_thr0 blockDim this a_alias a_box a_ncomp a_nrmDir a_compBegSrc a_src a_numThrLS
                 = Inl AssertionFailed"
      using d n n2 le by (simp add: define_thr0_def ss Let_def Box_exact[OF _ sz])
    then show False using assms by simp
  qed
  have "define_thr0 blockDim this a_alias a_box a_ncomp a_nrmDir a_compBegSrc a_src a_numThrLS
          = (case selectLoadMethod blockDim a_numThrLS (define_state this a_alias a_box a_ncomp a_nrmDir) of
               Inl e \<Rightarrow> Inl e
             | Inr sf4 \<Rightarrow> Inr (sf4\<lparr>m_compBegSrc := a_compBegSrc, m_src := ConstPtr a_src\<rparr>))"
    using d n n2 t le
    by (simp add: define_thr0_def ss Let_def define_state_def Box_exact[OF _ sz] product3_exact[OF _ sz])
  then show "\<exists>sf4. selectLoadMethod blockDim a_numThrLS (define_state this a_alias a_box a_ncomp a_nrmDir) = Inr sf4
           \<and> sf0 = sf4\<lparr>m_compBegSrc := a_compBegSrc, m_src := ConstPtr a_src\<rparr>"
    using assms by (auto split: sum.splits)
qed

lemma define_thr0_inv:
  assumes "define_thr0 blockDim this a_alias a_box a_ncomp a_nrmDir a_compBegSrc a_src a_numThrLS = Inr sf0"
      and sz: "cells a_box < 2147483648"
  shows "SlabFab_inv sf0" and "m_pTable sf0 = map int [0..<length (m_pTable this)]"
    and "m_box sf0 = a_box" and "m_nrmDir sf0 = a_nrmDir" and "m_ncomp sf0 = a_ncomp"
    and "m_compBegSrc sf0 = a_compBegSrc" and "m_src sf0 = ConstPtr a_src"
proof -
  note u = define_thr0_unfold[OF assms]
  define n where "n = IntVect_get (extents a_box) a_nrmDir"
  have n: "1 < n" "n \<le> int (length (m_pTable this))" using u(3,4) by (simp_all add: n_def)
  obtain sf4 where sf4: "selectLoadMethod blockDim a_numThrLS (define_state this a_alias a_box a_ncomp a_nrmDir) = Inr sf4"
     "sf0 = sf4\<lparr>m_compBegSrc := a_compBegSrc, m_src := ConstPtr a_src\<rparr>" using u(6) by blast
  have k: "sf4 = (define_state this a_alias a_box a_ncomp a_nrmDir)\<lparr>m_numSubBox := - 3\<rparr>
         \<or> sf4 = (define_state this a_alias a_box a_ncomp a_nrmDir)\<lparr>m_numSubBox := - 2\<rparr>"
    using selectLoadMethod_cases[OF sf4(1)] .
  have f: "m_pTable sf0 = map int [0..<length (m_pTable this)]" "m_box sf0 = a_box" "m_nrmDir sf0 = a_nrmDir"
    "m_stride sf0 = strides a_box" "m_size sf0 = cells a_box"
    "m_numPntSlab sf0 = product3 (IntVect_set (extents a_box) a_nrmDir 1)"
    "m_numSubBox sf0 = - 3 \<or> m_numSubBox sf0 = - 2" "m_ncomp sf0 = a_ncomp"
    "m_compBegSrc sf0 = a_compBegSrc" "m_src sf0 = ConstPtr a_src"
    using k by (auto simp: sf4(2) define_state_def)
  have dp: "depth sf0 = n" by (simp add: depth_def f n_def)
  have "0 < int (length (m_pTable this))" using n by linarith
  then have L: "0 < length (m_pTable this)" by simp
  have ph: "phase sf0 = - loVect a_box a_nrmDir" using L by (simp add: phase_def f)
  have tab: "list_all (\<lambda>i. m_pTable sf0 ! i
                  = (loVect (m_box sf0) (m_nrmDir sf0) + int i + phase sf0) mod depth sf0)
       [0..<nat (depth sf0)]"
    unfolding list_all_iff
  proof
    fix i assume "i \<in> set [0..<nat (depth sf0)]"
    then have i: "int i < n" "i < length (m_pTable this)" using n dp by simp_all
    then show "m_pTable sf0 ! i = (loVect (m_box sf0) (m_nrmDir sf0) + int i + phase sf0) mod depth sf0"
      by (simp add: f dp ph)
  qed
  show "SlabFab_inv sf0" unfolding SlabFab_inv_def window_ok_def using u(1,2) n tab f by (simp add: dp)
  show "m_pTable sf0 = map int [0..<length (m_pTable this)]" by (rule f)
  show "m_box sf0 = a_box" by (rule f)
  show "m_nrmDir sf0 = a_nrmDir" by (rule f)
  show "m_ncomp sf0 = a_ncomp" by (rule f)
  show "m_compBegSrc sf0 = a_compBegSrc" by (rule f)
  show "m_src sf0 = ConstPtr a_src" by (rule f)
qed

lemma mod_window_inj:
  fixes x y n c :: int
  assumes "0 \<le> x" "x < n" "0 \<le> y" "y < n" "(c + x) mod n = (c + y) mod n"
  shows "x = y"
proof -
  have "(c + x - (c + y)) mod n = 0" using assms(5) by (simp add: mod_eq_dvd_iff)
  then have "n dvd (x - y)" by (simp add: mod_eq_0_iff_dvd)
  moreover have "\<bar>x - y\<bar> < n" using assms by linarith
  ultimately have "x - y = 0" using dvd_imp_le_int[of "x - y" n] by auto
  then show ?thesis by simp
qed

lemma inv_table_bij:
  assumes inv: "SlabFab_inv sf"
  shows "bij_betw (\<lambda>i. m_pTable sf ! nat i) {0..<depth sf} {0..<depth sf}"
proof -
  define n where "n = depth sf"
  define c where "c = loVect (m_box sf) (m_nrmDir sf) + phase sf"
  have n: "1 < n" using inv by (simp add: SlabFab_inv_def window_ok_def n_def)
  have t: "\<And>i. 0 \<le> i \<Longrightarrow> i < n \<Longrightarrow> m_pTable sf ! nat i = (c + i) mod n"
    using inv_table[OF inv] by (simp add: n_def c_def algebra_simps)
  have inj: "inj_on (\<lambda>i. m_pTable sf ! nat i) {0..<n}"
  proof (rule inj_onI)
    fix x y assume "x \<in> {0..<n}" "y \<in> {0..<n}" "m_pTable sf ! nat x = m_pTable sf ! nat y"
    then show "x = y" using t mod_window_inj[of x n y c] by simp
  qed
  have sub: "(\<lambda>i. m_pTable sf ! nat i) ` {0..<n} \<subseteq> {0..<n}"
    using t n by auto
  have "(\<lambda>i. m_pTable sf ! nat i) ` {0..<n} = {0..<n}"
    using inj sub by (simp add: endo_inj_surj)
  then show ?thesis using inj by (simp add: bij_betw_def n_def)
qed

lemma shifted_fits:
  assumes inv: "SlabFab_inv sf" and f: "shift_fits a sf" and bf: "box_fits (m_box sf)"
  shows "box_fits (m_box (shifted a sf))"
proof -
  have d: "inRange (m_nrmDir sf)" using inv by (simp add: SlabFab_inv_def window_ok_def)
  obtain l0 l1 l2 where lo: "m_lo (m_box sf) = IntVect l0 l1 l2" by (rule IntVect_obtain)
  obtain h0 h1 h2 where hi: "m_hi (m_box sf) = IntVect h0 h1 h2" by (rule IntVect_obtain)
  note m = shift_fits_moved[OF inv f]
  have c: "cells (m_box (shifted a sf)) = cells (m_box sf)" by (rule shifted_geometry(3)[OF d])
  have "vec_fits (m_lo (m_box (shifted a sf))) \<and> vec_fits (m_hi (m_box (shifted a sf)))"
    using inRange_cases[OF d] m bf by (auto simp: shifted_def box_fits_def lo hi loVect_def hiVect_def)
  then show ?thesis using bf c by (simp add: box_fits_def)
qed

lemma shifts_ok:
  assumes bd: "blockDim < 2147483648"
  shows "SlabFab_inv sf \<Longrightarrow> depth sf \<le> int blockDim \<Longrightarrow> all_shifts_fit sf shifts \<Longrightarrow>
         \<exists>sf'. foreach (SlabFab_shift blockDim) shifts sf = Some (Inr sf') \<and> SlabFab_inv sf' \<and>
               depth sf' = depth sf"
proof (induction shifts arbitrary: sf)
  case Nil
  then show ?case by simp
next
  case (Cons a shifts)
  have d: "inRange (m_nrmDir sf)" using Cons.prems(1) by (simp add: SlabFab_inv_def window_ok_def)
  show ?case
  proof (cases "a = 0")
    case True
    then have "all_shifts_fit sf shifts" using Cons.prems(3) by simp
    from Cons.IH[OF Cons.prems(1,2) this] show ?thesis using True by (simp add: SlabFab_shift_def)
  next
    case False
    then have f: "shift_fits a sf" "all_shifts_fit (shifted a sf) shifts" using Cons.prems(3) by simp_all
    have r: "SlabFab_shift blockDim a sf = Some (Inr (shifted a sf))"
      by (rule shift_ok[OF Cons.prems(1) False Cons.prems(2) bd f(1)])
    have i: "SlabFab_inv (shifted a sf)" by (rule shifted_inv[OF Cons.prems(1) False])
    have dp: "depth (shifted a sf) = depth sf" by (rule shifted_geometry(7)[OF d])
    have "depth (shifted a sf) \<le> int blockDim" using Cons.prems(2) dp by simp
    from Cons.IH[OF i this f(2)] show ?thesis using r dp by simp
  qed
qed

section \<open>Lists of stores\<close>

lemma IntVect_set_set: "inRange d \<Longrightarrow> IntVect_set (IntVect_set v d a) d b = IntVect_set v d b"
  by (cases v) (auto dest: inRange_cases)

lemma IntVect_get_set: "inRange d \<Longrightarrow> IntVect_get (IntVect_set v d a) d = a"
  by (cases v) (auto dest: inRange_cases)

lemma apply_writes_Nil: "apply_writes [] m = m"
  by (simp add: apply_writes_def)

lemma apply_writes_Cons: "apply_writes (w # ws) m = apply_writes ws (m(fst w := snd w))"
  by (simp add: apply_writes_def)

lemma apply_writes_append: "apply_writes (ws @ ws') m = apply_writes ws' (apply_writes ws m)"
  by (simp add: apply_writes_def)

lemma fold_apply_writes:
  "fold (\<lambda>x. apply_writes (h x)) xs m = apply_writes (concat (map h xs)) m"
  by (induction xs arbitrary: m) (simp_all add: apply_writes_Nil apply_writes_append)

lemma apply_writes_other: "a \<notin> fst ` set ws \<Longrightarrow> apply_writes ws m a = m a"
  by (induction ws arbitrary: m) (auto simp: apply_writes_Nil apply_writes_Cons)

lemma apply_writes_fun:
  assumes "\<And>w. w \<in> set ws \<Longrightarrow> snd w = g (fst w)"
  shows "apply_writes ws m a = (if a \<in> fst ` set ws then g a else m a)"
  using assms
proof (induction ws arbitrary: m)
  case Nil
  then show ?case by (simp add: apply_writes_Nil)
next
  case (Cons w ws)
  have "apply_writes ws (m(fst w := snd w)) a = (if a \<in> fst ` set ws then g a else (m(fst w := snd w)) a)"
    using Cons by simp
  then show ?case using Cons.prems[of w] by (auto simp: apply_writes_Cons)
qed

section \<open>Addresses of the window\<close>

text \<open>
  The address of a cached element is the linear index of its storage coordinate in
  the zero-based box, so two elements of the window with one address are one element.
  A point that stays in the window keeps its address when the window shifts.
\<close>

lemma inv_window: "SlabFab_inv sf \<Longrightarrow> window_ok sf"
  by (simp add: SlabFab_inv_def)

lemma window_table:
  assumes "window_ok sf" "i < nat (depth sf)"
  shows "m_pTable sf ! i = (loVect (m_box sf) (m_nrmDir sf) + int i + phase sf) mod depth sf"
  using assms by (simp add: window_ok_def list_all_iff)

lemma normal_offset:
  assumes w: "window_ok sf" and c: "Box_contains (m_box sf) v"
  shows "0 \<le> IntVect_get v (m_nrmDir sf) - loVect (m_box sf) (m_nrmDir sf)"
    and "IntVect_get v (m_nrmDir sf) - loVect (m_box sf) (m_nrmDir sf) < depth sf"
proof -
  have d: "inRange (m_nrmDir sf)" using w by (simp add: window_ok_def)
  obtain l0 l1 l2 where lo: "m_lo (m_box sf) = IntVect l0 l1 l2" by (rule IntVect_obtain)
  obtain h0 h1 h2 where hi: "m_hi (m_box sf) = IntVect h0 h1 h2" by (rule IntVect_obtain)
  obtain v0 v1 v2 where v: "v = IntVect v0 v1 v2" by (rule IntVect_obtain)
  show "0 \<le> IntVect_get v (m_nrmDir sf) - loVect (m_box sf) (m_nrmDir sf)"
    using c inRange_cases[OF d] by (auto simp: Box_contains_def loVect_def lo hi v)
  show "IntVect_get v (m_nrmDir sf) - loVect (m_box sf) (m_nrmDir sf) < depth sf"
    using c inRange_cases[OF d]
    by (auto simp: Box_contains_def depth_def extents_def loVect_def hiVect_def lo hi v)
qed

lemma slot_phase:
  assumes w: "window_ok sf" and c: "Box_contains (m_box sf) v"
  shows "m_pTable sf ! nat (IntVect_get v (m_nrmDir sf) - loVect (m_box sf) (m_nrmDir sf))
           = (IntVect_get v (m_nrmDir sf) + phase sf) mod depth sf"
proof -
  note k = normal_offset[OF w c]
  have "nat (IntVect_get v (m_nrmDir sf) - loVect (m_box sf) (m_nrmDir sf)) < nat (depth sf)"
    using k by simp
  from window_table[OF w this] k(1) show ?thesis by simp
qed

lemma cache_addr_storage:
  assumes d: "inRange (m_nrmDir sf)"
  shows "cache_addr sf v c =
           m_data sf + lin_of (IntVect_set (m_lo (m_box sf)) (m_nrmDir sf) 0) (m_stride sf)
             + (c * m_size sf + lin_of (storage_vec sf v) (m_stride sf))"
proof -
  obtain l0 l1 l2 where lo: "m_lo (m_box sf) = IntVect l0 l1 l2" by (rule IntVect_obtain)
  obtain s0 s1 s2 where s: "m_stride sf = IntVect s0 s1 s2" by (rule IntVect_obtain)
  obtain v0 v1 v2 where v: "v = IntVect v0 v1 v2" by (rule IntVect_obtain)
  show ?thesis using inRange_cases[OF d]
    by (auto simp: cache_addr_def storage_vec_def lin_of_def Let_def lo s v loVect_def algebra_simps)
qed

lemma zero_box_facts:
  shows "strides (zero_box b) = strides b"
    and "cells (zero_box b) = cells b"
    and "IntVect_le (m_lo (zero_box b)) (m_hi (zero_box b)) = IntVect_le (m_lo b) (m_hi b)"
    and "difference x (m_lo (zero_box b)) = x"
    and "offset_of (zero_box b) s = 0"
proof -
  obtain l0 l1 l2 where lo: "m_lo b = IntVect l0 l1 l2" by (rule IntVect_obtain)
  obtain h0 h1 h2 where hi: "m_hi b = IntVect h0 h1 h2" by (rule IntVect_obtain)
  obtain x0 x1 x2 where x: "x = IntVect x0 x1 x2" by (rule IntVect_obtain)
  show "strides (zero_box b) = strides b"
    by (simp add: zero_box_def strides_def hiVect_def loVect_def lo hi)
  show "cells (zero_box b) = cells b"
    by (simp add: zero_box_def cells_def hiVect_def loVect_def lo hi)
  show "IntVect_le (m_lo (zero_box b)) (m_hi (zero_box b)) = IntVect_le (m_lo b) (m_hi b)"
    by (simp add: zero_box_def lo hi)
  show "difference x (m_lo (zero_box b)) = x" by (simp add: zero_box_def x)
  show "offset_of (zero_box b) s = 0"
    by (cases s) (simp add: zero_box_def offset_of_def lin_of_def)
qed

lemma storage_in_zero_box:
  assumes w: "window_ok sf" and c: "Box_contains (m_box sf) v"
  shows "Box_contains (zero_box (m_box sf)) (storage_vec sf v)"
proof -
  have d: "inRange (m_nrmDir sf)" using w by (simp add: window_ok_def)
  have n: "1 < depth sf" using w by (simp add: window_ok_def)
  obtain l0 l1 l2 where lo: "m_lo (m_box sf) = IntVect l0 l1 l2" by (rule IntVect_obtain)
  obtain h0 h1 h2 where hi: "m_hi (m_box sf) = IntVect h0 h1 h2" by (rule IntVect_obtain)
  obtain v0 v1 v2 where v: "v = IntVect v0 v1 v2" by (rule IntVect_obtain)
  define sl where "sl = m_pTable sf ! nat (IntVect_get v (m_nrmDir sf) - loVect (m_box sf) (m_nrmDir sf))"
  have "sl = (IntVect_get v (m_nrmDir sf) + phase sf) mod depth sf"
    unfolding sl_def by (rule slot_phase[OF w c])
  then have sl: "0 \<le> sl" "sl < depth sf" using n by simp_all
  have dp: "depth sf = hiVect (m_box sf) (m_nrmDir sf) - loVect (m_box sf) (m_nrmDir sf) + 1"
    by (rule depth_hi_lo[OF d])
  have sv: "storage_vec sf v = IntVect_set (difference v (m_lo (m_box sf))) (m_nrmDir sf) sl"
    by (simp add: storage_vec_def sl_def)
  show ?thesis
    unfolding sv
    using c sl inRange_cases[OF d] dp
    by (auto simp: zero_box_def Box_contains_def lo hi v loVect_def hiVect_def)
qed

lemma storage_lin_range:
  assumes w: "window_ok sf" and c: "Box_contains (m_box sf) v"
  shows "0 \<le> lin_of (storage_vec sf v) (m_stride sf)"
    and "lin_of (storage_vec sf v) (m_stride sf) < m_size sf"
proof -
  have le: "IntVect_le (m_lo (zero_box (m_box sf))) (m_hi (zero_box (m_box sf)))"
    using w by (simp add: zero_box_facts window_ok_def)
  have st: "m_stride sf = strides (m_box sf)" "m_size sf = cells (m_box sf)"
    using w by (simp_all add: window_ok_def)
  from rel_lin_range[OF le storage_in_zero_box[OF w c]]
  show "0 \<le> lin_of (storage_vec sf v) (m_stride sf)"
    and "lin_of (storage_vec sf v) (m_stride sf) < m_size sf"
    by (simp_all add: zero_box_facts st)
qed

lemma storage_vec_inj:
  assumes w: "window_ok sf" and c: "Box_contains (m_box sf) v" "Box_contains (m_box sf) u"
      and e: "storage_vec sf v = storage_vec sf u"
  shows "v = u"
proof -
  have d: "inRange (m_nrmDir sf)" using w by (simp add: window_ok_def)
  obtain l0 l1 l2 where lo: "m_lo (m_box sf) = IntVect l0 l1 l2" by (rule IntVect_obtain)
  obtain v0 v1 v2 where v: "v = IntVect v0 v1 v2" by (rule IntVect_obtain)
  obtain u0 u1 u2 where u: "u = IntVect u0 u1 u2" by (rule IntVect_obtain)
  define kv where "kv = IntVect_get v (m_nrmDir sf) - loVect (m_box sf) (m_nrmDir sf)"
  define ku where "ku = IntVect_get u (m_nrmDir sf) - loVect (m_box sf) (m_nrmDir sf)"
  have kv: "0 \<le> kv" "kv < depth sf" using normal_offset[OF w c(1)] by (simp_all add: kv_def)
  have ku: "0 \<le> ku" "ku < depth sf" using normal_offset[OF w c(2)] by (simp_all add: ku_def)
  have "IntVect_get (storage_vec sf v) (m_nrmDir sf) = IntVect_get (storage_vec sf u) (m_nrmDir sf)"
    using e by simp
  then have "m_pTable sf ! nat kv = m_pTable sf ! nat ku"
    using d by (simp add: storage_vec_def IntVect_get_set kv_def ku_def)
  moreover have "m_pTable sf ! nat kv = (loVect (m_box sf) (m_nrmDir sf) + phase sf + kv) mod depth sf"
    using window_table[OF w, of "nat kv"] kv by (simp add: algebra_simps)
  moreover have "m_pTable sf ! nat ku = (loVect (m_box sf) (m_nrmDir sf) + phase sf + ku) mod depth sf"
    using window_table[OF w, of "nat ku"] ku by (simp add: algebra_simps)
  ultimately have "kv = ku" using mod_window_inj[OF kv ku] by simp
  then have n: "IntVect_get v (m_nrmDir sf) = IntVect_get u (m_nrmDir sf)" by (simp add: kv_def ku_def)
  show ?thesis using e n inRange_cases[OF d]
    by (auto simp: storage_vec_def v u lo split: if_splits)
qed

lemma cache_addr_inj:
  assumes w: "window_ok sf" and c: "Box_contains (m_box sf) v" "Box_contains (m_box sf) u"
      and e: "cache_addr sf v c = cache_addr sf u c'"
  shows "v = u \<and> c = c'"
proof -
  have d: "inRange (m_nrmDir sf)" using w by (simp add: window_ok_def)
  define x where "x = lin_of (storage_vec sf v) (m_stride sf)"
  define y where "y = lin_of (storage_vec sf u) (m_stride sf)"
  define z where "z = m_size sf"
  have x: "0 \<le> x" "x < z" using storage_lin_range[OF w c(1)] by (simp_all add: x_def z_def)
  have y: "0 \<le> y" "y < z" using storage_lin_range[OF w c(2)] by (simp_all add: y_def z_def)
  have eq: "x + c * z = y + c' * z"
    using e by (simp add: cache_addr_storage[OF d] x_def y_def z_def)
  have "(x + c * z) div z = c" using x by (rule digit_div)
  moreover have "(y + c' * z) div z = c'" using y by (rule digit_div)
  ultimately have cc: "c = c'" using eq by simp
  then have xy: "x = y" using eq by simp
  have le: "IntVect_le (m_lo (zero_box (m_box sf))) (m_hi (zero_box (m_box sf)))"
    using w by (simp add: zero_box_facts window_ok_def)
  have st: "strides (m_box sf) = m_stride sf"
    using w by (simp add: window_ok_def)
  have "unlin (zero_box (m_box sf)) x (m_stride sf) = Inr (storage_vec sf v)"
    using unlin_of_lin[OF le storage_in_zero_box[OF w c(1)]]
    by (simp add: zero_box_facts st x_def)
  moreover have "unlin (zero_box (m_box sf)) y (m_stride sf) = Inr (storage_vec sf u)"
    using unlin_of_lin[OF le storage_in_zero_box[OF w c(2)]]
    by (simp add: zero_box_facts st y_def)
  ultimately have "storage_vec sf v = storage_vec sf u" using xy by simp
  then have "v = u" by (rule storage_vec_inj[OF w c])
  then show ?thesis using cc by simp
qed

lemma cache_addr_phase:
  assumes w: "window_ok sf" and c: "Box_contains (m_box sf) v"
  shows "cache_addr sf v c = m_data sf + (c * m_size sf
           + lin_of (IntVect_set v (m_nrmDir sf) ((IntVect_get v (m_nrmDir sf) + phase sf) mod depth sf))
               (m_stride sf))"
  by (simp add: cache_addr_def Let_def slot_phase[OF w c])

lemma shifted_fields:
  "m_nrmDir (shifted a sf) = m_nrmDir sf" "m_numSubBox (shifted a sf) = m_numSubBox sf"
  "m_numPntSlab (shifted a sf) = m_numPntSlab sf" "m_ncomp (shifted a sf) = m_ncomp sf"
  "m_data (shifted a sf) = m_data sf" "m_size (shifted a sf) = m_size sf"
  "m_stride (shifted a sf) = m_stride sf" "m_compBegSrc (shifted a sf) = m_compBegSrc sf"
  "m_src (shifted a sf) = m_src sf" "copies (shifted a sf) i t = copies sf i t"
  by (simp_all add: shifted_def copies_def)

lemma cache_addr_shifted:
  assumes inv: "SlabFab_inv sf" and a: "a \<noteq> 0"
      and cv: "Box_contains (m_box (shifted a sf)) v" and cu: "Box_contains (m_box sf) u"
      and tg: "IntVect_set v (m_nrmDir sf) 0 = IntVect_set u (m_nrmDir sf) 0"
      and md: "IntVect_get v (m_nrmDir sf) mod depth sf = IntVect_get u (m_nrmDir sf) mod depth sf"
  shows "cache_addr (shifted a sf) v c = cache_addr sf u c"
proof -
  have w: "window_ok sf" using inv by (rule inv_window)
  have w1: "window_ok (shifted a sf)" using shifted_inv[OF inv a] by (rule inv_window)
  have d: "inRange (m_nrmDir sf)" using w by (simp add: window_ok_def)
  have dp: "depth (shifted a sf) = depth sf" by (rule shifted_geometry(7)[OF d])
  have "(IntVect_get v (m_nrmDir sf) + phase (shifted a sf)) mod depth sf
         = (IntVect_get v (m_nrmDir sf) mod depth sf + phase (shifted a sf) mod depth sf) mod depth sf"
    by (simp add: mod_add_eq)
  also have "\<dots> = (IntVect_get u (m_nrmDir sf) mod depth sf + phase sf mod depth sf) mod depth sf"
    by (simp add: md shifted_phase[OF inv a])
  also have "\<dots> = (IntVect_get u (m_nrmDir sf) + phase sf) mod depth sf"
    by (simp add: mod_add_eq)
  finally have sl: "(IntVect_get v (m_nrmDir sf) + phase (shifted a sf)) mod depth sf
                     = (IntVect_get u (m_nrmDir sf) + phase sf) mod depth sf" .
  have st: "\<And>x. IntVect_set v (m_nrmDir sf) x = IntVect_set u (m_nrmDir sf) x"
  proof -
    fix x
    have "IntVect_set (IntVect_set v (m_nrmDir sf) 0) (m_nrmDir sf) x
            = IntVect_set (IntVect_set u (m_nrmDir sf) 0) (m_nrmDir sf) x" using tg by simp
    then show "IntVect_set v (m_nrmDir sf) x = IntVect_set u (m_nrmDir sf) x"
      using d by (simp add: IntVect_set_set)
  qed
  show ?thesis
    by (simp add: cache_addr_phase[OF w1 cv] cache_addr_phase[OF w cu] shifted_fields dp sl st)
qed

lemma exposed_outside:
  assumes d: "inRange (m_nrmDir sf)" and j: "j \<in> set (exposed a sf)" and c: "Box_contains (m_box sf) p"
  shows "IntVect_get p (m_nrmDir sf) \<noteq> j"
proof -
  obtain l0 l1 l2 where lo: "m_lo (m_box sf) = IntVect l0 l1 l2" by (rule IntVect_obtain)
  obtain h0 h1 h2 where hi: "m_hi (m_box sf) = IntVect h0 h1 h2" by (rule IntVect_obtain)
  obtain p0 p1 p2 where p: "p = IntVect p0 p1 p2" by (rule IntVect_obtain)
  show ?thesis using j c inRange_cases[OF d]
    by (auto simp: exposed_def Box_contains_def loVect_def hiVect_def lo hi p split: if_splits)
qed

section \<open>What a load writes\<close>

text \<open>
  The component loop, \<open>loadSlab\<close> for one lane and for the block, the loading loop
  and \<open>shift(a_i, a_vecThrLS)\<close> as lists of stores. The addresses are the integer
  ones when the region satisfies \<open>box_fits\<close> and the window \<open>refs_fit\<close>.
\<close>

lemma lin_of_mono:
  assumes s: "0 \<le> IntVect_get s 1" "0 \<le> IntVect_get s 2" and le: "IntVect_le u v"
  shows "lin_of u s \<le> lin_of v s"
proof -
  obtain u0 u1 u2 where u: "u = IntVect u0 u1 u2" by (rule IntVect_obtain)
  obtain v0 v1 v2 where v: "v = IntVect v0 v1 v2" by (rule IntVect_obtain)
  have a: "u1 * IntVect_get s 1 \<le> v1 * IntVect_get s 1" using le s(1) by (simp add: u v mult_right_mono)
  have b: "u2 * IntVect_get s 2 \<le> v2 * IntVect_get s 2" using le s(2) by (simp add: u v mult_right_mono)
  show ?thesis using a b le by (simp add: lin_of_def u v)
qed

lemma CudaFab_ref_addr:
  assumes c: "Box_contains (m_box fab) v"
      and s: "0 \<le> IntVect_get (m_stride fab) 1" "0 \<le> IntVect_get (m_stride fab) 2" "0 \<le> m_size fab"
      and cr: "cb \<le> c" "c \<le> ce"
      and f: "int32 (cb * m_size fab + lin_of (m_lo (m_box fab)) (m_stride fab))"
             "int32 (ce * m_size fab + lin_of (m_hi (m_box fab)) (m_stride fab))"
  shows "CudaFab_ref fab v c = Inr (src_addr fab v c)"
proof -
  have l: "lin_of (m_lo (m_box fab)) (m_stride fab) \<le> lin_of v (m_stride fab)"
          "lin_of v (m_stride fab) \<le> lin_of (m_hi (m_box fab)) (m_stride fab)"
    using c by (simp_all add: Box_contains_def lin_of_mono[OF s(1,2)])
  have m: "cb * m_size fab \<le> c * m_size fab" "c * m_size fab \<le> ce * m_size fab"
    using cr s(3) by (simp_all add: mult_right_mono)
  have "int32 (c * m_size fab + lin_of v (m_stride fab))"
    using l m by (intro int32_between[OF f]) linarith+
  then show ?thesis using CudaFab_ref_wrap[OF c, of c] by (simp add: src_addr_def i32_id)
qed

lemma depth_small:
  assumes w: "window_ok sf" and bf: "box_fits (m_box sf)"
  shows "depth sf < 2147483648"
proof -
  have d: "inRange (m_nrmDir sf)" and le: "IntVect_le (m_lo (m_box sf)) (m_hi (m_box sf))"
    using w by (simp_all add: window_ok_def)
  have sz: "cells (m_box sf) < 2147483648" using bf by (simp add: box_fits_def)
  show ?thesis
    using inRange_cases[OF d] extents_small(1,2,3)[OF le sz] by (auto simp: depth_hi_lo[OF d])
qed

lemma SlabFab_ref_addr:
  assumes inv: "SlabFab_inv sf" and bf: "box_fits (m_box sf)" and rf: "refs_fit sf"
      and c: "Box_contains (m_box sf) v"
      and cr: "m_compBegSrc sf \<le> c" "c < m_compBegSrc sf + m_ncomp sf"
  shows "SlabFab_ref sf v c = Inr (cache_addr sf v c)"
proof -
  have w: "window_ok sf" using inv by (rule inv_window)
  have d: "inRange (m_nrmDir sf)" using w by (simp add: window_ok_def)
  have n: "depth sf \<le> int (length (m_pTable sf))" using w by (simp add: window_ok_def)
  define kk where "kk = IntVect_get v (m_nrmDir sf) - loVect (m_box sf) (m_nrmDir sf)"
  define iv where "iv = IntVect_set v (m_nrmDir sf) (m_pTable sf ! nat kk)"
  have k: "0 \<le> kk" "kk < depth sf" using normal_offset[OF w c] by (simp_all add: kk_def)
  then have k2: "kk < int (length (m_pTable sf))" using n by linarith
  have "int32 kk" using k depth_small[OF w bf] by (simp add: int32_def)
  then have wk: "i32 (IntVect_get v (m_nrmDir sf) - loVect (m_box sf) (m_nrmDir sf)) = kk"
    by (simp add: kk_def i32_id)
  have idx: "SlabFab_index sf v = Inr (vecToLin0 iv (m_stride sf))"
    using c d k(1) k2 by (simp add: SlabFab_index_def wk Let_def vecToLin0_def iv_def)
  have r: "SlabFab_ref sf v c = Inr (m_data sf + i32 (c * m_size sf + lin_of iv (m_stride sf)))"
    by (simp add: SlabFab_ref_def idx vecToLin0_wrap i32_simps)
  define base where "base = lin_of (IntVect_set (m_lo (m_box sf)) (m_nrmDir sf) 0) (m_stride sf)"
  define l where "l = lin_of (storage_vec sf v) (m_stride sf)"
  have ca: "cache_addr sf v c = m_data sf + (c * m_size sf + lin_of iv (m_stride sf))"
    by (simp add: cache_addr_def Let_def iv_def kk_def)
  have "cache_addr sf v c = m_data sf + base + (c * m_size sf + l)"
    unfolding base_def l_def by (rule cache_addr_storage[OF d])
  then have e: "c * m_size sf + lin_of iv (m_stride sf) = base + c * m_size sf + l" using ca by simp
  have lr: "0 \<le> l" "l < m_size sf" using storage_lin_range[OF w c] by (simp_all add: l_def)
  have f: "int32 (m_compBegSrc sf * m_size sf + base)"
          "int32 ((m_compBegSrc sf + m_ncomp sf) * m_size sf + base - 1)"
    using rf by (simp_all add: refs_fit_def Let_def base_def)
  have z: "0 \<le> m_size sf" using lr by linarith
  have m1: "m_compBegSrc sf * m_size sf \<le> c * m_size sf" using cr(1) z by (rule mult_right_mono)
  have "c + 1 \<le> m_compBegSrc sf + m_ncomp sf" using cr(2) by simp
  then have "(c + 1) * m_size sf \<le> (m_compBegSrc sf + m_ncomp sf) * m_size sf"
    using z by (rule mult_right_mono)
  then have m2: "c * m_size sf + m_size sf \<le> (m_compBegSrc sf + m_ncomp sf) * m_size sf"
    by (simp add: algebra_simps)
  have "int32 (base + c * m_size sf + l)"
    using m1 m2 lr by (intro int32_between[OF f]) linarith+
  then show ?thesis using r e ca by (simp add: i32_id)
qed

lemma loadComps_writes:
  assumes r: "\<And>c. c0 \<le> c \<Longrightarrow> c < compEnd \<Longrightarrow> SlabFab_ref sf v c = Inr (cache_addr sf v c)"
      and s: "\<And>c. c0 \<le> c \<Longrightarrow> c < compEnd \<Longrightarrow>
                CudaFab_ref (deref (m_src sf)) v c = Inr (src_addr (deref (m_src sf)) v c)"
      and f: "int32 c0" "int32 compEnd"
      and le: "c0 \<le> iC" "iC \<le> compEnd"
  shows "loadComps sf smem v iC compEnd cmem =
          Some (Inr (apply_writes
            (map (\<lambda>c. (cache_addr sf v c, smem (src_addr (deref (m_src sf)) v c))) [iC..compEnd - 1]) cmem))"
  using le
proof (induction "nat (compEnd - iC)" arbitrary: iC cmem)
  case 0
  then have "iC = compEnd" by simp
  then show ?case by (simp add: loadComps.simps[of sf smem v compEnd compEnd] apply_writes_Nil)
next
  case (Suc k)
  then have lt: "iC < compEnd" by linarith
  have k: "k = nat (compEnd - (iC + 1))" using Suc(2) by linarith
  have "int32 (iC + 1)" using lt Suc.prems(1) f by (simp add: int32_def)
  then have w: "i32 (iC + 1) = iC + 1" by (rule i32_id)
  have ih: "loadComps sf smem v (iC + 1) compEnd (cmem(cache_addr sf v iC := smem (src_addr (deref (m_src sf)) v iC))) =
          Some (Inr (apply_writes
            (map (\<lambda>c. (cache_addr sf v c, smem (src_addr (deref (m_src sf)) v c))) [iC + 1..compEnd - 1])
            (cmem(cache_addr sf v iC := smem (src_addr (deref (m_src sf)) v iC)))))"
    using Suc(1)[OF k] lt Suc.prems(1) by simp
  have u: "[iC..compEnd - 1] = iC # [iC + 1..compEnd - 1]" using lt by (simp add: upto_rec1)
  show ?case using lt
    by (simp add: loadComps.simps[of sf smem v iC compEnd] r[OF Suc.prems(1) lt] s[OF Suc.prems(1) lt]
          w ih u apply_writes_Cons)
qed

lemma loadSlab_lane_writes:
  assumes inv: "SlabFab_inv sf" and bf: "box_fits (m_box sf)" and rf: "refs_fit sf"
      and nt: "u32 a_numThr \<le> int blockDim"
              "m_numSubBox sf = - 3 \<Longrightarrow> int blockDim = u32 a_numThr"
              "m_numSubBox sf = - 2 \<Longrightarrow> m_numPntSlab sf \<le> a_numThr"
      and nc: "0 \<le> m_ncomp sf"
      and nr: "loVect (m_box sf) (m_nrmDir sf) \<le> IntVect_get v (m_nrmDir sf)"
              "IntVect_get v (m_nrmDir sf) \<le> hiVect (m_box sf) (m_nrmDir sf)"
      and cp: "copies sf a_idxThr0 t \<Longrightarrow>
                 Box_contains (m_box sf) v \<and> Box_contains (m_box (deref (m_src sf))) v"
  shows "loadSlab_lane blockDim sf smem v a_idxThr0 a_numThr t cmem =
           Some (Inr (apply_writes (if copies sf a_idxThr0 t then lane_writes sf smem v else []) cmem))"
proof -
  have d: "inRange (m_nrmDir sf)" using inv by (simp add: SlabFab_inv_def window_ok_def)
  have m: "m_numSubBox sf = - 3 \<or> m_numSubBox sf = - 2" using inv by (simp add: SlabFab_inv_def window_ok_def)
  have fc: "int32 (m_compBegSrc sf)" "int32 (m_compBegSrc sf + m_ncomp sf)"
    using rf by (simp_all add: refs_fit_def Let_def)
  have we: "i32 (m_compBegSrc sf + m_ncomp sf) = m_compBegSrc sf + m_ncomp sf" using fc(2) by (rule i32_id)
  show ?thesis
  proof (cases "copies sf a_idxThr0 t")
    case True
    have r: "\<And>c. m_compBegSrc sf \<le> c \<Longrightarrow> c < m_compBegSrc sf + m_ncomp sf \<Longrightarrow>
               SlabFab_ref sf v c = Inr (cache_addr sf v c)"
      using SlabFab_ref_addr[OF inv bf rf] cp[OF True] by simp
    have s: "CudaFab_ref (deref (m_src sf)) v c = Inr (src_addr (deref (m_src sf)) v c)"
      if c: "m_compBegSrc sf \<le> c" "c < m_compBegSrc sf + m_ncomp sf" for c
    proof -
      have c2: "c \<le> m_compBegSrc sf + m_ncomp sf - 1" using c by simp
      have sc: "Box_contains (m_box (deref (m_src sf))) v" using cp[OF True] by simp
      show ?thesis
        using rf by (intro CudaFab_ref_addr[OF sc _ _ _ c(1) c2]) (simp_all add: refs_fit_def Let_def)
    qed
    have le: "m_compBegSrc sf \<le> m_compBegSrc sf + m_ncomp sf" using nc by simp
    have lc: "loadComps sf smem v (m_compBegSrc sf) (m_compBegSrc sf + m_ncomp sf) cmem =
              Some (Inr (apply_writes (lane_writes sf smem v) cmem))"
      using loadComps_writes[of "m_compBegSrc sf" "m_compBegSrc sf + m_ncomp sf" sf v "m_compBegSrc sf",
          OF r s fc order_refl le]
      by (simp add: lane_writes_def)
    from m show ?thesis
    proof
      assume a: "m_numSubBox sf = - 3"
      then show ?thesis using True d nr nt(1) nt(2)[OF a] lc
        by (simp add: loadSlab_lane_def Let_def we)
    next
      assume a: "m_numSubBox sf = - 2"
      then show ?thesis using True d nr nt(1) nt(3)[OF a] lc
        by (simp add: loadSlab_lane_def Let_def copies_def we)
    qed
  next
    case False
    then have a: "m_numSubBox sf = - 2" using m by (auto simp: copies_def)
    show ?thesis using False a d nr nt(1) nt(3)[OF a]
      by (auto simp add: loadSlab_lane_def Let_def copies_def apply_writes_Nil)
  qed
qed

lemma loadSlab_block_writes:
  assumes inv: "SlabFab_inv sf" and bf: "box_fits (m_box sf)" and rf: "refs_fit sf"
      and nt: "u32 a_numThr \<le> int blockDim"
              "m_numSubBox sf = - 3 \<Longrightarrow> int blockDim = u32 a_numThr"
              "m_numSubBox sf = - 2 \<Longrightarrow> m_numPntSlab sf \<le> a_numThr"
      and nc: "0 \<le> m_ncomp sf"
      and nr: "\<And>t. t < blockDim \<Longrightarrow>
                 loVect (m_box sf) (m_nrmDir sf) \<le> IntVect_get (vec t) (m_nrmDir sf) \<and>
                 IntVect_get (vec t) (m_nrmDir sf) \<le> hiVect (m_box sf) (m_nrmDir sf)"
      and cp: "\<And>t. t < blockDim \<Longrightarrow> copies sf a_idxThr0 t \<Longrightarrow>
                 Box_contains (m_box sf) (vec t) \<and> Box_contains (m_box (deref (m_src sf))) (vec t)"
  shows "SlabFab_loadSlab blockDim sf smem vec a_idxThr0 a_numThr cmem =
           Some (Inr (apply_writes (block_writes blockDim sf smem vec a_idxThr0) cmem))"
proof -
  define h where "h = (\<lambda>t. if copies sf a_idxThr0 t then lane_writes sf smem (vec t) else [])"
  have step: "loadSlab_lane blockDim sf smem (vec t) a_idxThr0 a_numThr t m
                = Some (Inr (apply_writes (h t) m)) \<and> True"
    if "t \<in> set [0..<blockDim]" "True" for t m
  proof -
    have t: "t < blockDim" using that by simp
    show ?thesis
      using loadSlab_lane_writes[OF inv bf rf nt nc, of "vec t" a_idxThr0 t smem m] nr[OF t] cp[OF t]
      by (simp add: h_def)
  qed
  have "foreach (\<lambda>t. loadSlab_lane blockDim sf smem (vec t) a_idxThr0 a_numThr t) [0..<blockDim] cmem
          = Some (Inr (fold (\<lambda>t. apply_writes (h t)) [0..<blockDim] cmem)) \<and> True"
    by (rule foreach_fold[where P = "\<lambda>_. True", OF step]) simp_all
  then show ?thesis
    by (simp add: SlabFab_loadSlab_def fold_apply_writes block_writes_def h_def)
qed

lemma lanes_in_D:
  assumes "lanes_in blockDim sf vec js" "t < blockDim" "j \<in> set js" "copies sf 0 t"
  shows "Box_contains (m_box sf) (IntVect_set (vec t) (m_nrmDir sf) j)"
    and "Box_contains (m_box (deref (m_src sf))) (IntVect_set (vec t) (m_nrmDir sf) j)"
  using assms by (auto simp: lanes_in_def list_all_iff)

lemma lanes_in_setNrm:
  assumes "inRange (m_nrmDir sf)"
  shows "lanes_in blockDim sf (setNrm (m_nrmDir sf) vec a) js = lanes_in blockDim sf vec js"
  using assms by (simp add: lanes_in_def setNrm_def IntVect_set_set)

lemma setNrm_setNrm: "inRange d \<Longrightarrow> setNrm d (setNrm d vec a) b = setNrm d vec b"
  by (simp add: setNrm_def IntVect_set_set)

lemma slabs_writes_setNrm:
  assumes "inRange (m_nrmDir sf)"
  shows "slabs_writes blockDim sf smem (setNrm (m_nrmDir sf) vec a) js = slabs_writes blockDim sf smem vec js"
  using assms by (simp add: slabs_writes_def setNrm_setNrm)

lemma slabs_writes_Cons:
  "slabs_writes blockDim sf smem vec (j # js)
     = block_writes blockDim sf smem (setNrm (m_nrmDir sf) vec j) 0 @ slabs_writes blockDim sf smem vec js"
  by (simp add: slabs_writes_def)

lemma load_loop_writes:
  assumes inv: "SlabFab_inv sf" and bf: "box_fits (m_box sf)" and rf: "refs_fit sf"
      and nt: "u32 a_numThr \<le> int blockDim"
              "m_numSubBox sf = - 3 \<Longrightarrow> int blockDim = u32 a_numThr"
              "m_numSubBox sf = - 2 \<Longrightarrow> m_numPntSlab sf \<le> a_numThr"
      and nc: "0 \<le> m_ncomp sf"
      and rg: "\<And>j. j \<in> set js \<Longrightarrow> loVect (m_box sf) (m_nrmDir sf) \<le> j \<and> j \<le> hiVect (m_box sf) (m_nrmDir sf)"
      and li: "lanes_in blockDim sf vec js"
  shows "foreach (loadSlabs_body blockDim sf smem a_numThr) js (vec, cmem)
       = Some (Inr (if js = [] then vec else setNrm (m_nrmDir sf) vec (last js),
                    apply_writes (slabs_writes blockDim sf smem vec js) cmem))"
    (is "foreach ?F js (vec, cmem) = _")
  using rg li
proof (induction js arbitrary: vec cmem)
  case Nil
  then show ?case by (simp add: slabs_writes_def apply_writes_Nil)
next
  case (Cons j js)
  have d: "inRange (m_nrmDir sf)" using inv by (simp add: SlabFab_inv_def window_ok_def)
  define vec' where "vec' = setNrm (m_nrmDir sf) vec j"
  have jr: "loVect (m_box sf) (m_nrmDir sf) \<le> j \<and> j \<le> hiVect (m_box sf) (m_nrmDir sf)"
    using Cons.prems(1) by simp
  have nr: "\<And>t. t < blockDim \<Longrightarrow>
                 loVect (m_box sf) (m_nrmDir sf) \<le> IntVect_get (vec' t) (m_nrmDir sf) \<and>
                 IntVect_get (vec' t) (m_nrmDir sf) \<le> hiVect (m_box sf) (m_nrmDir sf)"
    using jr d by (simp add: vec'_def setNrm_def IntVect_get_set)
  have cp: "\<And>t. t < blockDim \<Longrightarrow> copies sf 0 t \<Longrightarrow>
                 Box_contains (m_box sf) (vec' t) \<and> Box_contains (m_box (deref (m_src sf))) (vec' t)"
    using lanes_in_D[OF Cons.prems(2), of _ j] by (simp add: vec'_def setNrm_def)
  have blk: "SlabFab_loadSlab blockDim sf smem vec' 0 a_numThr cmem =
           Some (Inr (apply_writes (block_writes blockDim sf smem vec' 0) cmem))"
    using loadSlab_block_writes[OF inv bf rf nt nc nr cp] by simp
  have "lanes_in blockDim sf vec js"
    using Cons.prems(2) by (simp add: lanes_in_def list_all_iff)
  then have li': "lanes_in blockDim sf vec' js"
    using d by (simp add: vec'_def lanes_in_setNrm)
  have rg': "\<And>j. j \<in> set js \<Longrightarrow> loVect (m_box sf) (m_nrmDir sf) \<le> j \<and> j \<le> hiVect (m_box sf) (m_nrmDir sf)"
    using Cons.prems(1) by simp
  note ih = Cons.IH[OF rg' li', of "apply_writes (block_writes blockDim sf smem vec' 0) cmem"]
  have last: "(if js = [] then vec' else setNrm (m_nrmDir sf) vec' (last js))
                = (if j # js = [] then vec else setNrm (m_nrmDir sf) vec (last (j # js)))"
    using d by (simp add: vec'_def setNrm_setNrm)
  have ws: "apply_writes (slabs_writes blockDim sf smem vec' js) (apply_writes (block_writes blockDim sf smem vec' 0) cmem)
              = apply_writes (slabs_writes blockDim sf smem vec (j # js)) cmem"
    using d by (simp add: slabs_writes_Cons apply_writes_append vec'_def slabs_writes_setNrm)
  have "foreach ?F (j # js) (vec, cmem)
          = foreach ?F js (vec', apply_writes (block_writes blockDim sf smem vec' 0) cmem)"
    using d blk by (simp add: loadSlabs_body_def Let_def vec'_def)
  also have "\<dots> = Some (Inr (if js = [] then vec' else setNrm (m_nrmDir sf) vec' (last js),
                    apply_writes (slabs_writes blockDim sf smem vec' js)
                      (apply_writes (block_writes blockDim sf smem vec' 0) cmem)))"
    by (rule ih)
  also have "\<dots> = Some (Inr (if j # js = [] then vec else setNrm (m_nrmDir sf) vec (last (j # js)),
                    apply_writes (slabs_writes blockDim sf smem vec (j # js)) cmem))"
    by (simp only: last ws)
  finally show ?case .
qed

text \<open>
  The loop of \<open>loadSlabs\<close> runs its body on \<open>locNDBeg..locNDEnd\<close> when the counter
  can pass \<open>locNDEnd\<close>.
\<close>

lemma loadSlabs_foreach:
  assumes e: "locNDEnd < 2147483647"
  shows "int32 locNDBeg \<Longrightarrow>
         loadSlabs blockDim sf smem a_numThr locNDBeg locNDEnd st
           = foreach (loadSlabs_body blockDim sf smem a_numThr) [locNDBeg..locNDEnd] st"
proof (induction "nat (locNDEnd - locNDBeg + 1)" arbitrary: locNDBeg st)
  case 0
  then have "\<not> locNDBeg \<le> locNDEnd" by simp
  then show ?case by (simp add: loadSlabs.simps[of blockDim sf smem a_numThr locNDBeg locNDEnd st])
next
  case (Suc k)
  then have le: "locNDBeg \<le> locNDEnd" by linarith
  have k: "k = nat (locNDEnd - (locNDBeg + 1) + 1)" using Suc(2) by linarith
  have i: "int32 (locNDBeg + 1)" using le e Suc.prems by (simp add: int32_def)
  then have w: "i32 (locNDBeg + 1) = locNDBeg + 1" by (rule i32_id)
  have u: "[locNDBeg..locNDEnd] = locNDBeg # [locNDBeg + 1..locNDEnd]" using le by (simp add: upto_rec1)
  show ?case
    using le Suc(1)[OF k i]
    by (simp add: loadSlabs.simps[of blockDim sf smem a_numThr locNDBeg locNDEnd st] w u
          split: option.splits sum.splits)
qed

lemma loadSlabs_writes:
  assumes inv: "SlabFab_inv sf" and bf: "box_fits (m_box sf)" and rf: "refs_fit sf"
      and nt: "u32 a_numThr \<le> int blockDim"
              "m_numSubBox sf = - 3 \<Longrightarrow> int blockDim = u32 a_numThr"
              "m_numSubBox sf = - 2 \<Longrightarrow> m_numPntSlab sf \<le> a_numThr"
      and nc: "0 \<le> m_ncomp sf"
      and rg: "locNDBeg \<le> locNDEnd \<Longrightarrow>
                 loVect (m_box sf) (m_nrmDir sf) \<le> locNDBeg \<and> locNDEnd \<le> hiVect (m_box sf) (m_nrmDir sf)"
      and li: "lanes_in blockDim sf vec [locNDBeg..locNDEnd]"
      and ct: "int32 locNDBeg" "locNDEnd < 2147483647"
  shows "loadSlabs blockDim sf smem a_numThr locNDBeg locNDEnd (vec, cmem)
       = Some (Inr (if locNDEnd < locNDBeg then vec else setNrm (m_nrmDir sf) vec locNDEnd,
                    apply_writes (slabs_writes blockDim sf smem vec [locNDBeg..locNDEnd]) cmem))"
proof -
  have rg': "\<And>j. j \<in> set [locNDBeg..locNDEnd] \<Longrightarrow>
               loVect (m_box sf) (m_nrmDir sf) \<le> j \<and> j \<le> hiVect (m_box sf) (m_nrmDir sf)"
    using rg by auto
  have e: "([locNDBeg..locNDEnd] = []) = (locNDEnd < locNDBeg)" by auto
  have l: "\<not> locNDEnd < locNDBeg \<Longrightarrow> last [locNDBeg..locNDEnd] = locNDEnd"
    by (simp add: upto_rec2)
  show ?thesis
    unfolding loadSlabs_foreach[OF ct(2) ct(1)]
    using load_loop_writes[OF inv bf rf nt nc rg' li, of smem cmem] e l by auto
qed

lemma exposed_range:
  assumes d: "inRange (m_nrmDir sf)" and a: "a \<noteq> 0" "\<bar>a\<bar> \<le> depth sf"
  shows "exposed a sf =
           [(if a > 0 then hiVect (m_box (shifted a sf)) (m_nrmDir sf) - \<bar>a\<bar> + 1
             else loVect (m_box (shifted a sf)) (m_nrmDir sf))
            ..(if a > 0 then hiVect (m_box (shifted a sf)) (m_nrmDir sf)
               else loVect (m_box (shifted a sf)) (m_nrmDir sf) + \<bar>a\<bar> - 1)]"
    and "\<And>j. j \<in> set (exposed a sf) \<Longrightarrow>
            loVect (m_box (shifted a sf)) (m_nrmDir sf) \<le> j \<and> j \<le> hiVect (m_box (shifted a sf)) (m_nrmDir sf)"
    and "exposed a sf \<noteq> []"
proof -
  have n: "depth sf = hiVect (m_box sf) (m_nrmDir sf) - loVect (m_box sf) (m_nrmDir sf) + 1"
    by (rule depth_hi_lo[OF d])
  note g = shifted_geometry(5,6)[OF d, of a]
  show "exposed a sf =
           [(if a > 0 then hiVect (m_box (shifted a sf)) (m_nrmDir sf) - \<bar>a\<bar> + 1
             else loVect (m_box (shifted a sf)) (m_nrmDir sf))
            ..(if a > 0 then hiVect (m_box (shifted a sf)) (m_nrmDir sf)
               else loVect (m_box (shifted a sf)) (m_nrmDir sf) + \<bar>a\<bar> - 1)]"
    using a by (simp add: exposed_def g)
  show "\<And>j. j \<in> set (exposed a sf) \<Longrightarrow>
            loVect (m_box (shifted a sf)) (m_nrmDir sf) \<le> j \<and> j \<le> hiVect (m_box (shifted a sf)) (m_nrmDir sf)"
    using a n by (auto simp: exposed_def g split: if_splits)
  show "exposed a sf \<noteq> []" using a by (auto simp: exposed_def)
qed

lemma u32_int: "blockDim < 2147483648 \<Longrightarrow> u32 (int blockDim) = int blockDim"
  by (simp add: u32_def)

lemma fits_bounds:
  assumes f: "box_fits b" and d: "inRange d"
  shows "int32 (loVect b d)" "int32 (hiVect b d)"
proof -
  obtain l0 l1 l2 where lo: "m_lo b = IntVect l0 l1 l2" by (rule IntVect_obtain)
  obtain h0 h1 h2 where hi: "m_hi b = IntVect h0 h1 h2" by (rule IntVect_obtain)
  show "int32 (loVect b d)" "int32 (hiVect b d)"
    using inRange_cases[OF d] f by (auto simp: box_fits_def lo hi loVect_def hiVect_def)
qed

lemma refs_fit_shifted:
  assumes d: "inRange (m_nrmDir sf)"
  shows "refs_fit (shifted a sf) = refs_fit sf"
proof -
  have "IntVect_set (m_lo (m_box (shifted a sf))) (m_nrmDir sf) 0
          = IntVect_set (m_lo (m_box sf)) (m_nrmDir sf) 0"
    using d by (simp add: shifted_def IntVect_set_set)
  then show ?thesis by (simp add: refs_fit_def shifted_fields)
qed

lemma shift_load_writes:
  assumes inv: "SlabFab_inv sf" and bf: "box_fits (m_box sf)" and rf: "refs_fit sf"
      and lf: "loader_fits blockDim sf" and bd: "depth sf \<le> int blockDim"
      and nc: "0 \<le> m_ncomp sf" and a: "a \<noteq> 0" "\<bar>a\<bar> \<le> depth sf"
      and sfit: "shift_fits a sf"
      and li: "lanes_in blockDim (shifted a sf) vec (exposed a sf)"
  shows "SlabFab_shift_load blockDim a smem (sf, vec, cmem) =
           Some (Inr (shifted a sf, setNrm (m_nrmDir sf) vec (last (exposed a sf)),
                      apply_writes (slabs_writes blockDim (shifted a sf) smem vec (exposed a sf)) cmem))"
proof -
  have d: "inRange (m_nrmDir sf)" using inv by (simp add: SlabFab_inv_def window_ok_def)
  have b31: "blockDim < 2147483648" using lf by (simp add: loader_fits_def)
  have sh: "SlabFab_shift blockDim a sf = Some (Inr (shifted a sf))"
    using shift_ok[OF inv a(1) bd b31 sfit] .
  have inv1: "SlabFab_inv (shifted a sf)" using shifted_inv[OF inv a(1)] .
  have bf1: "box_fits (m_box (shifted a sf))" by (rule shifted_fits[OF inv sfit bf])
  have rf1: "refs_fit (shifted a sf)" using rf by (simp add: refs_fit_shifted[OF d])
  have f: "m_nrmDir (shifted a sf) = m_nrmDir sf" "m_numSubBox (shifted a sf) = m_numSubBox sf"
    "m_numPntSlab (shifted a sf) = m_numPntSlab sf" "m_ncomp (shifted a sf) = m_ncomp sf"
    by (simp_all add: shifted_def)
  have u: "u32 (int blockDim) = int blockDim" using b31 by (rule u32_int)
  have nt: "u32 (int blockDim) \<le> int blockDim"
           "m_numSubBox (shifted a sf) = - 3 \<Longrightarrow> int blockDim = u32 (int blockDim)"
           "m_numSubBox (shifted a sf) = - 2 \<Longrightarrow> m_numPntSlab (shifted a sf) \<le> int blockDim"
  proof -
    show "u32 (int blockDim) \<le> int blockDim" by (simp add: u)
    show "int blockDim = u32 (int blockDim)" by (simp add: u)
    show "m_numSubBox (shifted a sf) = - 2 \<Longrightarrow> m_numPntSlab (shifted a sf) \<le> int blockDim"
      using lf by (simp add: f loader_fits_def)
  qed
  have nc1: "0 \<le> m_ncomp (shifted a sf)" using nc by (simp add: f)
  note er = exposed_range[OF d a]
  define lo1 where "lo1 = loVect (m_box (shifted a sf)) (m_nrmDir sf)"
  define hi1 where "hi1 = hiVect (m_box (shifted a sf)) (m_nrmDir sf)"
  define B where "B = (if a > 0 then hi1 - \<bar>a\<bar> + 1 else lo1)"
  define E where "E = (if a > 0 then hi1 else lo1 + \<bar>a\<bar> - 1)"
  define B' where "B' = (if a > 0 then i32 (i32 (hi1 - i32 \<bar>a\<bar>) + 1) else lo1)"
  define E' where "E' = (if a > 0 then hi1 else i32 (i32 (B' + i32 \<bar>a\<bar>) - 1))"
  have ex: "exposed a sf = [B..E]" using er(1) by (simp add: B_def E_def lo1_def hi1_def)
  have BE: "B \<le> E" using er(3) ex by auto
  note mv = shift_fits_moved[OF inv sfit]
  have g: "lo1 = loVect (m_box sf) (m_nrmDir sf) + a" "hi1 = hiVect (m_box sf) (m_nrmDir sf) + a"
    unfolding lo1_def hi1_def by (rule shifted_geometry(5,6)[OF d])+
  have il: "int32 lo1" "int32 hi1" using mv by (simp_all add: g)
  have ab: "int32 \<bar>a\<bar>" using sfit unfolding shift_fits_def int32_def by linarith
  have lh: "lo1 \<le> hi1" using er(2)[of B] ex BE by (simp add: lo1_def hi1_def)
  have BEr: "lo1 \<le> B" "B \<le> hi1" "lo1 \<le> E" "E \<le> hi1"
    using er(2)[of B] er(2)[of E] ex BE by (simp_all add: lo1_def hi1_def)
  have iB: "int32 B" by (rule int32_between[OF il BEr(1,2)])
  have iE: "int32 E" by (rule int32_between[OF il BEr(3,4)])
  have Bp: "B' = B"
  proof (cases "a > 0")
    case True
    then have "i32 (hi1 - \<bar>a\<bar> + 1) = hi1 - \<bar>a\<bar> + 1" using iB by (simp add: B_def i32_id)
    then show ?thesis using True by (simp add: B'_def B_def i32_simps)
  next
    case False
    then show ?thesis by (simp add: B'_def B_def)
  qed
  have Ep: "E' = E"
  proof (cases "a > 0")
    case True
    then show ?thesis by (simp add: E'_def E_def)
  next
    case False
    then have "i32 (lo1 + \<bar>a\<bar> - 1) = lo1 + \<bar>a\<bar> - 1" using iE by (simp add: E_def i32_id)
    then show ?thesis using False by (simp add: E'_def E_def Bp B_def i32_simps)
  qed
  have El: "E < 2147483647"
  proof (cases "a > 0")
    case True
    then show ?thesis using sfit by (simp add: E_def g shift_fits_def)
  next
    case False
    then have "E = loVect (m_box sf) (m_nrmDir sf) - 1" using a(1) by (simp add: E_def g)
    moreover have "int32 (loVect (m_box sf) (m_nrmDir sf))" by (rule fits_bounds(1)[OF bf d])
    ultimately show ?thesis by (simp add: int32_def)
  qed
  have wb: "i32 (int blockDim) = int blockDim" using b31 by (intro i32_id) (simp add: int32_def)
  have rg: "B \<le> E \<Longrightarrow> loVect (m_box (shifted a sf)) (m_nrmDir (shifted a sf)) \<le> B
              \<and> E \<le> hiVect (m_box (shifted a sf)) (m_nrmDir (shifted a sf))"
    using BEr by (simp add: f lo1_def hi1_def)
  have li': "lanes_in blockDim (shifted a sf) vec [B..E]" using li ex by simp
  have ld: "loadSlabs blockDim (shifted a sf) smem (int blockDim) B E (vec, cmem)
       = Some (Inr (if E < B then vec else setNrm (m_nrmDir (shifted a sf)) vec E,
                    apply_writes (slabs_writes blockDim (shifted a sf) smem vec [B..E]) cmem))"
    using loadSlabs_writes[OF inv1 bf1 rf1 nt nc1 rg li' iB El] .
  have lastE: "last [B..E] = E" using BE by (simp add: upto_rec2)
  have res: "(case loadSlabs blockDim (shifted a sf) smem (int blockDim) B E (vec, cmem) of
                 None \<Rightarrow> None | Some (Inl e) \<Rightarrow> Some (Inl e)
               | Some (Inr (a_vec, cmem')) \<Rightarrow> Some (Inr (shifted a sf, a_vec, cmem')))
             = Some (Inr (shifted a sf, setNrm (m_nrmDir sf) vec E,
                      apply_writes (slabs_writes blockDim (shifted a sf) smem vec [B..E]) cmem))"
    using BE by (simp add: ld f)
  have unf0: "SlabFab_shift_load blockDim a smem (sf, vec, cmem)
           = (case loadSlabs blockDim (shifted a sf) smem (i32 (int blockDim)) B' E' (vec, cmem) of
                 None \<Rightarrow> None | Some (Inl e) \<Rightarrow> Some (Inl e)
               | Some (Inr (a_vec, cmem')) \<Rightarrow> Some (Inr (shifted a sf, a_vec, cmem')))"
    using a(1) d
    by (cases "a > 0") (simp_all add: SlabFab_shift_load_def sh f Let_def B'_def E'_def lo1_def hi1_def)
  have unf: "SlabFab_shift_load blockDim a smem (sf, vec, cmem)
           = (case loadSlabs blockDim (shifted a sf) smem (int blockDim) B E (vec, cmem) of
                 None \<Rightarrow> None | Some (Inl e) \<Rightarrow> Some (Inl e)
               | Some (Inr (a_vec, cmem')) \<Rightarrow> Some (Inr (shifted a sf, a_vec, cmem')))"
    unfolding unf0 Bp Ep wb ..
  show ?thesis unfolding unf res ex lastE ..
qed

lemma apply_writes_last:
  assumes "(a, x) \<in> set ws" and "\<And>w. w \<in> set ws \<Longrightarrow> fst w = a \<Longrightarrow> snd w = x"
  shows "apply_writes ws m a = x"
  using assms
proof (induction ws arbitrary: m)
  case Nil
  then show ?case by simp
next
  case (Cons w ws)
  have step: "apply_writes (w # ws) m a = apply_writes ws (m(fst w := snd w)) a"
    by (simp only: apply_writes_Cons)
  show ?case
  proof (cases "a \<in> fst ` set ws")
    case True
    then obtain y where y: "(a, y) \<in> set ws" by auto
    then have "y = x" using Cons.prems(2)[of "(a, y)"] by simp
    then have m: "(a, x) \<in> set ws" using y by simp
    have u: "\<And>v. v \<in> set ws \<Longrightarrow> fst v = a \<Longrightarrow> snd v = x" using Cons.prems(2) by simp
    show ?thesis unfolding step using m u by (rule Cons.IH)
  next
    case False
    then have "w = (a, x)" using Cons.prems(1) by force
    then show ?thesis unfolding step using False by (simp add: apply_writes_other)
  qed
qed

lemma lane_writes_set:
  "w \<in> set (lane_writes sf smem v) \<longleftrightarrow>
     (\<exists>c. m_compBegSrc sf \<le> c \<and> c < m_compBegSrc sf + m_ncomp sf \<and>
        w = (cache_addr sf v c, smem (src_addr (deref (m_src sf)) v c)))"
  by (auto simp: lane_writes_def)

lemma block_writes_set:
  "w \<in> set (block_writes blockDim sf smem vec i) \<longleftrightarrow>
     (\<exists>t. t < blockDim \<and> copies sf i t \<and> w \<in> set (lane_writes sf smem (vec t)))"
  by (auto simp: block_writes_def split: if_splits)

lemma slabs_writes_set0:
  "w \<in> set (slabs_writes blockDim sf smem vec js) \<longleftrightarrow>
     (\<exists>j. j \<in> set js \<and> w \<in> set (block_writes blockDim sf smem (setNrm (m_nrmDir sf) vec j) 0))"
  by (auto simp: slabs_writes_def)

lemma slabs_writes_set:
  "w \<in> set (slabs_writes blockDim sf smem vec js) \<longleftrightarrow>
     (\<exists>t j c. t < blockDim \<and> copies sf 0 t \<and> j \<in> set js \<and>
        m_compBegSrc sf \<le> c \<and> c < m_compBegSrc sf + m_ncomp sf \<and>
        w = (cache_addr sf (IntVect_set (vec t) (m_nrmDir sf) j) c,
             smem (src_addr (deref (m_src sf)) (IntVect_set (vec t) (m_nrmDir sf) j) c)))"
  unfolding slabs_writes_set0 block_writes_set lane_writes_set setNrm_def by blast

section \<open>Shifting there and back\<close>

lemma IntVect_set_get_id: "inRange d \<Longrightarrow> IntVect_set v d (IntVect_get v d) = v"
  by (cases v) (auto dest: inRange_cases)

lemma shifted_back:
  assumes inv: "SlabFab_inv sf" and k: "k \<noteq> 0"
  shows "shifted (- k) (shifted k sf) = sf"
proof -
  define sf1 where "sf1 = shifted k sf"
  have w: "window_ok sf" using inv by (rule inv_window)
  have d: "inRange (m_nrmDir sf)" using w by (simp add: window_ok_def)
  have inv1: "SlabFab_inv sf1" unfolding sf1_def by (rule shifted_inv[OF inv k])
  have k': "- k \<noteq> 0" using k by simp
  have n1: "m_nrmDir sf1 = m_nrmDir sf" by (simp add: sf1_def shifted_def)
  have dp: "depth sf1 = depth sf" unfolding sf1_def by (rule shifted_geometry(7)[OF d])
  have lo1: "loVect (m_box sf1) (m_nrmDir sf) = loVect (m_box sf) (m_nrmDir sf) + k"
    unfolding sf1_def by (rule shifted_geometry(5)[OF d])
  have hi1: "hiVect (m_box sf1) (m_nrmDir sf) = hiVect (m_box sf) (m_nrmDir sf) + k"
    unfolding sf1_def by (rule shifted_geometry(6)[OF d])
  have b1: "m_lo (m_box sf1) = IntVect_set (m_lo (m_box sf)) (m_nrmDir sf) (loVect (m_box sf) (m_nrmDir sf) + k)"
       "m_hi (m_box sf1) = IntVect_set (m_hi (m_box sf)) (m_nrmDir sf) (hiVect (m_box sf) (m_nrmDir sf) + k)"
    by (simp_all add: sf1_def shifted_def)
  have box: "m_box (shifted (- k) sf1) = m_box sf"
    using d by (simp add: shifted_def[of "- k" sf1] n1 lo1 hi1 b1 IntVect_set_set
        loVect_def[of "m_box sf"] hiVect_def[of "m_box sf"] IntVect_set_get_id)
  have len1: "length (m_pTable sf1) = length (m_pTable sf)" by (simp add: sf1_def shifted_def rotated_length)
  have len: "length (m_pTable (shifted (- k) sf1)) = length (m_pTable sf)"
    by (simp add: shifted_def[of "- k" sf1] rotated_length len1)
  have tab: "m_pTable (shifted (- k) sf1) = m_pTable sf"
  proof (rule nth_equalityI)
    show "length (m_pTable (shifted (- k) sf1)) = length (m_pTable sf)" by (rule len)
  next
    fix i assume "i < length (m_pTable (shifted (- k) sf1))"
    then have il: "i < length (m_pTable sf)" using len by simp
    show "m_pTable (shifted (- k) sf1) ! i = m_pTable sf ! i"
    proof (cases "int i < depth sf")
      case True
      then have i: "i < nat (depth sf)" by simp
      then have i1: "i < nat (depth sf1)" using dp by simp
      have "m_pTable (shifted (- k) sf1) ! i
              = (loVect (m_box sf1) (m_nrmDir sf1) + int i + phase sf1 + - k) mod depth sf1"
        by (rule shifted_table_nth[OF inv1 k' i1])
      also have "\<dots> = (loVect (m_box sf) (m_nrmDir sf) + int i + phase sf1) mod depth sf"
        by (simp add: n1 lo1 dp algebra_simps)
      also have "\<dots> = (loVect (m_box sf) (m_nrmDir sf) + int i + phase sf1 mod depth sf) mod depth sf"
        by (simp add: mod_add_right_eq)
      also have "\<dots> = (loVect (m_box sf) (m_nrmDir sf) + int i + phase sf mod depth sf) mod depth sf"
        using shifted_phase[OF inv k] by (simp add: sf1_def)
      also have "\<dots> = (loVect (m_box sf) (m_nrmDir sf) + int i + phase sf) mod depth sf"
        by (simp add: mod_add_right_eq)
      also have "\<dots> = m_pTable sf ! i" using window_table[OF w i] by simp
      finally show ?thesis .
    next
      case False
      have "m_pTable (shifted (- k) sf1) ! i = m_pTable sf1 ! i"
        using False il len1 by (simp add: shifted_def[of "- k" sf1] rotated_nth dp)
      also have "\<dots> = m_pTable sf ! i"
        using False il by (simp add: sf1_def shifted_def rotated_nth)
      finally show ?thesis .
    qed
  qed
  have "shifted (- k) sf1 = sf1\<lparr>m_box := m_box (shifted (- k) sf1), m_pTable := m_pTable (shifted (- k) sf1)\<rparr>"
    by (simp add: shifted_def[of "- k" sf1])
  also have "\<dots> = sf1\<lparr>m_box := m_box sf, m_pTable := m_pTable sf\<rparr>" by (simp only: box tab)
  also have "\<dots> = sf" by (simp add: sf1_def shifted_def)
  finally show ?thesis by (simp add: sf1_def)
qed

lemma exposed_back:
  assumes d: "inRange (m_nrmDir sf)" and k: "k \<noteq> 0"
  shows "exposed (- k) (shifted k sf) = evicted k sf"
  using k by (auto simp: exposed_def evicted_def shifted_geometry(5,6)[OF d] shifted_fields)

lemma evicted_of_exposed:
  assumes d: "inRange (m_nrmDir sf)" and k: "k \<noteq> 0" "\<bar>k\<bar> \<le> depth sf" and j: "j \<in> set (exposed k sf)"
  shows "(if k > 0 then j - depth sf else j + depth sf) \<in> set (evicted k sf)"
  using j k depth_hi_lo[OF d] by (auto simp: exposed_def evicted_def split: if_splits)

lemma coherent_on_D:
  assumes co: "coherent_on blockDim sf smem cmem vec js"
      and inv: "SlabFab_inv sf" and bf: "box_fits (m_box sf)" and rf: "refs_fit sf"
      and li: "lanes_in blockDim sf vec js"
      and h: "t < blockDim" "copies sf 0 t" "j \<in> set js"
             "m_compBegSrc sf \<le> c" "c < m_compBegSrc sf + m_ncomp sf"
  shows "cmem (cache_addr sf (IntVect_set (vec t) (m_nrmDir sf) j) c)
           = smem (src_addr (deref (m_src sf)) (IntVect_set (vec t) (m_nrmDir sf) j) c)"
proof -
  define p where "p = IntVect_set (vec t) (m_nrmDir sf) j"
  have pc: "Box_contains (m_box sf) p" "Box_contains (m_box (deref (m_src sf))) p"
    using lanes_in_D[OF li h(1) h(3) h(2)] by (simp_all add: p_def)
  have r: "SlabFab_ref sf p c = Inr (cache_addr sf p c)"
    by (rule SlabFab_ref_addr[OF inv bf rf pc(1) h(4,5)])
  have c2: "c \<le> m_compBegSrc sf + m_ncomp sf - 1" using h(5) by simp
  have s: "CudaFab_ref (deref (m_src sf)) p c = Inr (src_addr (deref (m_src sf)) p c)"
    using rf by (intro CudaFab_ref_addr[OF pc(2) _ _ _ h(4) c2]) (simp_all add: refs_fit_def Let_def)
  have "c \<in> set [m_compBegSrc sf..m_compBegSrc sf + m_ncomp sf - 1]" using h by simp
  then have "case (SlabFab_ref sf p c, CudaFab_ref (deref (m_src sf)) p c) of
              (Inr d, Inr s) \<Rightarrow> cmem d = smem s | _ \<Rightarrow> False"
    using co h(1,2,3) unfolding coherent_on_def list_all_iff p_def by auto
  then show ?thesis unfolding r s by (simp add: p_def)
qed

section \<open>The concrete windows\<close>

text \<open>The lists and definitions that evaluate the scenarios, and the facts of scenario B.\<close>

lemma upt_0_2: "[0..<2] = [0, 1]" by (simp add: upt_rec)

lemma upt_0_4: "[0..<4] = [0, 1, 2, 3]" by (simp add: upt_rec)

lemma upt_0_6: "[0..<6] = [0, 1, 2, 3, 4, 5]" by (simp add: upt_rec)

lemma i32_eval:
  "i32 0 = 0" "i32 1 = 1" "i32 (- 1) = - 1"
  "i32 (numeral n) = (numeral n + 2147483648) mod 4294967296 - 2147483648"
  "i32 (- numeral n) = (- numeral n + 2147483648) mod 4294967296 - 2147483648"
  by (simp_all add: i32_def)

lemmas run_defs = SlabFab_define_def define_thr0_def CudaFab_setStride_def selectLoadMethod_def
  define_vec_lane_def linToVec_box_def linToVec_def loadSlabs.simps loadSlabs_body_def
  SlabFab_loadSlab_def loadSlab_lane_def
  loadComps.simps SlabFab_ref_def SlabFab_index_def CudaFab_ref_def CudaFab_index_def
  Box_contains_def Box_dimensions_def Box_getStride_def Box_size_def extent_def hiVect_def loVect_def
  inRange_def g_SpaceDim_def u32_def i32_eval vecToLin0_def setNrm_def Let_def signed_divide_int_def
  signed_modulo_int_def Box_getOffset_def SlabFab_shift_load_def SlabFab_shift_def shift_lane_def
  SlabFab_numSlab_def normalized_def Box_shift_def SlabFab_at_def CudaFab_at_def
  this0_def winB_def srcB_def winC_def srcC_def memB_def upt_0_2 upt_0_4 upt_0_6 upto_rec1

lemmas window_defs = sfB_def winB_def srcB_def vecB_def memB_def
  SlabFab_inv_def window_ok_def depth_def phase_def loader_fits_def lanes_in_def coherent_on_def
  shifted_def rotated_def normal_shift_def exposed_def evicted_def copies_def
  SlabFab_ref_def SlabFab_index_def CudaFab_ref_def CudaFab_index_def
  Box_contains_def extents_def strides_def cells_def hiVect_def loVect_def
  box_fits_def refs_fit_def shift_fits_def lin_of_def int32_def i32_def
  inRange_def g_SpaceDim_def Let_def signed_divide_int_def signed_modulo_int_def
  upt_0_4 upt_0_6 upto_rec1

lemma sfB_inv: "SlabFab_inv sfB" by (simp add: window_defs)

lemma sfB_box: "box_fits (m_box sfB)" by (simp add: window_defs)

lemma sfB_refs: "refs_fit sfB" by (simp add: window_defs)

lemma sfB_fits: "loader_fits 4 sfB" by (simp add: window_defs)

lemma sfB_depth: "depth sfB = 4" by (simp add: window_defs)

lemma sfB_shift: "shift_fits 1 sfB" by (simp add: window_defs)

lemma sfB_shift_back: "shift_fits (- 1) (shifted 1 sfB)" by (simp add: window_defs)

lemma sfB_lanes_exposed: "lanes_in 4 (shifted 1 sfB) vecB (exposed 1 sfB)" by (simp add: window_defs)

lemma sfB_lanes_evicted: "lanes_in 4 sfB vecB (evicted 1 sfB)" by (simp add: window_defs)

lemma sfB_coherent: "coherent_on 4 sfB memB memB vecB (evicted 1 sfB)" by (simp add: window_defs)

lemma defineB_sfB: "\<exists>vec0 cmem0. defineB 0 = Some (Inr (sfB, vec0, cmem0))"
  by (simp add: defineB_def run_defs sfB_def)

section \<open>Claims about SlabFab\<close>

text \<open>
  C4. When \<open>define\<close> returns for a region whose bounds and number of cells are
  representable, the table is the identity, so its first \<open>numSlab\<close> entries are
  \<open>0..numSlab-1\<close>, and \<open>numSlab\<close> is at most \<open>MxSz\<close>. After any sequence of
  \<open>shift(n)\<close> calls, of either sign, run by a block of at least \<open>numSlab\<close> lanes,
  in which every \<open>n\<close> is one that the 32-bit arithmetic of \<open>shift\<close> carries
  (\<open>shift_fits\<close>), every call has returned, \<open>numSlab\<close> is what it was, the first
  \<open>numSlab\<close> entries are a bijection of \<open>{0..numSlab-1}\<close>, and the operand
  \<open>m_pTable[lane] + a_i\<close> of the next such update, \<open>a_i\<close> after its normalisation,
  is not negative.
\<close>

theorem pTable_permutation:
  assumes def: "SlabFab_define blockDim this a_alias a_box a_ncomp a_nrmDir a_locNDBeg a_locNDEnd a_vecLS
       a_compBegSrc a_src a_numThrLS smem cmem = Some (Inr (sf0, vec0, cmem0))"
      and bf: "box_fits a_box"
      and bd: "depth sf0 \<le> int blockDim" "blockDim < 2147483648"
  shows "SlabFab_numSlab sf0 = Inr (depth sf0) \<and> depth sf0 \<le> int (length (m_pTable sf0)) \<and>
         m_pTable sf0 = map int [0..<length (m_pTable this)] \<and>
         (\<forall>shifts. all_shifts_fit sf0 shifts \<longrightarrow>
            (\<exists>sf. foreach (SlabFab_shift blockDim) shifts sf0 = Some (Inr sf) \<and>
               SlabFab_numSlab sf = Inr (depth sf0) \<and>
               bij_betw (\<lambda>i. m_pTable sf ! nat i) {0..<depth sf0} {0..<depth sf0} \<and>
               (\<forall>a t. a \<noteq> 0 \<and> shift_fits a sf \<and> t < nat (depth sf0) \<longrightarrow>
                      0 \<le> i32 (m_pTable sf ! t + normalized a (depth sf0)))))"
proof -
  have d0: "define_thr0 blockDim this a_alias a_box a_ncomp a_nrmDir a_compBegSrc a_src a_numThrLS = Inr sf0"
    using def by (auto simp: SlabFab_define_def split: sum.splits option.splits)
  have sz: "cells a_box < 2147483648" using bf by (simp add: box_fits_def)
  note i0 = define_thr0_inv[OF d0 sz]
  have n0: "1 < depth sf0" "depth sf0 \<le> int (length (m_pTable sf0))" "inRange (m_nrmDir sf0)"
    using i0(1) by (simp_all add: SlabFab_inv_def window_ok_def)
  have dl: "0 \<le> depth sf0" "depth sf0 < 2147483648" using n0 bd by simp_all
  have a: "SlabFab_numSlab sf0 = Inr (depth sf0)" by (rule numSlab_depth[OF n0(3) dl])
  have b: "\<exists>sf. foreach (SlabFab_shift blockDim) shifts sf0 = Some (Inr sf) \<and>
             SlabFab_numSlab sf = Inr (depth sf0) \<and>
             bij_betw (\<lambda>i. m_pTable sf ! nat i) {0..<depth sf0} {0..<depth sf0} \<and>
             (\<forall>a t. a \<noteq> 0 \<and> shift_fits a sf \<and> t < nat (depth sf0) \<longrightarrow>
                    0 \<le> i32 (m_pTable sf ! t + normalized a (depth sf0)))"
    if fit: "all_shifts_fit sf0 shifts" for shifts
  proof -
    obtain sf where sf: "foreach (SlabFab_shift blockDim) shifts sf0 = Some (Inr sf)" "SlabFab_inv sf"
       "depth sf = depth sf0"
      using shifts_ok[OF bd(2) i0(1) bd(1) fit] by blast
    have ds: "inRange (m_nrmDir sf)" using sf(2) by (simp add: SlabFab_inv_def window_ok_def)
    have ns: "SlabFab_numSlab sf = Inr (depth sf0)"
      using numSlab_depth[OF ds] dl sf(3) by simp
    have bij: "bij_betw (\<lambda>i. m_pTable sf ! nat i) {0..<depth sf0} {0..<depth sf0}"
      using inv_table_bij[OF sf(2)] sf(3) by simp
    have op: "0 \<le> i32 (m_pTable sf ! t + normalized a (depth sf0))"
      if h: "a \<noteq> 0" "shift_fits a sf" "t < nat (depth sf0)" for a t
    proof -
      have t0: "0 \<le> m_pTable sf ! t" "m_pTable sf ! t < depth sf0"
        using inv_table[OF sf(2), of t] h(3) sf(3) n0 by simp_all
      have nn: "0 \<le> normal_shift a (depth sf0)" using h(1) n0 by (simp add: normal_shift_nonneg)
      have nb: "normal_shift a (depth sf0) + depth sf0 \<le> 2147483648"
        using h(2) by (simp add: shift_fits_def sf(3))
      have nz: "normalized a (depth sf0) = normal_shift a (depth sf0)"
        using h(2) n0 nb by (intro normalized_exact h(1)) (simp_all add: shift_fits_def)
      have "int32 (m_pTable sf ! t + normal_shift a (depth sf0))"
        using t0 nn nb by (simp add: int32_def)
      then show ?thesis using t0 nn by (simp add: nz i32_id)
    qed
    show ?thesis using sf(1) ns bij op by blast
  qed
  show ?thesis using a n0 i0(2) b by blast
qed

theorem pTable_permutation_witness:
  "(\<exists>vec0 cmem0. defineB 0 = Some (Inr (sfB, vec0, cmem0))) \<and> box_fits winB \<and>
   depth sfB = 4 \<and> all_shifts_fit sfB [1, - 1] \<and>
   SlabFab_numSlab sfB = Inr 4 \<and> 4 \<le> int (length (m_pTable sfB)) \<and>
   m_pTable sfB = map int [0..<length (m_pTable this0)] \<and>
   (\<exists>sf. foreach (SlabFab_shift 4) [1, - 1] sfB = Some (Inr sf) \<and>
             SlabFab_numSlab sf = Inr 4 \<and>
             bij_betw (\<lambda>i. m_pTable sf ! nat i) {0..<4} {0..<4})"
proof -
  obtain vec0 cmem0 where d: "defineB 0 = Some (Inr (sfB, vec0, cmem0))" using defineB_sfB by blast
  have bf: "box_fits winB" using sfB_box by (simp add: sfB_def)
  have bd: "depth sfB \<le> int 4" "(4::nat) < 2147483648" by (simp_all add: sfB_depth)
  have fit: "all_shifts_fit sfB [1, - 1]" using sfB_shift sfB_shift_back by simp
  note r = pTable_permutation [OF d[unfolded defineB_def] bf bd, unfolded sfB_depth]
  have s: "\<exists>sf. foreach (SlabFab_shift 4) [1, - 1] sfB = Some (Inr sf) \<and>
             SlabFab_numSlab sf = Inr 4 \<and>
             bij_betw (\<lambda>i. m_pTable sf ! nat i) {0..<4} {0..<4}"
    using r fit by blast
  show ?thesis using r by (intro conjI defineB_sfB bf sfB_depth fit s) blast+
qed

text \<open>
  C4 as it is stated. The claim is made for arbitrary \<open>n\<close>. In scenario B, \<open>numSlab\<close> is 4 and the
  block has 4 lanes: in \<open>shift(1073741824)\<close> after \<open>define\<close> the normalised \<open>a_i\<close>
  is \<open>2^30 + 2^30\<close>, which wraps to \<open>-2^31\<close>; the operand of the update in lane 1
  is negative, and the first four entries of the table become \<open>0, -3, -2, -1\<close>.
\<close>

theorem shift_wraps_pTable:
  "(case defineB 0 of
      Some (Inr (sf, v, c)) \<Rightarrow>
        (case SlabFab_shift 4 1073741824 sf of
           Some (Inr sf') \<Rightarrow>
             Some (SlabFab_numSlab sf, normalized 1073741824 4,
                   i32 (m_pTable sf ! 1 + normalized 1073741824 4), take 4 (m_pTable sf'))
         | _ \<Rightarrow> None)
    | _ \<Rightarrow> None)
   = Some (Inr 4, - 2147483648, - 2147483647, [0, - 3, - 2, - 1])"
  by (simp add: defineB_def run_defs)

text \<open>
  C7. The claim ends with: in the copy path each point of the slab is written by
  exactly one lane. \<open>loadSlab\<close> copies at the vector of the lane, and \<open>define\<close> sets
  that vector with \<open>linToVec(threadIdx.x)\<close> on the whole region and then overwrites
  its normal component. In scenario C the normal axis is 0: \<open>define\<close> selects \<open>-3\<close>,
  both lanes name \<open>(x,0,0)\<close>, and after the two slabs are loaded the point
  \<open>(1,0,0)\<close> holds the source value 101 while \<open>(1,0,1)\<close>, whose source value is 105,
  still holds \<open>-1\<close>.
\<close>

theorem loadSlab_lanes_collide:
  "(case defineC of
      Some (Inr (sf, v, c)) \<Rightarrow>
        Some (m_numSubBox sf, m_numPntSlab sf, v 0, v 1,
              SlabFab_at sf c (IntVect 1 0 0) 0, SlabFab_at sf c (IntVect 1 0 1) 0,
              CudaFab_at srcC memB (IntVect 1 0 1) 0)
    | _ \<Rightarrow> None)
   = Some (- 3, 2, IntVect 1 0 0, IntVect 1 0 0, Inr 101, Inr (- 1), Inr 105)"
  by (simp add: defineC_def run_defs)

text \<open>
  C3. The claim is that after \<open>shift(n, cursor)\<close> every point of the newly exposed
  slabs holds the source value. The reload copies at the vectors that \<open>define\<close> has
  set, and with normal axis 0 these do not name every point of a slab. In scenario C,
  after \<open>define\<close> and \<open>shift(1, cursor)\<close>, the region is
  \<open>[(1,0,0),(2,0,1)]\<close> and the loaded slab is \<open>x = 2\<close>: \<open>(2,0,0)\<close> holds the
  source value 102, \<open>(2,0,1)\<close> holds \<open>-1\<close> where the source has 106.
\<close>

theorem shift_load_leaves_stale_point:
  "(case defineC of
      Some (Inr st) \<Rightarrow>
        (case SlabFab_shift_load 2 1 memB st of
           Some (Inr (sf, v, c)) \<Rightarrow>
             Some (m_box sf, SlabFab_at sf c (IntVect 2 0 0) 0, SlabFab_at sf c (IntVect 2 0 1) 0,
                   CudaFab_at srcC memB (IntVect 2 0 1) 0)
         | _ \<Rightarrow> None)
    | _ \<Rightarrow> None)
   = Some (\<lparr>m_lo = IntVect 1 0 0, m_hi = IntVect 2 0 1\<rparr>, Inr 102, Inr (- 1), Inr 106)"
  by (simp add: defineC_def run_defs)

text \<open>
  C2. For a window whose region, element offsets and two shifts the 32-bit arithmetic
  carries (\<open>box_fits\<close>, \<open>refs_fit\<close>, \<open>shift_fits\<close>), a block of at least \<open>numSlab\<close>
  lanes that fits the loader, \<open>|k| \<le> numSlab\<close>, lanes' vectors that name points of
  the window and of the source on the slabs that enter and on the slabs that leave,
  and a cache that agrees with the source at those points of the slabs that leave:
  \<open>shift(k, cursor)\<close> and then \<open>shift(-k, cursor)\<close> both return, and the second
  leaves every field of the window (region, table and the rest) and every cached value
  as they were before the first.
\<close>

theorem shift_load_round_trip:
  assumes inv: "SlabFab_inv sf" and bf: "box_fits (m_box sf)" and rf: "refs_fit sf"
      and f1: "shift_fits k sf" and f2: "shift_fits (- k) (shifted k sf)"
      and lf: "loader_fits blockDim sf" and bd: "depth sf \<le> int blockDim"
      and nc: "0 \<le> m_ncomp sf" and k: "\<bar>k\<bar> \<le> depth sf"
      and li1: "lanes_in blockDim (shifted k sf) a_vec (exposed k sf)"
      and li2: "lanes_in blockDim sf a_vec (evicted k sf)"
      and co: "coherent_on blockDim sf smem cmem a_vec (evicted k sf)"
  shows "\<exists>sf1 a_vec1 cmem1 a_vec2.
           SlabFab_shift_load blockDim k smem (sf, a_vec, cmem) = Some (Inr (sf1, a_vec1, cmem1)) \<and>
           SlabFab_shift_load blockDim (- k) smem (sf1, a_vec1, cmem1) = Some (Inr (sf, a_vec2, cmem))"
proof (cases "k = 0")
  case True
  then show ?thesis by (simp add: SlabFab_shift_load_def)
next
  case False
  define sf1 where "sf1 = shifted k sf"
  define n where "n = m_nrmDir sf"
  define vec1 where "vec1 = setNrm n a_vec (last (exposed k sf))"
  define ws1 where "ws1 = slabs_writes blockDim sf1 smem a_vec (exposed k sf)"
  define ws2 where "ws2 = slabs_writes blockDim sf smem a_vec (evicted k sf)"
  define cm1 where "cm1 = apply_writes ws1 cmem"
  have k0: "k \<noteq> 0" "- k \<noteq> 0" using False by simp_all
  have w: "window_ok sf" using inv by (rule inv_window)
  have d: "inRange n" using w by (simp add: window_ok_def n_def)
  have inv1: "SlabFab_inv sf1" unfolding sf1_def by (rule shifted_inv[OF inv k0(1)])
  have w1: "window_ok sf1" using inv1 by (rule inv_window)
  have dp: "depth sf1 = depth sf" unfolding sf1_def using d by (simp add: shifted_geometry(7) n_def)
  have f: "m_nrmDir sf1 = n" "m_compBegSrc sf1 = m_compBegSrc sf" "m_ncomp sf1 = m_ncomp sf"
     "m_src sf1 = m_src sf" "\<And>i t. copies sf1 i t = copies sf i t"
    by (simp_all add: sf1_def shifted_fields n_def)
  have lf1: "loader_fits blockDim sf1" using lf by (simp add: loader_fits_def sf1_def shifted_fields)
  have bf1: "box_fits (m_box sf1)" unfolding sf1_def by (rule shifted_fits[OF inv f1 bf])
  have rf1: "refs_fit sf1" unfolding sf1_def using rf d by (simp add: refs_fit_shifted n_def)
  have f2': "shift_fits (- k) sf1" unfolding sf1_def by (rule f2)
  have run1: "SlabFab_shift_load blockDim k smem (sf, a_vec, cmem) = Some (Inr (sf1, vec1, cm1))"
    using shift_load_writes[OF inv bf rf lf bd nc k0(1) k f1 li1]
    by (simp add: sf1_def vec1_def cm1_def ws1_def n_def)
  have bk: "shifted (- k) sf1 = sf" unfolding sf1_def by (rule shifted_back[OF inv k0(1)])
  have exb: "exposed (- k) sf1 = evicted k sf"
    unfolding sf1_def using d by (simp add: exposed_back k0(1) n_def)
  have li2': "lanes_in blockDim (shifted (- k) sf1) vec1 (exposed (- k) sf1)"
    using li2 d by (simp add: bk exb vec1_def lanes_in_setNrm[of sf, folded n_def])
  have bd1: "depth sf1 \<le> int blockDim" using bd dp by simp
  have nc1: "0 \<le> m_ncomp sf1" using nc f by simp
  have k1: "\<bar>- k\<bar> \<le> depth sf1" using k dp by simp
  have run2: "SlabFab_shift_load blockDim (- k) smem (sf1, vec1, cm1)
                = Some (Inr (sf, setNrm n vec1 (last (evicted k sf)), apply_writes ws2 cm1))"
    using shift_load_writes[OF inv1 bf1 rf1 lf1 bd1 nc1 k0(2) k1 f2' li2', of smem cm1] d
    by (simp add: bk exb f ws2_def vec1_def slabs_writes_setNrm[of sf, folded n_def])
  have set1: "\<And>x. x \<in> set ws1 \<longleftrightarrow>
     (\<exists>t j c. t < blockDim \<and> copies sf 0 t \<and> j \<in> set (exposed k sf) \<and>
        m_compBegSrc sf \<le> c \<and> c < m_compBegSrc sf + m_ncomp sf \<and>
        x = (cache_addr sf1 (IntVect_set (a_vec t) n j) c,
             smem (src_addr (deref (m_src sf)) (IntVect_set (a_vec t) n j) c)))"
    unfolding ws1_def by (simp add: slabs_writes_set f)
  have set2: "\<And>x. x \<in> set ws2 \<longleftrightarrow>
     (\<exists>t j c. t < blockDim \<and> copies sf 0 t \<and> j \<in> set (evicted k sf) \<and>
        m_compBegSrc sf \<le> c \<and> c < m_compBegSrc sf + m_ncomp sf \<and>
        x = (cache_addr sf (IntVect_set (a_vec t) n j) c,
             smem (src_addr (deref (m_src sf)) (IntVect_set (a_vec t) n j) c)))"
    unfolding ws2_def by (simp add: slabs_writes_set n_def)
  have val2: "snd x = cmem (fst x)" if xin: "x \<in> set ws2" for x
  proof -
    obtain t j c where g: "t < blockDim" "copies sf 0 t" "j \<in> set (evicted k sf)"
        "m_compBegSrc sf \<le> c" "c < m_compBegSrc sf + m_ncomp sf"
        "x = (cache_addr sf (IntVect_set (a_vec t) n j) c,
             smem (src_addr (deref (m_src sf)) (IntVect_set (a_vec t) n j) c))"
      using xin set2 by blast
    show ?thesis using coherent_on_D[OF co inv bf rf li2 g(1,2,3,4,5)] g(6) by (simp add: n_def)
  qed
  have sub: "fst x \<in> fst ` set ws2" if xin: "x \<in> set ws1" for x
  proof -
    obtain t j c where g: "t < blockDim" "copies sf 0 t" "j \<in> set (exposed k sf)"
        "m_compBegSrc sf \<le> c" "c < m_compBegSrc sf + m_ncomp sf"
        "x = (cache_addr sf1 (IntVect_set (a_vec t) n j) c,
             smem (src_addr (deref (m_src sf)) (IntVect_set (a_vec t) n j) c))"
      using xin set1 by blast
    define j2 where "j2 = (if k > 0 then j - depth sf else j + depth sf)"
    have j2: "j2 \<in> set (evicted k sf)"
      unfolding j2_def using evicted_of_exposed[of sf k j] d k0(1) k g(3) by (simp add: n_def)
    have c1: "Box_contains (m_box (shifted k sf)) (IntVect_set (a_vec t) n j)"
      using lanes_in_D(1)[OF li1 g(1) g(3)] g(2) by (simp add: shifted_fields n_def)
    have c2: "Box_contains (m_box sf) (IntVect_set (a_vec t) n j2)"
      using lanes_in_D(1)[OF li2 g(1) j2 g(2)] by (simp add: n_def)
    have md: "j mod depth sf = j2 mod depth sf" by (simp add: j2_def)
    have "cache_addr (shifted k sf) (IntVect_set (a_vec t) n j) c
            = cache_addr sf (IntVect_set (a_vec t) n j2) c"
      using d md
      by (intro cache_addr_shifted[OF inv k0(1) c1 c2])
         (simp_all add: n_def[symmetric] IntVect_set_set IntVect_get_set)
    then have "fst x = fst (cache_addr sf (IntVect_set (a_vec t) n j2) c,
             smem (src_addr (deref (m_src sf)) (IntVect_set (a_vec t) n j2) c))"
      using g(6) by (simp add: sf1_def)
    moreover have "(cache_addr sf (IntVect_set (a_vec t) n j2) c,
             smem (src_addr (deref (m_src sf)) (IntVect_set (a_vec t) n j2) c)) \<in> set ws2"
      using set2 g(1,2,4,5) j2 by blast
    ultimately show ?thesis by (metis imageI)
  qed
  have "apply_writes ws2 cm1 x = cmem x" for x
  proof (cases "x \<in> fst ` set ws2")
    case True
    then show ?thesis using apply_writes_fun[of ws2 cmem cm1 x] val2 by simp
  next
    case False
    then have "x \<notin> fst ` set ws1" using sub by auto
    then have "cm1 x = cmem x" unfolding cm1_def by (rule apply_writes_other)
    then show ?thesis using False apply_writes_fun[of ws2 cmem cm1 x] val2 by simp
  qed
  then have "apply_writes ws2 cm1 = cmem" by (rule ext)
  then show ?thesis using run1 run2 by simp
qed

theorem shift_load_round_trip_witness:
  "SlabFab_inv sfB \<and> box_fits (m_box sfB) \<and> refs_fit sfB \<and>
   shift_fits 1 sfB \<and> shift_fits (- 1) (shifted 1 sfB) \<and>
   loader_fits 4 sfB \<and> depth sfB = 4 \<and> 0 \<le> m_ncomp sfB \<and>
   lanes_in 4 (shifted 1 sfB) vecB (exposed 1 sfB) \<and> lanes_in 4 sfB vecB (evicted 1 sfB) \<and>
   coherent_on 4 sfB memB memB vecB (evicted 1 sfB) \<and>
   (\<exists>sf1 a_vec1 cmem1 a_vec2.
      SlabFab_shift_load 4 1 memB (sfB, vecB, memB) = Some (Inr (sf1, a_vec1, cmem1)) \<and>
      SlabFab_shift_load 4 (- 1) memB (sf1, a_vec1, cmem1) = Some (Inr (sfB, a_vec2, memB)))"
proof -
  have bd: "depth sfB \<le> int 4" by (simp add: sfB_depth)
  have nc: "0 \<le> m_ncomp sfB" by (simp add: sfB_def)
  have k: "\<bar>1\<bar> \<le> depth sfB" by (simp add: sfB_depth)
  note r = shift_load_round_trip [OF sfB_inv sfB_box sfB_refs sfB_shift sfB_shift_back sfB_fits bd nc k
      sfB_lanes_exposed sfB_lanes_evicted sfB_coherent]
  show ?thesis
    by (intro conjI sfB_inv sfB_box sfB_refs sfB_shift sfB_shift_back sfB_fits sfB_depth nc
        sfB_lanes_exposed sfB_lanes_evicted sfB_coherent r)
qed

text \<open>
  C2 as it is stated. The claim is made for any \<open>k\<close> and any cache. In scenario B, \<open>numSlab\<close> is 4:
  after \<open>define\<close>, \<open>shift(5, cursor)\<close> halts on the assertion of \<open>loadSlab\<close> that
  the slab is in the window. And when \<open>define\<close> has loaded the slabs \<open>1..3\<close> only,
  \<open>(0,0,0)\<close> holds \<open>-1\<close> before \<open>shift(1, cursor)\<close>, \<open>shift(-1, cursor)\<close> and the
  source value 100 after them.
\<close>

theorem shift_load_round_trip_fails:
  "(case defineB 0 of
      Some (Inr st) \<Rightarrow>
        (case SlabFab_shift_load 4 5 memB st of Some (Inl e) \<Rightarrow> Some e | _ \<Rightarrow> None)
    | _ \<Rightarrow> None) = Some AssertionFailed \<and>
   (case defineB 1 of
      Some (Inr (sf, v, c)) \<Rightarrow>
        (case SlabFab_shift_load 4 1 memB (sf, v, c) of
           Some (Inr st1) \<Rightarrow>
             (case SlabFab_shift_load 4 (- 1) memB st1 of
                Some (Inr (sf2, v2, c2)) \<Rightarrow>
                  Some (SlabFab_at sf c (IntVect 0 0 0) 0, SlabFab_at sf2 c2 (IntVect 0 0 0) 0,
                        CudaFab_at srcB memB (IntVect 0 0 0) 0)
              | _ \<Rightarrow> None)
         | _ \<Rightarrow> None)
    | _ \<Rightarrow> None) = Some (Inr (- 1), Inr 100, Inr 100)"
  by (simp add: defineB_def run_defs)

end
